theory Spec2Isabelle
  imports Main "HOL-Library.Word" "HOL-Library.Sublist"
begin

section \<open>Semantic analysis of the Glint front-end (lib/glint/sema.cc)\<close>

text \<open>
  Diagnostics are collected in the order in which \<^verbatim>\<open>Error\<close>, \<^verbatim>\<open>Warning\<close> and
  \<^verbatim>\<open>Diag::Note\<close> are called. The message texts are shortened; each one still
  identifies the call it stands for.
\<close>

datatype diag = Error string | Warning string | Note string

fun is_Error :: "diag \<Rightarrow> bool" where
  "is_Error (Error m) = True"
| "is_Error (Warning m) = False"
| "is_Error (Note m) = False"

subsection \<open>Types\<close>

text \<open>
  Modelled from the spec: the type and expression classes are declared in glint/ast.hh,
  which is not among the sources. The variants below are the closed set of section 3 of
  the spec, under the class names sema.cc uses; the queries are the member functions
  sema.cc calls on a \<^verbatim>\<open>Type*\<close>. A node whose sema state is errored is
  \<open>ErroredType\<close>; every other value stands for an analysed type. An integer type carries
  its bit width and whether it is signed; a struct or union its name; a sum type its name
  and members; an enum its name and underlying type.
\<close>

datatype sema_state = NotAnalysed | InProgress | Done | Errored | NoLongerViable

datatype FuncAttr = Const | Discardable | Inline | NoInline | NoReturn | Pure | Used

datatype BuiltinKind =
  BuiltinUnknown | BuiltinVoid | BuiltinBool | BuiltinByte | BuiltinInt | BuiltinOverloadSet

datatype gtype =
    BuiltinType BuiltinKind
  | FFIType nat bool
  | IntegerType nat bool
  | NamedType string
  | PointerType gtype
  | ReferenceType gtype
  | ArrayType gtype nat
  | DynamicArrayType gtype
  | StructType string
  | UnionType string
  | SumType string "(string \<times> gtype) list"
  | EnumType string gtype
  | FuncType gtype "gtype list" "FuncAttr list"
  | ErroredType

definition type_sema_errored :: "gtype \<Rightarrow> bool" where
  "type_sema_errored t = (t = ErroredType)"

definition is_void :: "gtype \<Rightarrow> bool" where
  "is_void t = (t = BuiltinType BuiltinVoid)"

definition is_bool :: "gtype \<Rightarrow> bool" where
  "is_bool t = (t = BuiltinType BuiltinBool)"

definition is_unknown :: "gtype \<Rightarrow> bool" where
  "is_unknown t = (t = BuiltinType BuiltinUnknown)"

fun is_integer :: "bool \<Rightarrow> gtype \<Rightarrow> bool" where
  "is_integer include_bool (BuiltinType BuiltinBool) = include_bool"
| "is_integer include_bool (BuiltinType BuiltinByte) = True"
| "is_integer include_bool (BuiltinType BuiltinInt) = True"
| "is_integer include_bool (FFIType w s) = True"
| "is_integer include_bool (IntegerType w s) = True"
| "is_integer include_bool t = False"

fun is_signed_int :: "gtype \<Rightarrow> bool" where
  "is_signed_int (BuiltinType BuiltinInt) = True"
| "is_signed_int (FFIType w s) = s"
| "is_signed_int (IntegerType w s) = s"
| "is_signed_int t = False"

fun is_unsigned_int :: "gtype \<Rightarrow> bool" where
  "is_unsigned_int (BuiltinType BuiltinByte) = True"
| "is_unsigned_int (FFIType w s) = (\<not> s)"
| "is_unsigned_int (IntegerType w s) = (\<not> s)"
| "is_unsigned_int t = False"

fun is_pointer :: "gtype \<Rightarrow> bool" where
  "is_pointer (PointerType t) = True"
| "is_pointer t = False"

fun is_reference :: "gtype \<Rightarrow> bool" where
  "is_reference (ReferenceType t) = True"
| "is_reference t = False"

fun is_array :: "gtype \<Rightarrow> bool" where
  "is_array (ArrayType t n) = True"
| "is_array t = False"

fun is_dynamic_array :: "gtype \<Rightarrow> bool" where
  "is_dynamic_array (DynamicArrayType t) = True"
| "is_dynamic_array t = False"

fun is_function :: "gtype \<Rightarrow> bool" where
  "is_function (FuncType r ps attrs) = True"
| "is_function t = False"

fun is_enum :: "gtype \<Rightarrow> bool" where
  "is_enum (EnumType n u) = True"
| "is_enum t = False"

text \<open>\<^verbatim>\<open>elem()\<close>: the element type of a pointer, reference or array; the type itself stands
  in where the source would assert.\<close>

fun elem :: "gtype \<Rightarrow> gtype" where
  "elem (PointerType t) = t"
| "elem (ReferenceType t) = t"
| "elem (ArrayType t n) = t"
| "elem (DynamicArrayType t) = t"
| "elem t = t"

fun dimension :: "gtype \<Rightarrow> nat" where
  "dimension (ArrayType t n) = n"
| "dimension t = 0"

fun params :: "gtype \<Rightarrow> gtype list" where
  "params (FuncType r ps attrs) = ps"
| "params t = []"

fun return_type :: "gtype \<Rightarrow> gtype" where
  "return_type (FuncType r ps attrs) = r"
| "return_type t = t"

fun has_attr :: "gtype \<Rightarrow> FuncAttr \<Rightarrow> bool" where
  "has_attr (FuncType r ps attrs) a = (a \<in> set attrs)"
| "has_attr t a = False"

fun strip_pointers_and_references :: "gtype \<Rightarrow> gtype" where
  "strip_pointers_and_references (PointerType t) = strip_pointers_and_references t"
| "strip_pointers_and_references (ReferenceType t) = strip_pointers_and_references t"
| "strip_pointers_and_references t = t"

text \<open>\<^verbatim>\<open>Type::Equal\<close> is structural equality of analysed types.\<close>

definition Equal :: "gtype \<Rightarrow> gtype \<Rightarrow> bool" where
  "Equal a b = (a = b)"

definition VoidPtr :: gtype where
  "VoidPtr = PointerType (BuiltinType BuiltinVoid)"

subsection \<open>Expressions\<close>

text \<open>
  Modelled from the spec: one constructor for each \<^verbatim>\<open>Expr::Kind\<close> that sema.cc
  switches on. Every node carries what section 3 of the spec gives an expression: its
  type, its lvalue flag and its sema state. A declaration carries an identifier that
  stands for its address (a \<^verbatim>\<open>Decl*\<close> is compared by address), and a name reference
  the identifier of its target.
\<close>

datatype CastKind =
  SoftCast | HardCast | ImplicitCast | LValueToRValueConv | LValueToReference | ReferenceToLValue

datatype TokenKind =
    And | Or | LBrack | Star | Slash | Percent | Plus | Minus | Shl | Shr | Ampersand | Pipe
  | Caret | Eq | Ne | Lt | Gt | Le | Ge | ColonEq | At | Tilde | Exclam | Has

datatype IntrinsicKind =
    BuiltinDebugtrap | BuiltinFilename | BuiltinInline | BuiltinLine | BuiltinMemCopy
  | BuiltinMemSet | BuiltinSyscall

record node =
  n_type :: gtype
  n_lvalue :: bool
  n_sema :: sema_state

type_synonym decl_id = nat

datatype expr =
    WhileExpr expr expr node
  | ForExpr expr expr expr expr node
  | ReturnExpr "expr option" node
  | TypeDecl decl_id string node
  | TypeAliasDecl decl_id string node
  | VarDecl decl_id string "expr option" node
  | FuncDecl decl_id string node
  | EnumeratorDecl decl_id string node
  | IntegerLiteral "64 word" node
  | StringLiteral string node
  | OverloadSetExpr "decl_id list" node
  | NameRefExpr string "decl_id option" node
  | ModuleExpr node
  | TypeExpr node
  | SizeofExpr expr node
  | AlignofExpr expr node
  | CastExpr CastKind expr node
  | UnaryExpr TokenKind expr node
  | MemberAccessExpr expr string nat node
  | CompoundLiteral "expr list" node
  | BlockExpr "expr list" node
  | ConstantExpr "expr option" "64 word" node
  | BinaryExpr TokenKind expr expr node
  | IfExpr expr expr "expr option" node
  | CallExpr expr "expr list" node
  | IntrinsicCallExpr IntrinsicKind "expr list" node

fun node_of :: "expr \<Rightarrow> node" where
  "node_of (WhileExpr c b n) = n"
| "node_of (ForExpr i c inc b n) = n"
| "node_of (ReturnExpr v n) = n"
| "node_of (TypeDecl d x n) = n"
| "node_of (TypeAliasDecl d x n) = n"
| "node_of (VarDecl d x i n) = n"
| "node_of (FuncDecl d x n) = n"
| "node_of (EnumeratorDecl d x n) = n"
| "node_of (IntegerLiteral v n) = n"
| "node_of (StringLiteral s n) = n"
| "node_of (OverloadSetExpr os n) = n"
| "node_of (NameRefExpr x t n) = n"
| "node_of (ModuleExpr n) = n"
| "node_of (TypeExpr n) = n"
| "node_of (SizeofExpr e n) = n"
| "node_of (AlignofExpr e n) = n"
| "node_of (CastExpr k e n) = n"
| "node_of (UnaryExpr op e n) = n"
| "node_of (MemberAccessExpr e x i n) = n"
| "node_of (CompoundLiteral vs n) = n"
| "node_of (BlockExpr cs n) = n"
| "node_of (ConstantExpr e v n) = n"
| "node_of (BinaryExpr op l r n) = n"
| "node_of (IfExpr c t e n) = n"
| "node_of (CallExpr c args n) = n"
| "node_of (IntrinsicCallExpr k args n) = n"

definition type_of :: "expr \<Rightarrow> gtype" where
  "type_of e = n_type (node_of e)"

definition is_lvalue :: "expr \<Rightarrow> bool" where
  "is_lvalue e = n_lvalue (node_of e)"

definition sema :: "expr \<Rightarrow> sema_state" where
  "sema e = n_sema (node_of e)"

definition ok :: "expr \<Rightarrow> bool" where
  "ok e = (sema e = Done)"

definition sema_errored :: "expr \<Rightarrow> bool" where
  "sema_errored e = (sema e = Errored)"

text \<open>\<^verbatim>\<open>is<Decl>\<close>, \<^verbatim>\<open>is<BlockExpr>\<close>, \<^verbatim>\<open>is<CallExpr>\<close>, \<^verbatim>\<open>is<NameRefExpr>\<close>.\<close>

fun is_Decl :: "expr \<Rightarrow> bool" where
  "is_Decl (TypeDecl d x n) = True"
| "is_Decl (TypeAliasDecl d x n) = True"
| "is_Decl (VarDecl d x i n) = True"
| "is_Decl (FuncDecl d x n) = True"
| "is_Decl (EnumeratorDecl d x n) = True"
| "is_Decl e = False"

fun is_BlockExpr :: "expr \<Rightarrow> bool" where
  "is_BlockExpr (BlockExpr cs n) = True"
| "is_BlockExpr e = False"

fun is_CallExpr :: "expr \<Rightarrow> bool" where
  "is_CallExpr (CallExpr c args n) = True"
| "is_CallExpr e = False"

text \<open>
  The environment of the analysis that is not among the sources and is taken as a
  parameter: \<^verbatim>\<open>Type::size(context)\<close>, in bits, and \<^verbatim>\<open>Expr::evaluate\<close>, which
  yields the value of a compile-time constant.
\<close>

record Context =
  type_size :: "gtype \<Rightarrow> nat"
  evaluate :: "expr \<Rightarrow> 64 word option"

text \<open>\<^verbatim>\<open>CallExpr::callee_type()\<close>: the function type behind the callee.\<close>

fun callee_type :: "expr \<Rightarrow> gtype" where
  "callee_type (CallExpr c args n) = strip_pointers_and_references (type_of c)"
| "callee_type e = type_of e"

text \<open>
  \<^verbatim>\<open>HasSideEffects\<close>. For \<^verbatim>\<open>__builtin_inline\<close> the source reads \<^verbatim>\<open>c->args()[0]\<close>;
  an intrinsic without arguments counts as having side effects here.
\<close>

fun HasSideEffects :: "expr \<Rightarrow> bool" where
  "HasSideEffects (WhileExpr c b n) = True"
| "HasSideEffects (ForExpr i c inc b n) = True"
| "HasSideEffects (ReturnExpr v n) = True"
| "HasSideEffects (TypeDecl d x n) = True"
| "HasSideEffects (TypeAliasDecl d x n) = True"
| "HasSideEffects (VarDecl d x i n) = True"
| "HasSideEffects (FuncDecl d x n) = True"
| "HasSideEffects (EnumeratorDecl d x n) = True"
| "HasSideEffects (IntegerLiteral v n) = False"
| "HasSideEffects (StringLiteral s n) = False"
| "HasSideEffects (OverloadSetExpr os n) = False"
| "HasSideEffects (NameRefExpr x t n) = False"
| "HasSideEffects (ModuleExpr n) = False"
| "HasSideEffects (TypeExpr n) = False"
| "HasSideEffects (SizeofExpr e n) = False"
| "HasSideEffects (AlignofExpr e n) = False"
| "HasSideEffects (CastExpr k e n) = HasSideEffects e"
| "HasSideEffects (UnaryExpr op e n) = HasSideEffects e"
| "HasSideEffects (MemberAccessExpr e x i n) = HasSideEffects e"
| "HasSideEffects (CompoundLiteral vs n) = (\<exists>v \<in> set vs. HasSideEffects v)"
| "HasSideEffects (BlockExpr cs n) = (\<exists>c \<in> set cs. HasSideEffects c)"
| "HasSideEffects (ConstantExpr e v n) =
     (case e of None \<Rightarrow> False | Some e' \<Rightarrow> HasSideEffects e')"
| "HasSideEffects (BinaryExpr op l r n) =
     (if HasSideEffects l \<or> HasSideEffects r then True else op = ColonEq)"
| "HasSideEffects (IfExpr c t e n) =
     (if HasSideEffects c then True
      else if HasSideEffects t then True
      else (case e of None \<Rightarrow> False | Some e' \<Rightarrow> HasSideEffects e'))"
| "HasSideEffects (CallExpr c args n) =
     (if HasSideEffects c then True
      else if (\<exists>a \<in> set args. HasSideEffects a) then True
      else if is_function (strip_pointers_and_references (type_of c)) then
        \<not> has_attr (strip_pointers_and_references (type_of c)) Pure \<and>
        \<not> has_attr (strip_pointers_and_references (type_of c)) Const
      else False)"
| "HasSideEffects (IntrinsicCallExpr k args n) =
     (case k of
        BuiltinDebugtrap \<Rightarrow> True
      | BuiltinMemCopy \<Rightarrow> True
      | BuiltinMemSet \<Rightarrow> True
      | BuiltinSyscall \<Rightarrow> True
      | BuiltinFilename \<Rightarrow> False
      | BuiltinLine \<Rightarrow> False
      | BuiltinInline \<Rightarrow>
          if n_sema n = Errored then True
          else (case args of [] \<Rightarrow> True | a # _ \<Rightarrow> HasSideEffects a))"

subsection \<open>The conversion engine: \<^verbatim>\<open>ConvertImpl\<close>, \<^verbatim>\<open>Convert\<close>, \<^verbatim>\<open>TryConvert\<close>\<close>

text \<open>
  \<^verbatim>\<open>WrapWithCast\<close> builds a cast node and analyses it. It is only called with the four
  kinds of cast that sema itself creates, for which \<^verbatim>\<open>AnalyseCast\<close> sets the lvalue flag
  to \<^verbatim>\<open>is_ref_to_lvalue()\<close> and returns, so that the node ends up done.
\<close>

definition WrapWithCast :: "expr \<Rightarrow> gtype \<Rightarrow> CastKind \<Rightarrow> expr" where
  "WrapWithCast e t kind =
     CastExpr kind e \<lparr>n_type = t, n_lvalue = (kind = ReferenceToLValue), n_sema = Done\<rparr>"

definition InsertImplicitCast :: "expr \<Rightarrow> gtype \<Rightarrow> expr" where
  "InsertImplicitCast e t = WrapWithCast e t ImplicitCast"

text \<open>
  The first block of \<^verbatim>\<open>LValueToRValue\<close>: a member access whose type is a sum type
  takes the type of the member it accesses and is finalised to index 1. The member index
  was found in the member list when the access was analysed; outside the list, where
  \<^verbatim>\<open>members().at(mindex)\<close> would throw, the node is left as it is.
\<close>

fun sum_member_access :: "expr \<Rightarrow> expr" where
  "sum_member_access (MemberAccessExpr obj x mindex n) =
     (case n_type n of
        SumType s members \<Rightarrow>
          if mindex < length members
          then MemberAccessExpr obj x 1 (n\<lparr>n_type := snd (members ! mindex)\<rparr>)
          else MemberAccessExpr obj x mindex n
      | _ \<Rightarrow> MemberAccessExpr obj x mindex n)"
| "sum_member_access e = e"

function LValueToRValue :: "expr \<Rightarrow> bool \<Rightarrow> expr" where
  "LValueToRValue e strip_ref =
     (if sema_errored e then e
      else
        let e1 = sum_member_access e;
            e2 = (if is_lvalue e1 then WrapWithCast e1 (type_of e1) LValueToRValueConv else e1)
        in if strip_ref \<and> is_reference (type_of e2)
           then LValueToRValue (WrapWithCast e2 (elem (type_of e2)) ReferenceToLValue) True
           else e2)"
  by pat_completeness auto
termination
proof (relation "measure (\<lambda>(e, s). size (type_of (sum_member_access e)))")
  show "wf (measure (\<lambda>(e, s). size (type_of (sum_member_access e))))" by simp
next
  fix e :: expr and strip_ref :: bool and x xa
  assume x: "x = sum_member_access e"
    and xa: "xa = (if is_lvalue x then WrapWithCast x (type_of x) LValueToRValueConv else x)"
    and r: "strip_ref \<and> is_reference (type_of xa)"
  have t: "type_of xa = type_of x"
    using xa by (simp add: WrapWithCast_def type_of_def)
  from r t obtain u where u: "type_of x = ReferenceType u"
    by (cases "type_of x") simp_all
  have "type_of (sum_member_access (WrapWithCast xa (elem (type_of xa)) ReferenceToLValue)) = u"
    by (simp add: WrapWithCast_def type_of_def t [unfolded type_of_def] u [unfolded type_of_def])
  then show "((WrapWithCast xa (elem (type_of xa)) ReferenceToLValue, True), e, strip_ref)
      \<in> measure (\<lambda>(e, s). size (type_of (sum_member_access e)))"
    using x u by simp
qed

declare LValueToRValue.simps [simp del]

text \<open>
  The call that \<^verbatim>\<open>Deproceduring\<close> inserts is analysed at once. For a callee that is
  already analysed, is of function type or pointer to function type, takes no parameters
  and is not the name of a builtin, \<^verbatim>\<open>AnalyseCall\<close> dereferences a function pointer with
  an implicit cast, gives the call the return type of the function and finds the number of
  arguments right; no diagnostic is emitted and the call ends up done.
\<close>

definition analyse_inserted_call :: "expr \<Rightarrow> expr" where
  "analyse_inserted_call callee =
     (let callee' = (if is_pointer (type_of callee) \<and> is_function (elem (type_of callee))
                     then InsertImplicitCast callee (elem (type_of callee)) else callee)
      in CallExpr callee' []
           \<lparr>n_type = return_type (type_of callee'), n_lvalue = False, n_sema = Done\<rparr>)"

text \<open>\<^verbatim>\<open>Deproceduring\<close> returns whether it applied, and the content of the slot.\<close>

definition Deproceduring :: "expr \<Rightarrow> bool \<times> expr" where
  "Deproceduring e =
     (let ty = type_of e in
      if \<not> is_function ty \<and> (\<not> is_pointer ty \<or> \<not> is_function (elem ty)) then (False, e)
      else if is_Decl e then (False, e)
      else if is_BlockExpr e then (False, e)
      else if params (if is_function ty then ty else elem ty) \<noteq> [] then (False, e)
      else (True, analyse_inserted_call e))"

text \<open>
  Modelled from the spec: \<^verbatim>\<open>utils::MaxBitValue\<close> is declared in lcc/utils.hh, which is
  not among the sources; the spec gives the bound \<open>2^width - 1\<close>.
\<close>

definition MaxBitValue :: "nat \<Rightarrow> 64 word" where
  "MaxBitValue bits = word_of_nat (2 ^ bits - 1)"

definition TypesContainErrors :: int where "TypesContainErrors = - 2"
definition ConversionImpossible :: int where "ConversionImpossible = - 1"
definition NoOp :: int where "NoOp = 0"

text \<open>
  \<^verbatim>\<open>ConvertImpl<PerformConversion>\<close> returns the score together with the content of the
  expression slot. \<open>from\<close> of the source is \<^verbatim>\<open>(*expr_ptr)->type()\<close>, read afresh at
  each use; \<open>Score i\<close> is \<open>i + score\<close>. The rules from the integer conversions on:
\<close>

definition ConvertImpl_integers :: "Context \<Rightarrow> bool \<Rightarrow> int \<Rightarrow> expr \<Rightarrow> gtype \<Rightarrow> int \<times> expr" where
  "ConvertImpl_integers ctx perform score e to =
     (if is_integer False (type_of e) \<and> is_integer False to then
        (case evaluate ctx e of
           Some val \<Rightarrow>
             if sint val < 0 \<and> is_unsigned_int to then (ConversionImpossible, e)
             else
               let bits = type_size ctx to in
               if is_unsigned_int (type_of e) \<and> bits < 64 \<and> val > MaxBitValue bits
               then (ConversionImpossible, e)
               else (1 + score,
                     if perform then
                       (let c = InsertImplicitCast e to in
                        ConstantExpr (Some c) val
                          \<lparr>n_type = type_of c, n_lvalue = False, n_sema = Done\<rparr>)
                     else e)
         | None \<Rightarrow>
             if type_size ctx (type_of e) \<le> type_size ctx to
             then (1 + score, if perform then InsertImplicitCast e to else e)
             else (ConversionImpossible, e))
      else
        (case Deproceduring e of
           (True, e') \<Rightarrow> (1 + score, e')
         | (False, _) \<Rightarrow> (ConversionImpossible, e)))"

text \<open>The rules after the first attempt at deproceduring:\<close>

definition ConvertImpl_rvalue :: "Context \<Rightarrow> bool \<Rightarrow> int \<Rightarrow> expr \<Rightarrow> gtype \<Rightarrow> int \<times> expr" where
  "ConvertImpl_rvalue ctx perform score e to =
     (if Equal (type_of e) to then (NoOp, e)
      else if is_pointer (type_of e) \<and> is_pointer to \<and>
              is_array (elem (type_of e)) \<and> Equal (elem (elem (type_of e))) (elem to)
      then (1 + score, if perform then InsertImplicitCast e to else e)
      else if is_pointer (type_of e) \<and> is_pointer to \<and> Equal to VoidPtr
      then (1 + score, if perform then InsertImplicitCast e to else e)
      else if is_array (type_of e) \<and> is_array to then
        (if dimension (type_of e) > dimension to then (ConversionImpossible, e)
         else (1 + score, if perform then InsertImplicitCast e to else e))
      else if is_function (type_of e) \<and> is_pointer to \<and> Equal (elem to) (type_of e)
      then (NoOp, if perform then InsertImplicitCast e to else e)
      else if (is_integer False (type_of e) \<and> is_bool to) \<or>
              (is_bool (type_of e) \<and> is_integer False to)
      then (1 + score, if perform then InsertImplicitCast e to else e)
      else ConvertImpl_integers ctx perform score e to)"

definition ConvertImpl :: "Context \<Rightarrow> bool \<Rightarrow> expr \<Rightarrow> gtype \<Rightarrow> int \<times> expr" where
  "ConvertImpl ctx perform e to =
     (if type_sema_errored (type_of e) \<or> type_sema_errored to then (TypesContainErrors, e)
      else if is_void to then (NoOp, e)
      else if Equal (type_of e) to then (NoOp, e)
      else if is_reference to \<and> Equal (type_of e) (elem to) then
        (if is_lvalue e
         then (NoOp, if perform then WrapWithCast e to LValueToReference else e)
         else (ConversionImpossible, e))
      else
        let score = (if is_lvalue e then 1 else 0);
            e1 = (if perform then LValueToRValue e False else e)
        in
        if is_reference (type_of e1) \<and> is_reference to then
          (if Equal (type_of e1) to then (NoOp, e1)
           else if is_array (elem (type_of e1)) \<and> Equal (elem (elem (type_of e1))) (elem to)
           then (1 + score, if perform then InsertImplicitCast e1 to else e1)
           else (ConversionImpossible, e1))
        else
          let score' = (if is_reference (type_of e1) then score + 1 else score);
              e2 = (if is_reference (type_of e1) \<and> perform then LValueToRValue e1 True else e1)
          in
          if is_function (type_of e2) \<and> is_pointer to \<and> Equal (elem to) (type_of e2)
          then (NoOp, if perform then InsertImplicitCast e2 to else e2)
          else
            (case Deproceduring e2 of
               (True, e3) \<Rightarrow> (1 + score', e3)
             | (False, _) \<Rightarrow> ConvertImpl_rvalue ctx perform score' e2 to))"

definition Convert :: "Context \<Rightarrow> expr \<Rightarrow> gtype \<Rightarrow> bool \<times> expr" where
  "Convert ctx e t =
     (if sema_errored e then (True, e)
      else case ConvertImpl ctx True e t of (score, e') \<Rightarrow> (score \<ge> 0, e'))"

definition TryConvert :: "Context \<Rightarrow> expr \<Rightarrow> gtype \<Rightarrow> int \<times> expr" where
  "TryConvert ctx e t = ConvertImpl ctx False e t"

subsection \<open>Explicit casts: \<^verbatim>\<open>AnalyseCast\<close>\<close>

text \<open>
  The cast is given by its kind, its operand and its own node; the result is the cast
  node and the diagnostics emitted. The operand is given in the state in which
  \<^verbatim>\<open>Analyse(&c->operand(), c->type())\<close> leaves it, so that the call amounts to
  \<^verbatim>\<open>c->operand()->ok()\<close>. \<open>hard_cast_only\<close> is the lambda \<^verbatim>\<open>HardCast\<close>.
\<close>

definition hard_cast_only :: "CastKind \<Rightarrow> diag list" where
  "hard_cast_only kind =
     (if kind \<noteq> HardCast then [Error ''Cast is unsafe. If this is intended, use as! instead'']
      else [])"

definition AnalyseCast :: "Context \<Rightarrow> CastKind \<Rightarrow> expr \<Rightarrow> node \<Rightarrow> expr \<times> diag list" where
  "AnalyseCast ctx kind operand n =
     (if kind = ImplicitCast \<or> kind = LValueToRValueConv \<or> kind = LValueToReference
         \<or> kind = ReferenceToLValue
      then (CastExpr kind operand (n\<lparr>n_lvalue := (kind = ReferenceToLValue)\<rparr>), [])
      else if \<not> ok operand then (CastExpr kind operand n, [])
      else
        (case Convert ctx operand (n_type n) of
           (True, operand') \<Rightarrow> (CastExpr kind operand' n, [])
         | (False, operand') \<Rightarrow>
             (CastExpr kind operand' n,
              let from = type_of operand'; to = n_type n in
              if is_reference to then [Error ''Invalid cast of rvalue to reference type'']
              else if (is_integer True from \<or> is_enum from) \<and> is_integer True to then []
              else if is_pointer from \<and> is_integer True to then []
              else if is_integer True from \<and> is_enum to then hard_cast_only kind
              else if is_pointer to \<and> (is_integer False from \<or> is_pointer from)
              then hard_cast_only kind
              else if type_size ctx from = type_size ctx to \<and> kind = HardCast then []
              else [Error ''Invalid cast''])))"

subsection \<open>Discarding values: \<^verbatim>\<open>Discard\<close> and the block case of \<^verbatim>\<open>Analyse\<close>\<close>

text \<open>\<^verbatim>\<open>Discard\<close> returns the content of the slot and the diagnostics it emits.\<close>

definition Discard :: "expr \<Rightarrow> expr \<times> diag list" where
  "Discard e =
     (if \<not> ok e \<or> is_void (type_of e) then (e, [])
      else
        let ds = (if is_CallExpr e \<and> \<not> has_attr (callee_type e) Discardable
                  then [Error ''Discarding return value of function not marked as discardable'']
                  else [])
        in case Deproceduring e of
             (True, e') \<Rightarrow> (e', ds)
           | (False, _) \<Rightarrow>
               (e, ds @ (if \<not> HasSideEffects e then [Warning ''Expression result unused'']
                         else [])))"

text \<open>
  The loop over the children of a non-empty block. Each child is given in the state in
  which \<^verbatim>\<open>Analyse(&child, ...)\<close> leaves it; the child is the last one when no sibling
  follows. The result is the children, whether the block has been marked errored, and
  the diagnostics of the \<^verbatim>\<open>Discard\<close> calls.
\<close>

fun analyse_children :: "expr list \<Rightarrow> expr list \<times> bool \<times> diag list" where
  "analyse_children [] = ([], False, [])"
| "analyse_children (child # rest) =
     (let last = (rest = []);
          (child', ds) = (if \<not> last \<and> ok child then Discard child else (child, []))
      in case analyse_children rest of
           (rest', errored, ds') \<Rightarrow> (child' # rest', \<not> ok child \<or> errored, ds @ ds'))"

definition AnalyseBlock :: "expr list \<Rightarrow> node \<Rightarrow> expr \<times> diag list" where
  "AnalyseBlock children n =
     (if children = [] then (BlockExpr [] (n\<lparr>n_type := BuiltinType BuiltinVoid\<rparr>), [])
      else
        case analyse_children children of
          (children', errored, ds) \<Rightarrow>
            (if errored then BlockExpr children' (n\<lparr>n_sema := Errored\<rparr>)
             else BlockExpr children'
                    (n\<lparr>n_lvalue := is_lvalue (last children'),
                       n_type := type_of (last children')\<rparr>),
             ds))"

subsection \<open>The state of the analyser\<close>

text \<open>
  The part of the state that the remaining functions read and write: the dangling set of
  the current function (\<^verbatim>\<open>curr_func->dangling_dynarrays()\<close>, a vector of declarations),
  the diagnostics emitted so far, and the error flag of the context.

  Modelled from the spec: \<^verbatim>\<open>Sema::Error\<close> is declared in glint/sema.hh and the
  diagnostic is issued in diags.cc, neither of which is among the sources. According to
  section 7 of the spec every user error sets the error flag of the context.
\<close>

record Sema =
  dangling_dynarrays :: "decl_id list"
  diags :: "diag list"
  error_flag :: bool

definition emit_Error :: "string \<Rightarrow> Sema \<Rightarrow> Sema" where
  "emit_Error msg st = st\<lparr>diags := diags st @ [Error msg], error_flag := True\<rparr>"

definition emit_Note :: "string \<Rightarrow> Sema \<Rightarrow> Sema" where
  "emit_Note msg st = st\<lparr>diags := diags st @ [Note msg]\<rparr>"

text \<open>\<^verbatim>\<open>std::erase(curr_func->dangling_dynarrays(), target)\<close>.\<close>

definition erase_dangling :: "decl_id \<Rightarrow> Sema \<Rightarrow> Sema" where
  "erase_dangling target st = st\<lparr>dangling_dynarrays := removeAll target (dangling_dynarrays st)\<rparr>"

subsection \<open>Return expressions: \<^verbatim>\<open>Analyse\<close>, case \<^verbatim>\<open>Expr::Kind::Return\<close>\<close>

text \<open>
  A dereference of a null pointer and a failed \<^verbatim>\<open>LCC_ASSERT\<close> end the analysis; they
  are results of their own. The
  operand, when there is one, is given in the state in which
  \<^verbatim>\<open>Analyse(&r->value(), ret_type)\<close> leaves it. The line
  \<^verbatim>\<open>if (r->value()->type()->is_dynamic_array())\<close> reads the operand whether or not
  there is one.
\<close>

datatype fault = NullPointerDereference | AssertionFailure

text \<open>The target of \<^verbatim>\<open>cast<NameRefExpr>(r->value())\<close>, when the cast succeeds.\<close>

fun nameref_target :: "expr \<Rightarrow> decl_id option" where
  "nameref_target (NameRefExpr x t n) = t"
| "nameref_target e = None"

definition AnalyseReturn ::
  "Context \<Rightarrow> gtype \<Rightarrow> expr option \<Rightarrow> node \<Rightarrow> Sema \<Rightarrow> fault + expr \<times> Sema" where
  "AnalyseReturn ctx ret_type value n st =
     (case value of
        None \<Rightarrow> Inl NullPointerDereference
      | Some v \<Rightarrow>
          let st1 = (if is_dynamic_array (type_of v) then
                       (case nameref_target v of
                          Some target \<Rightarrow> erase_dangling target st
                        | None \<Rightarrow> st)
                     else st)
          in if is_void ret_type then
               Inr (ReturnExpr (Some v) n,
                    if ok v \<and> \<not> is_void (type_of v)
                    then emit_Error ''Function returning void must not return a value'' st1
                    else st1)
             else
               (case Convert ctx v ret_type of
                  (converted, v') \<Rightarrow>
                    Inr (ReturnExpr (Some (LValueToRValue v' True)) n,
                         if \<not> converted
                         then emit_Error
                                ''Type of return expression is not convertible to return type'' st1
                         else st1)))"

subsection \<open>The dangling-array tracker\<close>

text \<open>\<^verbatim>\<open>DeclTypeDecay\<close>; \<^verbatim>\<open>Ptr\<close> builds and analyses the pointer type.\<close>

definition DeclTypeDecay :: "gtype \<Rightarrow> gtype" where
  "DeclTypeDecay t = (if is_function t then PointerType t else t)"

text \<open>
  The case \<^verbatim>\<open>Expr::Kind::VarDecl\<close> of \<^verbatim>\<open>Analyse\<close>, for the declaration \<open>d\<close> with
  name \<open>x\<close>. The initialiser, when there is one, is given in the state in which
  \<^verbatim>\<open>Analyse(&v->init(), ...)\<close> leaves it.
\<close>

definition AnalyseVarDecl ::
  "Context \<Rightarrow> decl_id \<Rightarrow> string \<Rightarrow> expr option \<Rightarrow> node \<Rightarrow> Sema \<Rightarrow> expr \<times> Sema" where
  "AnalyseVarDecl ctx d x init n st =
     (case init of
        None \<Rightarrow>
          let ty = DeclTypeDecay (n_type n);
              st' = (if is_dynamic_array ty
                     then st\<lparr>dangling_dynarrays := dangling_dynarrays st @ [d]\<rparr> else st)
          in (VarDecl d x None (n\<lparr>n_type := ty, n_lvalue := True\<rparr>), st')
      | Some i \<Rightarrow>
          let infer_type = is_unknown (n_type n) in
          if infer_type \<and> \<not> ok i then (VarDecl d x (Some i) (n\<lparr>n_sema := Errored\<rparr>), st)
          else
            let ty = DeclTypeDecay (if infer_type then type_of i else n_type n) in
            case Convert ctx i ty of
              (converted, i') \<Rightarrow>
                let st1 = (if \<not> converted
                           then emit_Error
                                  ''Type of initialiser is not convertible to variable type'' st
                           else st);
                    st2 = (if is_dynamic_array ty
                           then st1\<lparr>dangling_dynarrays := dangling_dynarrays st1 @ [d]\<rparr>
                           else st1)
                in (VarDecl d x (Some (LValueToRValue i' True))
                      (n\<lparr>n_type := ty, n_lvalue := True\<rparr>), st2))"

text \<open>
  \<^verbatim>\<open>AnalyseUnary\<close> for the prefix operator \<^verbatim>\<open>TokenKind::Minus\<close>. The operand is given
  in the state in which \<^verbatim>\<open>Analyse(&u->operand())\<close> leaves it. Freeing marks the target
  declaration as no longer viable; the states of declarations are not part of this state.
\<close>

definition AnalyseUnaryMinus :: "expr \<Rightarrow> node \<Rightarrow> Sema \<Rightarrow> fault + expr \<times> Sema" where
  "AnalyseUnaryMinus operand n st =
     (if \<not> ok operand then Inr (UnaryExpr Minus operand (n\<lparr>n_sema := Errored\<rparr>), st)
      else if is_dynamic_array (type_of operand) then
        (case operand of
           NameRefExpr x target nn \<Rightarrow>
             (case target of
                None \<Rightarrow> Inl NullPointerDereference
              | Some t \<Rightarrow>
                  Inr (UnaryExpr Minus operand (n\<lparr>n_type := BuiltinType BuiltinVoid\<rparr>),
                       erase_dangling t st))
         | _ \<Rightarrow> Inl AssertionFailure)
      else
        let operand' = LValueToRValue operand True; ty = type_of operand' in
        if \<not> is_integer False ty
        then Inr (UnaryExpr Minus operand' (n\<lparr>n_sema := Errored\<rparr>),
                  emit_Error ''Operand of unary prefix operator - must be an integer type'' st)
        else Inr (UnaryExpr Minus operand' (n\<lparr>n_type := ty\<rparr>), st))"

text \<open>
  The analysis of a function body visits the nodes of the body depth first. What it does
  to the state above is the sequence of the following steps, in the order of the visit:
  the three cases that touch the dangling set, and any other step, given by the
  diagnostics it emits.
\<close>

datatype body_step =
    StepVarDecl decl_id string "expr option" node
  | StepUnaryMinus expr node
  | StepReturn "expr option" node
  | StepOther "diag list"

fun emit_all :: "diag list \<Rightarrow> Sema \<Rightarrow> Sema" where
  "emit_all [] st = st"
| "emit_all (Error m # ds) st = emit_all ds (emit_Error m st)"
| "emit_all (d # ds) st = emit_all ds (st\<lparr>diags := diags st @ [d]\<rparr>)"

fun analyse_step :: "Context \<Rightarrow> gtype \<Rightarrow> body_step \<Rightarrow> Sema \<Rightarrow> fault + Sema" where
  "analyse_step ctx ret_type (StepVarDecl d x init n) st =
     Inr (snd (AnalyseVarDecl ctx d x init n st))"
| "analyse_step ctx ret_type (StepUnaryMinus operand n) st =
     (case AnalyseUnaryMinus operand n st of Inl f \<Rightarrow> Inl f | Inr (e, st') \<Rightarrow> Inr st')"
| "analyse_step ctx ret_type (StepReturn v n) st =
     (case AnalyseReturn ctx ret_type v n st of Inl f \<Rightarrow> Inl f | Inr (e, st') \<Rightarrow> Inr st')"
| "analyse_step ctx ret_type (StepOther ds) st = Inr (emit_all ds st)"

fun analyse_steps :: "Context \<Rightarrow> gtype \<Rightarrow> body_step list \<Rightarrow> Sema \<Rightarrow> fault + Sema" where
  "analyse_steps ctx ret_type [] st = Inr st"
| "analyse_steps ctx ret_type (s # ss) st =
     (case analyse_step ctx ret_type s st of
        Inl f \<Rightarrow> Inl f
      | Inr st' \<Rightarrow> analyse_steps ctx ret_type ss st')"

text \<open>
  A parameter of \<^verbatim>\<open>AnalyseFunctionBody\<close> is given by its name and type, the
  identifier of the \<^verbatim>\<open>VarDecl\<close> created for it, and whether
  \<^verbatim>\<open>decl->scope()->find(param.name)\<close> finds a declaration.
\<close>

record param =
  p_name :: string
  p_type :: gtype
  p_decl :: decl_id
  p_conflict :: bool

fun declare_params :: "Context \<Rightarrow> param list \<Rightarrow> Sema \<Rightarrow> Sema" where
  "declare_params ctx [] st = st"
| "declare_params ctx (p # ps) st =
     (if p_name p = [] then declare_params ctx ps st
      else if p_conflict p then
        declare_params ctx ps
          (emit_Note ''Parameter declared here''
             (emit_Error ''Declaration conflicts with parameter name'' st))
      else
        declare_params ctx ps
          (snd (AnalyseVarDecl ctx (p_decl p) (p_name p) None
                  \<lparr>n_type = p_type p, n_lvalue = False, n_sema = InProgress\<rparr> st)))"

fun report_dangling :: "decl_id list \<Rightarrow> Sema \<Rightarrow> Sema" where
  "report_dangling [] st = st"
| "report_dangling (dynarray # rest) st =
     report_dangling rest (emit_Error ''You forgot to free this dynamic array'' st)"

text \<open>
  Modelled from the spec: the constructors of \<^verbatim>\<open>ReturnExpr\<close> and
  \<^verbatim>\<open>IntegerLiteral\<close> are in glint/ast.hh, which is not among the sources. According
  to section 3 of the spec a node that has not been through \<^verbatim>\<open>Analyse\<close> is in the
  state \<open>NotAnalysed\<close>; the expressions that \<^verbatim>\<open>AnalyseFunctionBody\<close> creates are not
  analysed. No result below depends on the type given to them here.
\<close>

definition new_ReturnExpr :: "expr option \<Rightarrow> expr" where
  "new_ReturnExpr v =
     ReturnExpr v \<lparr>n_type = BuiltinType BuiltinVoid, n_lvalue = False, n_sema = NotAnalysed\<rparr>"

definition new_IntegerLiteral :: "64 word \<Rightarrow> expr" where
  "new_IntegerLiteral v =
     IntegerLiteral v \<lparr>n_type = BuiltinType BuiltinInt, n_lvalue = False, n_sema = NotAnalysed\<rparr>"

fun is_ReturnExpr :: "expr \<Rightarrow> bool" where
  "is_ReturnExpr (ReturnExpr v n) = True"
| "is_ReturnExpr e = False"

text \<open>
  The end of \<^verbatim>\<open>AnalyseFunctionBody\<close> for a return type that is not void, from
  \<^verbatim>\<open>if (is<ReturnExpr>(*last)) return;\<close> on: the content of the slot \<open>last\<close> and the
  state. The placeholders of a message are left out.
\<close>

definition return_last :: "Context \<Rightarrow> gtype \<Rightarrow> expr \<Rightarrow> Sema \<Rightarrow> expr \<times> Sema" where
  "return_last ctx ret_type last_expr st =
     (if is_ReturnExpr last_expr then (last_expr, st)
      else
        case Convert ctx last_expr ret_type of
          (converted, last') \<Rightarrow>
            if \<not> converted
            then (last',
                  (emit_Error
                     ''Type of last expression is not convertible to return type'' st)
                    \<lparr>error_flag := True\<rparr>)
            else (new_ReturnExpr (Some (LValueToRValue last' True)), st))"

text \<open>
  What \<^verbatim>\<open>AnalyseFunctionBody\<close> does after the loop that reports the leftover dynamic
  arrays, for the function \<open>name\<close> and the body in the state in which
  \<^verbatim>\<open>Analyse(&decl->body(), ty->return_type())\<close> leaves it: the body and the state.
\<close>

definition finish_body :: "Context \<Rightarrow> string \<Rightarrow> gtype \<Rightarrow> expr \<Rightarrow> Sema \<Rightarrow> expr \<times> Sema" where
  "finish_body ctx name ret_type body st =
     (if \<not> is_void ret_type then
        (case body of
           BlockExpr children n \<Rightarrow>
             if children = [] then
               (if name \<noteq> ''main''
                then (body,
                      emit_Error
                        ''Function has non-void return type, and must return a value'' st)
                else (BlockExpr [new_ReturnExpr (Some (new_IntegerLiteral 0))] n, st))
             else
               (case return_last ctx ret_type (last children) st of
                  (l, st') \<Rightarrow> (BlockExpr (butlast children @ [l]) n, st'))
         | _ \<Rightarrow> return_last ctx ret_type body st)
      else
        let body' =
              (case body of
                 BlockExpr children n \<Rightarrow>
                   if children = [] \<or> \<not> is_ReturnExpr (last children)
                   then BlockExpr (children @ [new_ReturnExpr None]) n
                   else body
               | _ \<Rightarrow> body)
        in case Discard body' of (b, ds) \<Rightarrow> (b, emit_all ds st))"

text \<open>
  \<^verbatim>\<open>AnalyseFunctionBody\<close> for the function \<open>name\<close> with the parameters \<open>ps\<close> and the
  return type \<open>ret_type\<close>. The body, when there is one, is given in the state in which
  \<^verbatim>\<open>Analyse(&decl->body(), ty->return_type())\<close> leaves it, together with the steps
  of that analysis. The result is the body and the state of the analyser when the
  function returns.
\<close>

definition AnalyseFunctionBody ::
  "Context \<Rightarrow> string \<Rightarrow> param list \<Rightarrow> gtype \<Rightarrow> body_step list \<Rightarrow> expr option \<Rightarrow> Sema \<Rightarrow>
     fault + expr option \<times> Sema" where
  "AnalyseFunctionBody ctx name ps ret_type steps body st =
     (case body of
        None \<Rightarrow> Inr (None, st)
      | Some b \<Rightarrow>
          let st1 = declare_params ctx ps st;
              st2 = st1\<lparr>dangling_dynarrays := []\<rparr>
          in case analyse_steps ctx ret_type steps st2 of
               Inl f \<Rightarrow> Inl f
             | Inr st3 \<Rightarrow>
                 if error_flag st3 then Inr (Some b, st3)
                 else
                   (case finish_body ctx name ret_type b
                           (report_dangling (dangling_dynarrays st3) st3) of
                      (b', st') \<Rightarrow> Inr (Some b', st')))"

text \<open>
  The tracker in the spec's words, to compare the code with: the declaration that a step
  adds to the dangling set (a variable whose declared, or inferred, type is a dynamic
  array), and whether a step removes a declaration (a free by unary minus, or a return,
  of a name reference of dynamic-array type to it).
\<close>

fun step_declares :: "body_step \<Rightarrow> decl_id option" where
  "step_declares (StepVarDecl d x init n) =
     (case init of
        None \<Rightarrow> if is_dynamic_array (DeclTypeDecay (n_type n)) then Some d else None
      | Some i \<Rightarrow>
          if is_unknown (n_type n) then
            (if ok i \<and> is_dynamic_array (DeclTypeDecay (type_of i)) then Some d else None)
          else if is_dynamic_array (DeclTypeDecay (n_type n)) then Some d else None)"
| "step_declares s = None"

fun step_removes :: "body_step \<Rightarrow> decl_id \<Rightarrow> bool" where
  "step_removes (StepUnaryMinus operand n) d =
     (ok operand \<and> is_dynamic_array (type_of operand) \<and> nameref_target operand = Some d)"
| "step_removes (StepReturn v n) d =
     (case v of
        None \<Rightarrow> False
      | Some e \<Rightarrow> is_dynamic_array (type_of e) \<and> nameref_target e = Some d)"
| "step_removes s d = False"

text \<open>
  The declarations that a sequence of steps leaves in the dangling set: those declared by
  some step and removed by no later one.
\<close>

definition leftover :: "body_step list \<Rightarrow> decl_id set" where
  "leftover steps =
     {d. \<exists>pre s post. steps = pre @ s # post \<and> step_declares s = Some d \<and>
                       (\<forall>x \<in> set post. \<not> step_removes x d)}"

text \<open>
  The slot that \<^verbatim>\<open>AnalyseFunctionBody\<close> turns into a return expression: the last
  child of a body that is a block, and the body otherwise. A function returns a dynamic
  array implicitly when its return type is not void and that slot holds a name reference
  of dynamic-array type.
\<close>

fun last_slot :: "expr \<Rightarrow> expr option" where
  "last_slot (BlockExpr children n) = (if children = [] then None else Some (last children))"
| "last_slot e = Some e"

definition returns_dynarray_implicitly :: "gtype \<Rightarrow> expr \<Rightarrow> bool" where
  "returns_dynarray_implicitly ret_type body =
     (\<not> is_void ret_type \<and>
      (case last_slot body of
         None \<Rightarrow> False
       | Some e \<Rightarrow> is_dynamic_array (type_of e) \<and> nameref_target e \<noteq> None))"

subsection \<open>Struct layout: \<^verbatim>\<open>Analyse(Type**)\<close>, case \<^verbatim>\<open>Type::Kind::Struct\<close>\<close>

text \<open>
  A member as the struct case sees it after \<^verbatim>\<open>Analyse(&member.type)\<close> and decltype
  decay: whether its type is errored, and the type's size and alignment in bits
  (\<^verbatim>\<open>member.type->size(context)\<close>, \<^verbatim>\<open>member.type->align(context)\<close>). Sizes,
  alignments and offsets are of the type \<^verbatim>\<open>usz\<close>, an unsigned integer of 64 bits, whose
  arithmetic wraps around.
\<close>

type_synonym usz = "64 word"

record member =
  m_name :: string
  m_type_errored :: bool
  m_size_bits :: usz
  m_align_bits :: usz

text \<open>
  Modelled from the spec: \<^verbatim>\<open>utils::AlignTo\<close> is declared in lcc/utils.hh, which is
  not among the sources. The spec calls it aligning a size up to an alignment: the
  value plus the padding that makes it a multiple of the alignment, here in the
  arithmetic of \<^verbatim>\<open>usz\<close>, where the sum wraps around. For an alignment of 0 there is no
  such padding, and the remainder is a division by zero: there is no result.
\<close>

definition AlignTo :: "usz \<Rightarrow> usz \<Rightarrow> usz option" where
  "AlignTo v align =
     (if align = 0 then None else Some (v + (align - v mod align) mod align))"

text \<open>\<^verbatim>\<open>auto msize = member.type->size(context) / 8\<close> and
  \<^verbatim>\<open>auto malign = member.type->align(context) / 8\<close>.\<close>

definition msize :: "member \<Rightarrow> usz" where
  "msize m = m_size_bits m div 8"

definition malign :: "member \<Rightarrow> usz" where
  "malign m = m_align_bits m div 8"

text \<open>
  The loop over the members, with the local variables \<open>byte_size\<close> and
  \<open>alignment\<close> and the errored flag of the struct as accumulators. An errored member
  is skipped (\<^verbatim>\<open>continue\<close>) and keeps no computed offset. The result is \<open>None\<close> when
  \<^verbatim>\<open>utils::AlignTo\<close> has no result.
\<close>

fun layout_members ::
  "member list \<Rightarrow> usz \<Rightarrow> usz \<Rightarrow> bool \<Rightarrow> (usz option list \<times> usz \<times> usz \<times> bool) option" where
  "layout_members [] byte_size alignment errored = Some ([], byte_size, alignment, errored)"
| "layout_members (m # ms) byte_size alignment errored =
     (if m_type_errored m then
        (case layout_members ms byte_size alignment True of
           None \<Rightarrow> None
         | Some (offsets, r) \<Rightarrow> Some (None # offsets, r))
      else
        (case AlignTo byte_size (malign m) of
           None \<Rightarrow> None
         | Some byte_offset \<Rightarrow>
             (case layout_members ms (byte_offset + msize m) (max alignment (malign m))
                     errored of
                None \<Rightarrow> None
              | Some (offsets, r) \<Rightarrow> Some (Some byte_offset # offsets, r))))"

record struct_layout =
  sl_offsets :: "usz option list"
  sl_alignment :: usz
  sl_byte_size :: usz
  sl_errored :: bool

definition analyse_struct :: "member list \<Rightarrow> struct_layout option" where
  "analyse_struct members =
     (case layout_members members 0 1 False of
        None \<Rightarrow> None
      | Some (offsets, byte_size, alignment, errored) \<Rightarrow>
          if byte_size \<noteq> 0 then
            (case AlignTo byte_size alignment of
               None \<Rightarrow> None
             | Some aligned \<Rightarrow>
                 Some \<lparr>sl_offsets = offsets, sl_alignment = alignment,
                       sl_byte_size = aligned, sl_errored = errored\<rparr>)
          else
            Some \<lparr>sl_offsets = offsets, sl_alignment = alignment, sl_byte_size = 0,
                  sl_errored = errored\<rparr>)"

text \<open>
  The layout in the spec's words, to compare the loop with, in natural numbers: a size
  aligned up to an alignment is the least multiple of the alignment that is not below
  the size; the running size after a prefix of the members has each member placed at the
  running size aligned up to its own alignment and followed by its own size.
\<close>

definition align_up :: "nat \<Rightarrow> nat \<Rightarrow> nat" where
  "align_up v a = (v + a - 1) div a * a"

fun running_size :: "nat \<Rightarrow> member list \<Rightarrow> nat" where
  "running_size b [] = b"
| "running_size b (m # ms) =
     running_size (align_up b (unat (malign m)) + unat (msize m)) ms"

subsection \<open>Enumerator values: \<^verbatim>\<open>Analyse(Type**)\<close>, case \<^verbatim>\<open>Type::Kind::Enum\<close>\<close>

text \<open>
  An initialiser expression is represented by the outcome of the three calls the
  enum case makes on it: \<^verbatim>\<open>Analyse(&val->init())\<close>,
  \<^verbatim>\<open>Convert(&val->init(), e->underlying_type())\<close> and
  \<^verbatim>\<open>val->init()->evaluate(context, res, false)\<close>.
\<close>

record init_expr =
  init_analyse_ok :: bool
  init_convert_ok :: bool
  init_evaluate :: "int option"

record enumerator_decl =
  en_name :: string
  en_init :: "init_expr option"

text \<open>The duplicate check: the first name whose insertion into \<^verbatim>\<open>names\<close> fails.\<close>

fun duplicate_enumerator :: "string list \<Rightarrow> enumerator_decl list \<Rightarrow> string option" where
  "duplicate_enumerator names [] = None"
| "duplicate_enumerator names (val # vals) =
     (if en_name val \<in> set names then Some (en_name val)
      else duplicate_enumerator (en_name val # names) vals)"

text \<open>
  The loop that assigns the values. \<open>next_val\<close> is the variable of the same name
  (\<^verbatim>\<open>isz next_val = -1\<close>); an enumerator without initialiser receives
  \<^verbatim>\<open>++next_val\<close>, one with an initialiser sets
  \<^verbatim>\<open>next_val = value + 1\<close>. A \<^verbatim>\<open>return false\<close> is \<open>Inl\<close> of the diagnostics
  emitted before it.
\<close>

fun assign_enumerator_values ::
  "bool \<Rightarrow> int \<Rightarrow> enumerator_decl list \<Rightarrow> diag list + (string \<times> int) list" where
  "assign_enumerator_values is_int next_val [] = Inr []"
| "assign_enumerator_values is_int next_val (val # vals) =
     (case en_init val of
        None \<Rightarrow>
          if is_int then
            (let next_val' = next_val + 1 in
             case assign_enumerator_values is_int next_val' vals of
               Inl ds \<Rightarrow> Inl ds
             | Inr rest \<Rightarrow> Inr ((en_name val, next_val') # rest))
          else Inl [Error ''Unhandled underlying type given no init expression provided'']
      | Some init \<Rightarrow>
          if \<not> init_analyse_ok init then
            Inl [Error ''Invalid init expression within enumerator declaration'']
          else if \<not> init_convert_ok init then
            Inl [Error ''Init expression within enumerator declaration'', Note ''Declared here'']
          else
            (case init_evaluate init of
               None \<Rightarrow> Inl [Error ''Init expression within enumerator is not a constant expression'']
             | Some res \<Rightarrow>
                 (let next_val' = (if is_int then res + 1 else next_val) in
                  case assign_enumerator_values is_int next_val' vals of
                    Inl ds \<Rightarrow> Inl ds
                  | Inr rest \<Rightarrow> Inr ((en_name val, res) # rest))))"

text \<open>
  The whole enum case. \<open>underlying_ok\<close> is the result of analysing the underlying
  type, \<open>underlying_is_integer\<close> is \<^verbatim>\<open>e->underlying_type()->is_integer(true)\<close>.
\<close>

definition analyse_enum ::
  "bool \<Rightarrow> bool \<Rightarrow> enumerator_decl list \<Rightarrow> diag list + (string \<times> int) list" where
  "analyse_enum underlying_ok underlying_is_integer enumerators =
     (if \<not> underlying_ok then Inl []
      else if \<not> underlying_is_integer then Inl [Error ''Disallowed underlying type of enum'']
      else case duplicate_enumerator [] enumerators of
             Some n \<Rightarrow> Inl [Error (''Duplicate enumerator '' @ n)]
           | None \<Rightarrow> assign_enumerator_values underlying_is_integer (- 1) enumerators)"

subsection \<open>The module loader: \<^verbatim>\<open>AnalyseModule\<close> and \<^verbatim>\<open>try_get_metadata_blob_from_*\<close>\<close>

type_synonym byte = "8 word"

text \<open>
  Modelled from the spec: the constants of \<^verbatim>\<open>ModuleDescription\<close> and
  \<^verbatim>\<open>metadata_file_extension\<close> are declared in glint/module_description.hh, and
  \<^verbatim>\<open>elf64_header\<close> in object/elf.h, which are not among the sources. Section 6 of the
  spec gives the header \<open>{version=1, 0xC0, 0xFF, 0xEE}\<close>, section 4.3 the extension
  \<open>.gmeta\<close>; the header of a 64-bit ELF file has 64 bytes. The separator of path
  components is the one of POSIX systems.
\<close>

definition default_version :: byte where "default_version = 1"
definition magic_byte0 :: byte where "magic_byte0 = 0xC0"
definition magic_byte1 :: byte where "magic_byte1 = 0xFF"
definition magic_byte2 :: byte where "magic_byte2 = 0xEE"

definition metadata_file_extension :: string where
  "metadata_file_extension = ''.gmeta''"

definition sizeof_elf64_header :: nat where
  "sizeof_elf64_header = 64"

definition preferred_separator :: char where
  "preferred_separator = CHR ''/''"

text \<open>
  What the loader takes from its environment: the file system
  (\<^verbatim>\<open>std::filesystem::exists\<close> and \<^verbatim>\<open>File::Read\<close>; \<open>None\<close> is a path that does not
  exist), \<^verbatim>\<open>elf::get_section_from_blob\<close> for the metadata section, and
  \<^verbatim>\<open>mod.deserialise\<close>, of which only the boolean result is kept.
\<close>

record loader =
  file_read :: "string \<Rightarrow> byte list option"
  get_section_from_blob :: "byte list \<Rightarrow> byte list"
  deserialise :: "byte list \<Rightarrow> bool"

text \<open>
  A failed \<^verbatim>\<open>LCC_ASSERT\<close>, \<^verbatim>\<open>LCC_TODO\<close> and the \<^verbatim>\<open>std::out_of_range\<close> of
  \<^verbatim>\<open>vector::at\<close> abort the compiler; \<^verbatim>\<open>std::exit(1)\<close> after the error for a module
  that was not found ends it, with the paths tried.
\<close>

datatype load_fault =
    AssertFileEmpty
  | AssertUnrecognizedFormat
  | AssertMetadataEmpty
  | AssertInvalidMagic
  | OutOfRange
  | TodoAssembly
  | ImportNotFound "string list"

text \<open>
  The assertion on the first four bytes: the comparisons are evaluated from the left and
  stop at the first byte that differs; \<^verbatim>\<open>at\<close> throws beyond the end of the blob.
\<close>

fun check_magic_bytes :: "byte list \<Rightarrow> byte list \<Rightarrow> load_fault option" where
  "check_magic_bytes [] blob = None"
| "check_magic_bytes (m # ms) [] = Some OutOfRange"
| "check_magic_bytes (m # ms) (b # bs) =
     (if b = m then check_magic_bytes ms bs else Some AssertInvalidMagic)"

definition magic :: "byte list" where
  "magic = [default_version, magic_byte0, magic_byte1, magic_byte2]"

definition gmeta_path :: "string \<Rightarrow> string \<Rightarrow> string" where
  "gmeta_path include_dir name =
     include_dir @ [preferred_separator] @ name @ metadata_file_extension"

definition try_get_metadata_blob_from_gmeta ::
  "loader \<Rightarrow> string \<Rightarrow> string \<Rightarrow> string list \<Rightarrow> load_fault + bool \<times> string list" where
  "try_get_metadata_blob_from_gmeta L name include_dir paths_tried =
     (let path = gmeta_path include_dir name;
          paths_tried' = paths_tried @ [path]
      in case file_read L path of
           None \<Rightarrow> Inr (False, paths_tried')
         | Some gmeta_file \<Rightarrow>
             if gmeta_file = [] then Inl AssertFileEmpty
             else (case check_magic_bytes magic gmeta_file of
                     Some f \<Rightarrow> Inl f
                   | None \<Rightarrow> Inr (deserialise L gmeta_file, paths_tried')))"

definition object_paths :: "string \<Rightarrow> string \<Rightarrow> string list" where
  "object_paths include_dir name =
     (let path_base0 = include_dir @ [preferred_separator] @ name;
          path_base1 = include_dir @ [preferred_separator] @ ''lib'' @ name
      in [path_base0 @ ''.o'', path_base0 @ ''.obj'', path_base0 @ ''.a'',
          path_base1 @ ''.o'', path_base1 @ ''.obj'', path_base1 @ ''.a''])"

definition is_elf :: "byte list \<Rightarrow> bool" where
  "is_elf object_file =
     (length object_file \<ge> sizeof_elf64_header \<and> object_file ! 0 = 0x7f \<and>
      object_file ! 1 = 0x45 \<and> object_file ! 2 = 0x4C \<and> object_file ! 3 = 0x46)"

text \<open>The loop over \<open>paths\<close> in \<^verbatim>\<open>try_get_metadata_blob_from_object\<close>.\<close>

fun try_object_paths ::
  "loader \<Rightarrow> string list \<Rightarrow> string list \<Rightarrow> load_fault + bool \<times> string list" where
  "try_object_paths L [] paths_tried = Inr (False, paths_tried)"
| "try_object_paths L (p # ps) paths_tried =
     (case file_read L p of
        None \<Rightarrow> try_object_paths L ps (paths_tried @ [p])
      | Some object_file \<Rightarrow>
          if object_file = [] then Inl AssertFileEmpty
          else if is_elf object_file then
            (let metadata_blob = get_section_from_blob L object_file in
             if metadata_blob = [] then Inl AssertMetadataEmpty
             else (case check_magic_bytes magic metadata_blob of
                     Some f \<Rightarrow> Inl f
                   | None \<Rightarrow> Inr (deserialise L metadata_blob, paths_tried @ [p])))
          else Inl AssertUnrecognizedFormat)"

definition try_get_metadata_blob_from_object ::
  "loader \<Rightarrow> string \<Rightarrow> string \<Rightarrow> string list \<Rightarrow> load_fault + bool \<times> string list" where
  "try_get_metadata_blob_from_object L name include_dir paths_tried =
     try_object_paths L (object_paths include_dir name) paths_tried"

definition assembly_path :: "string \<Rightarrow> string \<Rightarrow> string" where
  "assembly_path include_dir name = include_dir @ [preferred_separator] @ name @ ''.s''"

definition try_get_metadata_blob_from_assembly ::
  "loader \<Rightarrow> string \<Rightarrow> string \<Rightarrow> string list \<Rightarrow> load_fault + bool \<times> string list" where
  "try_get_metadata_blob_from_assembly L name include_dir paths_tried =
     (let path = assembly_path include_dir name;
          paths_tried' = paths_tried @ [path]
      in case file_read L path of
           None \<Rightarrow> Inr (False, paths_tried')
         | Some f \<Rightarrow> Inl TodoAssembly)"

text \<open>
  The body of the loop over the include directories in \<^verbatim>\<open>AnalyseModule\<close>:
  \<^verbatim>\<open>loaded = gmeta or object or assembly\<close>, where \<^verbatim>\<open>or\<close> does not evaluate its right
  operand once the left one is true.
\<close>

definition try_include_directory ::
  "loader \<Rightarrow> string \<Rightarrow> string \<Rightarrow> string list \<Rightarrow> load_fault + bool \<times> string list" where
  "try_include_directory L name include_dir paths_tried =
     (case try_get_metadata_blob_from_gmeta L name include_dir paths_tried of
        Inl f \<Rightarrow> Inl f
      | Inr (True, t1) \<Rightarrow> Inr (True, t1)
      | Inr (False, t1) \<Rightarrow>
          (case try_get_metadata_blob_from_object L name include_dir t1 of
             Inl f \<Rightarrow> Inl f
           | Inr (True, t2) \<Rightarrow> Inr (True, t2)
           | Inr (False, t2) \<Rightarrow> try_get_metadata_blob_from_assembly L name include_dir t2))"

fun search_include_directories ::
  "loader \<Rightarrow> string \<Rightarrow> string list \<Rightarrow> string list \<Rightarrow> load_fault + bool \<times> string list" where
  "search_include_directories L name [] paths_tried = Inr (False, paths_tried)"
| "search_include_directories L name (include_dir # dirs) paths_tried =
     (case try_include_directory L name include_dir paths_tried of
        Inl f \<Rightarrow> Inl f
      | Inr (True, t) \<Rightarrow> Inr (True, t)
      | Inr (False, t) \<Rightarrow> search_include_directories L name dirs t)"

text \<open>One import: the paths tried when the module was loaded, or how the compiler ended.\<close>

definition load_import :: "loader \<Rightarrow> string list \<Rightarrow> string \<Rightarrow> load_fault + string list" where
  "load_import L include_directories name =
     (case search_include_directories L name include_directories [] of
        Inl f \<Rightarrow> Inl f
      | Inr (True, paths_tried) \<Rightarrow> Inr paths_tried
      | Inr (False, paths_tried) \<Rightarrow> Inl (ImportNotFound paths_tried))"

text \<open>The loop over the imports of the module, at the head of \<^verbatim>\<open>AnalyseModule\<close>.\<close>

fun load_imports :: "loader \<Rightarrow> string list \<Rightarrow> string list \<Rightarrow> load_fault + string list list" where
  "load_imports L include_directories [] = Inr []"
| "load_imports L include_directories (name # imports) =
     (case load_import L include_directories name of
        Inl f \<Rightarrow> Inl f
      | Inr paths_tried \<Rightarrow>
          (case load_imports L include_directories imports of
             Inl f \<Rightarrow> Inl f
           | Inr rest \<Rightarrow> Inr (paths_tried # rest)))"

text \<open>
  The search in the spec's words, to compare the code with. The candidates of a
  directory, in their order, each with its kind; what the attempt to load one candidate
  comes to; and the search in which the first successful load wins: the candidates are
  attempted in their order, a candidate that does not exist or that does not deserialise
  passes on to the next one, the first one that loads ends the search, and a hard error
  ends the compiler.
\<close>

datatype cand_kind = Gmeta | Object | Assembly

definition candidates :: "string \<Rightarrow> string \<Rightarrow> (cand_kind \<times> string) list" where
  "candidates include_dir name =
     (Gmeta, gmeta_path include_dir name)
     # map (Pair Object) (object_paths include_dir name)
     @ [(Assembly, assembly_path include_dir name)]"

datatype attempt = Missing | Loaded | NotDeserialised | HardError load_fault

definition load_blob :: "loader \<Rightarrow> byte list \<Rightarrow> attempt" where
  "load_blob L blob =
     (if prefix magic blob then (if deserialise L blob then Loaded else NotDeserialised)
      else if prefix blob magic then HardError OutOfRange
      else HardError AssertInvalidMagic)"

definition attempt_load :: "loader \<Rightarrow> cand_kind \<Rightarrow> string \<Rightarrow> attempt" where
  "attempt_load L kind p =
     (case file_read L p of
        None \<Rightarrow> Missing
      | Some file \<Rightarrow>
          (case kind of
             Gmeta \<Rightarrow> if file = [] then HardError AssertFileEmpty else load_blob L file
           | Object \<Rightarrow>
               if file = [] then HardError AssertFileEmpty
               else if \<not> is_elf file then HardError AssertUnrecognizedFormat
               else if get_section_from_blob L file = [] then HardError AssertMetadataEmpty
               else load_blob L (get_section_from_blob L file)
           | Assembly \<Rightarrow> HardError TodoAssembly))"

fun first_successful_load ::
  "loader \<Rightarrow> (cand_kind \<times> string) list \<Rightarrow> string list \<Rightarrow> load_fault + string list" where
  "first_successful_load L [] paths_tried = Inl (ImportNotFound paths_tried)"
| "first_successful_load L ((kind, p) # cs) paths_tried =
     (case attempt_load L kind p of
        Missing \<Rightarrow> first_successful_load L cs (paths_tried @ [p])
      | NotDeserialised \<Rightarrow> first_successful_load L cs (paths_tried @ [p])
      | Loaded \<Rightarrow> Inr (paths_tried @ [p])
      | HardError f \<Rightarrow> Inl f)"

text \<open>A candidate that passes on to the next one.\<close>

definition passes_on :: "loader \<Rightarrow> cand_kind \<times> string \<Rightarrow> bool" where
  "passes_on L c =
     (attempt_load L (fst c) (snd c) = Missing \<or>
      attempt_load L (fst c) (snd c) = NotDeserialised)"

subsection \<open>Spelling correction: \<^verbatim>\<open>optimal_string_alignment_distance\<close>\<close>

text \<open>
  The table \<open>d\<close> is the block of \<open>(m + 1) * (n + 1)\<close> cells that \<^verbatim>\<open>calloc\<close> returns,
  all zero; \<open>ref n i j\<close> is the index that the lambda \<^verbatim>\<open>ref\<close> computes,
  \<^verbatim>\<open>d[(i * n) + j]\<close>. \<open>osa_cell\<close> is the body of the inner loop, made of its
  substitution check and its transposition check; \<open>osa_column\<close> is the inner loop for
  one \<open>j\<close>. The sizes are natural numbers: for strings far shorter than
  \<open>2^32\<close> characters no \<^verbatim>\<open>size_t\<close> wraps around. The indices \<open>i - 1\<close> and \<open>j - 1\<close> of
  \<^verbatim>\<open>at\<close> lie within the strings, since the loops start at 1.
\<close>

definition ref :: "nat \<Rightarrow> nat \<Rightarrow> nat \<Rightarrow> nat" where
  "ref n i j = i * n + j"

definition osa_substitution ::
  "string \<Rightarrow> string \<Rightarrow> nat \<Rightarrow> nat \<Rightarrow> nat \<Rightarrow> nat list \<Rightarrow> nat list" where
  "osa_substitution s t n j i d =
     (let i_i = i - 1;
          j_i = j - 1;
          cost = (if s ! i_i \<noteq> t ! j_i then 1 else 0)
      in d[ref n i j := min (d ! ref n (i - 1) j + 1)
                          (min (d ! ref n i (j - 1) + 1)
                               (d ! ref n (i - 1) (j - 1) + cost))])"

definition osa_transposition ::
  "string \<Rightarrow> string \<Rightarrow> nat \<Rightarrow> nat \<Rightarrow> nat \<Rightarrow> nat list \<Rightarrow> nat list" where
  "osa_transposition s t n j i d =
     (let i_i = i - 1;
          j_i = j - 1
      in if i > 1 \<and> j > 1 \<and> s ! i_i = t ! (j_i - 1) \<and> s ! (i_i - 1) = t ! j_i
         then d[ref n i j := min (d ! ref n i j) (d ! ref n (i - 2) (j - 2) + 1)]
         else d)"

definition osa_cell ::
  "string \<Rightarrow> string \<Rightarrow> nat \<Rightarrow> nat \<Rightarrow> nat \<Rightarrow> nat list \<Rightarrow> nat list" where
  "osa_cell s t n j i d = osa_transposition s t n j i (osa_substitution s t n j i d)"

definition osa_column :: "string \<Rightarrow> string \<Rightarrow> nat \<Rightarrow> nat \<Rightarrow> nat \<Rightarrow> nat list \<Rightarrow> nat list" where
  "osa_column s t m n j d = fold (osa_cell s t n j) [1..<Suc m] d"

definition optimal_string_alignment_distance :: "string \<Rightarrow> string \<Rightarrow> nat" where
  "optimal_string_alignment_distance s t =
     (let m = length s;
          n = length t;
          d0 = replicate ((m + 1) * (n + 1)) 0;
          d1 = fold (\<lambda>i d. d[ref n i 0 := i]) [0..<Suc m] d0;
          d2 = fold (\<lambda>j d. d[ref n 0 j := j]) [0..<Suc n] d1;
          d3 = fold (osa_column s t m n) [1..<Suc n] d2
      in d3 ! ref n m n)"

text \<open>The cells \<open>(k, k)\<close> with \<open>k < K\<close> hold 0.\<close>

definition diag_zero :: "nat \<Rightarrow> nat \<Rightarrow> nat list \<Rightarrow> bool" where
  "diag_zero n K d = (\<forall>k < K. d ! ref n k k = 0)"

text \<open>
  The distance in the spec's words, to compare the code with. The glossary of the spec
  calls it the optimal string alignment edit distance, which allows insertions, deletions,
  substitutions and single adjacent transpositions: \<open>osa_prefix_distance s t i j\<close> is the
  distance between the first \<open>i\<close> characters of \<open>s\<close> and the first \<open>j\<close> of \<open>t\<close>.
\<close>

fun osa_prefix_distance :: "string \<Rightarrow> string \<Rightarrow> nat \<Rightarrow> nat \<Rightarrow> nat" where
  "osa_prefix_distance s t 0 j = j"
| "osa_prefix_distance s t (Suc i) 0 = Suc i"
| "osa_prefix_distance s t (Suc i) (Suc j) =
     (let edit = min (osa_prefix_distance s t i (Suc j) + 1)
                   (min (osa_prefix_distance s t (Suc i) j + 1)
                        (osa_prefix_distance s t i j + (if s ! i \<noteq> t ! j then 1 else 0)))
      in if 0 < i \<and> 0 < j \<and> s ! i = t ! (j - 1) \<and> s ! (i - 1) = t ! j
         then min edit (osa_prefix_distance s t (i - 1) (j - 1) + 1)
         else edit)"

definition osa_distance_spec :: "string \<Rightarrow> string \<Rightarrow> nat" where
  "osa_distance_spec s t = osa_prefix_distance s t (length s) (length t)"

subsection \<open>Name resolution: \<^verbatim>\<open>AnalyseNameRef\<close>\<close>

text \<open>
  A declaration as \<^verbatim>\<open>AnalyseNameRef\<close> reads it: its address, name, type and lvalue flag,
  whether it is a \<^verbatim>\<open>FuncDecl\<close>, and its sema state after \<^verbatim>\<open>Analyse(&e)\<close>. The lookups
  that the function makes are given by their results: \<^verbatim>\<open>find_recursive(expr->name())\<close>,
  the names of \<^verbatim>\<open>mod.imports()\<close>, \<^verbatim>\<open>scope->all_symbols_recursive()\<close>,
  \<^verbatim>\<open>mod.top_level_scope()->find(expr->name())\<close>, and whether the analysis of a newly
  built overload set marks it errored.
\<close>

record decl =
  decl_ident :: decl_id
  decl_name :: string
  decl_type :: gtype
  decl_lvalue :: bool
  decl_is_FuncDecl :: bool
  decl_sema :: sema_state

record lookups =
  find_recursive :: "decl list"
  module_imports :: "string list"
  all_symbols_recursive :: "decl list"
  top_level_find :: "decl list"
  overload_set_errored :: bool

text \<open>What the name reference is left with: target, type, lvalue flag, errored flag.\<close>

datatype name_target = TargetDecl decl_id | TargetModule | TargetOverloadSet "decl_id list"

record nameref =
  nr_target :: "name_target option"
  nr_type :: gtype
  nr_lvalue :: bool
  nr_errored :: bool

text \<open>
  The loop that looks for the closest declaration; \<open>least_distance\<close> starts at
  \<^verbatim>\<open>size_t(-1)\<close>, which is \<open>2^64 - 1\<close>. A distance of zero fails the \<^verbatim>\<open>LCC_ASSERT\<close>.
\<close>

fun find_least_distance ::
  "string \<Rightarrow> decl list \<Rightarrow> decl option \<Rightarrow> nat \<Rightarrow> fault + decl option \<times> nat" where
  "find_least_distance name [] least_distance_decl least_distance =
     Inr (least_distance_decl, least_distance)"
| "find_least_distance name (d # ds) least_distance_decl least_distance =
     (let distance = optimal_string_alignment_distance name (decl_name d) in
      if distance = 0 then Inl AssertionFailure
      else if distance < least_distance then find_least_distance name ds (Some d) distance
      else find_least_distance name ds least_distance_decl least_distance)"

definition unknown_symbol :: "lookups \<Rightarrow> string \<Rightarrow> decl option \<Rightarrow> nat \<Rightarrow> nameref \<times> diag list" where
  "unknown_symbol lk name least_distance_decl least_distance =
     (\<lparr>nr_target = None, nr_type = BuiltinType BuiltinUnknown, nr_lvalue = False,
       nr_errored = True\<rparr>,
      [Error (''Unknown symbol '' @ name)]
      @ (if top_level_find lk \<noteq> []
         then [Note ''A declaration exists at the top-level. Did you mean to make it static?'']
         else [])
      @ (case least_distance_decl of
           None \<Rightarrow> []
         | Some d \<Rightarrow>
             if \<not> length (decl_name d) < 5 \<or> least_distance \<le> 1
             then [Note (''Maybe you meant '' @ decl_name d @ '', defined here?'')]
             else []))"

definition AnalyseNameRef :: "lookups \<Rightarrow> string \<Rightarrow> fault + nameref \<times> diag list" where
  "AnalyseNameRef lk name =
     (case find_recursive lk of
        [] \<Rightarrow>
          if name \<in> set (module_imports lk) then
            Inr (\<lparr>nr_target = Some TargetModule, nr_type = BuiltinType BuiltinVoid,
                  nr_lvalue = False, nr_errored = False\<rparr>, [])
          else
            (case find_least_distance name (all_symbols_recursive lk) None 18446744073709551615 of
               Inl f \<Rightarrow> Inl f
             | Inr (least_distance_decl, least_distance) \<Rightarrow>
                 (case least_distance_decl of
                    None \<Rightarrow> Inr (unknown_symbol lk name least_distance_decl least_distance)
                  | Some d \<Rightarrow>
                      if least_distance = 1 \<and> length name > 2 \<and>
                         length name = length (decl_name d)
                      then
                        Inr (\<lparr>nr_target = Some (TargetDecl (decl_ident d)),
                              nr_type = decl_type d, nr_lvalue = decl_lvalue d,
                              nr_errored = False\<rparr>,
                             [Warning (''You typed '' @ name @ ''; we are treating it as ''
                                       @ decl_name d @ '' because it is so close''),
                              Note ''Declared here''])
                      else Inr (unknown_symbol lk name least_distance_decl least_distance)))
      | first_sym # more_syms \<Rightarrow>
          if \<not> decl_is_FuncDecl first_sym then
            (let ds = (if decl_sema first_sym = NoLongerViable
                       then [Error (''Reference to a name, '' @ name
                                    @ '', that is no longer viable'')]
                       else [])
             in if decl_sema first_sym = InProgress then
                  Inr (\<lparr>nr_target = None, nr_type = BuiltinType BuiltinUnknown,
                        nr_lvalue = False, nr_errored = True\<rparr>,
                       ds @ [Error (''Cannot use '' @ name @ '' in its own initialiser'')])
                else
                  Inr (\<lparr>nr_target = Some (TargetDecl (decl_ident first_sym)),
                        nr_type = decl_type first_sym, nr_lvalue = decl_lvalue first_sym,
                        nr_errored = False\<rparr>, ds))
          else if \<exists>s \<in> set more_syms. \<not> decl_is_FuncDecl s then Inl AssertionFailure
          else if more_syms = [] then
            Inr (\<lparr>nr_target = Some (TargetDecl (decl_ident first_sym)), nr_type = decl_type first_sym,
                  nr_lvalue = False, nr_errored = False\<rparr>, [])
          else
            Inr (\<lparr>nr_target = Some (TargetOverloadSet (map decl_ident (first_sym # more_syms))),
                  nr_type = BuiltinType BuiltinOverloadSet, nr_lvalue = False,
                  nr_errored = overload_set_errored lk\<rparr>, []))"

section \<open>Properties\<close>

subsection \<open>The conversion engine\<close>

text \<open>
  C1. The claim: \<^verbatim>\<open>TryConvert\<close> only computes a score and leaves the expression
  slot as it was. \<^verbatim>\<open>ConvertImpl\<close> guards every rewrite by
  \<^verbatim>\<open>if constexpr (PerformConversion)\<close>, except the two calls of
  \<^verbatim>\<open>Deproceduring\<close>, which replaces the content of the slot by a call. For a name
  reference to a function without parameters and the destination type \<open>int\<close>,
  \<^verbatim>\<open>TryConvert\<close> returns score 1 and leaves a \<^verbatim>\<open>CallExpr\<close> of type \<open>int\<close> in the
  slot, where a name reference of function type has been.
\<close>

theorem TryConvert_replaces_expression:
  "TryConvert ctx
     (NameRefExpr ''f'' (Some 0)
        \<lparr>n_type = FuncType (BuiltinType BuiltinInt) [] [], n_lvalue = False, n_sema = Done\<rparr>)
     (BuiltinType BuiltinInt)
   = (1, CallExpr
           (NameRefExpr ''f'' (Some 0)
              \<lparr>n_type = FuncType (BuiltinType BuiltinInt) [] [], n_lvalue = False,
                 n_sema = Done\<rparr>)
           [] \<lparr>n_type = BuiltinType BuiltinInt, n_lvalue = False, n_sema = Done\<rparr>)"
  by (simp add: TryConvert_def ConvertImpl_def Deproceduring_def analyse_inserted_call_def
        type_of_def is_lvalue_def type_sema_errored_def is_void_def Equal_def Let_def)

lemma LValueToRValue_rvalue:
  assumes "\<not> sema_errored e" and "sum_member_access e = e" and "\<not> is_lvalue e"
    and "\<not> (strip_ref \<and> is_reference (type_of e))"
  shows "LValueToRValue e strip_ref = e"
  using assms by (subst LValueToRValue.simps) (auto simp: Let_def)

lemma LValueToRValue_lvalue:
  assumes "\<not> sema_errored e" and "sum_member_access e = e" and "is_lvalue e"
    and "\<not> (strip_ref \<and> is_reference (type_of e))"
  shows "LValueToRValue e strip_ref = WrapWithCast e (type_of e) LValueToRValueConv"
  using assms
  by (subst LValueToRValue.simps) (auto simp: Let_def WrapWithCast_def type_of_def)

text \<open>
  C3. The claim: a compile-time constant converts to an integer type if and only if its
  value fits in the destination. The code compares the value with \<open>2^width - 1\<close> only
  when the type of the source is unsigned (\<^verbatim>\<open>from->is_unsigned_int(context)\<close>), although
  its comment asks for a value in range for the destination. The literal \<open>300\<close> of
  the signed type \<open>int\<close> converts to the unsigned 8-bit integer type: \<^verbatim>\<open>Convert\<close>
  succeeds and leaves a \<^verbatim>\<open>ConstantExpr\<close> of value 300, above the largest 8-bit value.
\<close>

theorem Convert_constant_out_of_range:
  "Convert
     \<lparr>type_size = (\<lambda>t. case t of IntegerType w s \<Rightarrow> w | _ \<Rightarrow> 64),
      evaluate = (\<lambda>e. case e of IntegerLiteral v n \<Rightarrow> Some v | _ \<Rightarrow> None)\<rparr>
     (IntegerLiteral 300 \<lparr>n_type = BuiltinType BuiltinInt, n_lvalue = False, n_sema = Done\<rparr>)
     (IntegerType 8 False)
   = (True,
      ConstantExpr
        (Some (CastExpr ImplicitCast
                 (IntegerLiteral 300
                    \<lparr>n_type = BuiltinType BuiltinInt, n_lvalue = False, n_sema = Done\<rparr>)
                 \<lparr>n_type = IntegerType 8 False, n_lvalue = False, n_sema = Done\<rparr>))
        300 \<lparr>n_type = IntegerType 8 False, n_lvalue = False, n_sema = Done\<rparr>)
   \<and> MaxBitValue 8 < (300 :: 64 word)"
proof -
  let ?lit = "IntegerLiteral 300
     \<lparr>n_type = BuiltinType BuiltinInt, n_lvalue = False, n_sema = Done\<rparr>"
  have l: "LValueToRValue ?lit False = ?lit"
    by (rule LValueToRValue_rvalue) (simp_all add: sema_errored_def sema_def is_lvalue_def)
  have m: "MaxBitValue 8 < (300 :: 64 word)"
    by (simp add: MaxBitValue_def)
  show ?thesis
    by (simp add: Convert_def ConvertImpl_def ConvertImpl_rvalue_def ConvertImpl_integers_def
        l m Deproceduring_def InsertImplicitCast_def WrapWithCast_def
        sema_errored_def sema_def type_of_def is_lvalue_def type_sema_errored_def is_void_def
        is_bool_def Equal_def VoidPtr_def Let_def NoOp_def)
qed

subsection \<open>Explicit casts\<close>

text \<open>
  The claim C2 as it is stated fails: a soft cast from a pointer to \<open>int\<close> is accepted
  without any diagnostic, since \<^verbatim>\<open>AnalyseCast\<close> returns for every cast from a pointer
  to an integer or boolean type before it asks for the hard form (and likewise for a cast
  from an enum to an integer type).
\<close>

theorem soft_cast_pointer_to_integer_accepted:
  "snd (AnalyseCast
     \<lparr>type_size = (\<lambda>t. 64), evaluate = (\<lambda>e. None)\<rparr>
     SoftCast
     (NameRefExpr ''p'' (Some 0)
        \<lparr>n_type = PointerType (BuiltinType BuiltinByte), n_lvalue = True, n_sema = Done\<rparr>)
     \<lparr>n_type = BuiltinType BuiltinInt, n_lvalue = False, n_sema = InProgress\<rparr>) = []"
proof -
  let ?p = "NameRefExpr ''p'' (Some 0)
        \<lparr>n_type = PointerType (BuiltinType BuiltinByte), n_lvalue = True, n_sema = Done\<rparr>"
  have l: "LValueToRValue ?p False = WrapWithCast ?p (type_of ?p) LValueToRValueConv"
    by (rule LValueToRValue_lvalue) (simp_all add: sema_errored_def sema_def is_lvalue_def)
  show ?thesis
    by (simp add: AnalyseCast_def ok_def Convert_def ConvertImpl_def ConvertImpl_rvalue_def
        ConvertImpl_integers_def l Deproceduring_def WrapWithCast_def
        sema_errored_def sema_def type_of_def is_lvalue_def type_sema_errored_def is_void_def
        is_bool_def Equal_def VoidPtr_def Let_def ConversionImpossible_def)
qed

text \<open>
  C2, amended. Let an explicit cast (soft or hard) have an operand that analysed without
  error and that \<^verbatim>\<open>Convert\<close> cannot convert implicitly to the type of the cast, which is
  not a reference type; \<open>from\<close> is the type of the operand after that attempt. Then
  \<^item> a cast from an integer, boolean or enum type to an integer or boolean type, and a cast
    from a pointer to an integer or boolean type, are accepted in both forms;
  \<^item> a cast from an integer or boolean type to an enum, a cast from an integer or a
    pointer to a pointer type, and any other cast between types of equal size are accepted
    if and only if the cast is hard; in the soft form each of them emits one error.
\<close>

theorem AnalyseCast_hard_cast_only:
  assumes kind: "kind = SoftCast \<or> kind = HardCast"
    and operand: "ok operand"
    and conv: "Convert ctx operand (n_type n) = (False, operand')"
    and noref: "\<not> is_reference (n_type n)"
  shows
    "((is_integer True (type_of operand') \<or> is_enum (type_of operand')) \<and>
        is_integer True (n_type n) \<longrightarrow>
        snd (AnalyseCast ctx kind operand n) = []) \<and>
     (is_pointer (type_of operand') \<and> is_integer True (n_type n) \<longrightarrow>
        snd (AnalyseCast ctx kind operand n) = []) \<and>
     (is_integer True (type_of operand') \<and> is_enum (n_type n) \<longrightarrow>
        snd (AnalyseCast ctx kind operand n) =
          (if kind = HardCast then []
           else [Error ''Cast is unsafe. If this is intended, use as! instead''])) \<and>
     (is_pointer (n_type n) \<and>
        (is_integer False (type_of operand') \<or> is_pointer (type_of operand')) \<longrightarrow>
        snd (AnalyseCast ctx kind operand n) =
          (if kind = HardCast then []
           else [Error ''Cast is unsafe. If this is intended, use as! instead''])) \<and>
     (\<not> ((is_integer True (type_of operand') \<or> is_enum (type_of operand')) \<and>
            is_integer True (n_type n)) \<and>
      \<not> (is_pointer (type_of operand') \<and> is_integer True (n_type n)) \<and>
      \<not> (is_integer True (type_of operand') \<and> is_enum (n_type n)) \<and>
      \<not> (is_pointer (n_type n) \<and>
            (is_integer False (type_of operand') \<or> is_pointer (type_of operand'))) \<and>
      type_size ctx (type_of operand') = type_size ctx (n_type n) \<longrightarrow>
        snd (AnalyseCast ctx kind operand n) =
          (if kind = HardCast then [] else [Error ''Invalid cast'']))"
proof -
  have enum_not_int: "is_enum (n_type n) \<Longrightarrow> \<not> is_integer True (n_type n)"
    by (cases "n_type n") simp_all
  have ptr_not_int: "is_pointer (n_type n) \<Longrightarrow> \<not> is_integer True (n_type n)"
    by (cases "n_type n") simp_all
  have explicit: "\<not> (kind = ImplicitCast \<or> kind = LValueToRValueConv \<or>
      kind = LValueToReference \<or> kind = ReferenceToLValue)"
    using kind by auto
  have ds: "snd (AnalyseCast ctx kind operand n) =
      (let from = type_of operand'; to = n_type n in
       if (is_integer True from \<or> is_enum from) \<and> is_integer True to then []
       else if is_pointer from \<and> is_integer True to then []
       else if is_integer True from \<and> is_enum to then hard_cast_only kind
       else if is_pointer to \<and> (is_integer False from \<or> is_pointer from)
       then hard_cast_only kind
       else if type_size ctx from = type_size ctx to \<and> kind = HardCast then []
       else [Error ''Invalid cast''])"
    using explicit operand noref unfolding AnalyseCast_def conv by (simp add: Let_def)
  show ?thesis
    unfolding ds using enum_not_int ptr_not_int
    by (auto simp: Let_def hard_cast_only_def)
qed

text \<open>A soft cast from \<open>int\<close> to a pointer type emits the error; the hard cast does not.\<close>

theorem AnalyseCast_hard_cast_only_witness:
  "snd (AnalyseCast
     \<lparr>type_size = (\<lambda>t. 64), evaluate = (\<lambda>e. None)\<rparr>
     SoftCast
     (NameRefExpr ''i'' (Some 0)
        \<lparr>n_type = BuiltinType BuiltinInt, n_lvalue = True, n_sema = Done\<rparr>)
     \<lparr>n_type = PointerType (BuiltinType BuiltinByte), n_lvalue = False, n_sema = InProgress\<rparr>)
   = [Error ''Cast is unsafe. If this is intended, use as! instead'']"
proof -
  let ?ctx = "\<lparr>type_size = (\<lambda>t. 64), evaluate = (\<lambda>e. None)\<rparr> :: Context"
  let ?i = "NameRefExpr ''i'' (Some 0)
        \<lparr>n_type = BuiltinType BuiltinInt, n_lvalue = True, n_sema = Done\<rparr>"
  let ?n = "\<lparr>n_type = PointerType (BuiltinType BuiltinByte), n_lvalue = False,
             n_sema = InProgress\<rparr>"
  have l: "LValueToRValue ?i False = WrapWithCast ?i (type_of ?i) LValueToRValueConv"
    by (rule LValueToRValue_lvalue) (simp_all add: sema_errored_def sema_def is_lvalue_def)
  have k: "SoftCast = SoftCast \<or> SoftCast = HardCast" by simp
  have o: "ok ?i" by (simp add: ok_def sema_def)
  have c: "Convert ?ctx ?i (n_type ?n) =
      (False, WrapWithCast ?i (type_of ?i) LValueToRValueConv)"
    by (simp add: Convert_def ConvertImpl_def ConvertImpl_rvalue_def
        ConvertImpl_integers_def l Deproceduring_def WrapWithCast_def
        sema_errored_def sema_def type_of_def is_lvalue_def type_sema_errored_def is_void_def
        is_bool_def Equal_def VoidPtr_def Let_def ConversionImpossible_def)
  have r: "\<not> is_reference (n_type ?n)" by simp
  from AnalyseCast_hard_cast_only [OF k o c r] show ?thesis
    by (simp add: type_of_def WrapWithCast_def)
qed

subsection \<open>Return expressions\<close>

text \<open>
  C4. The claim: analysing a return expression never accesses a missing operand; a return
  without operand gives the error that a value must be returned in a function whose
  return type is not void, and succeeds in one that returns void. The code guards the
  operand in the lines before and after, but
  \<^verbatim>\<open>if (r->value()->type()->is_dynamic_array())\<close> dereferences it unguarded: for a
  return without operand the analysis ends in a null pointer dereference, whatever the
  return type of the function, and before any diagnostic is emitted.
\<close>

theorem AnalyseReturn_without_operand:
  "AnalyseReturn ctx ret_type None n st = Inl NullPointerDereference"
  by (simp add: AnalyseReturn_def)

subsection \<open>Spelling correction\<close>

lemma length_osa_cell [simp]: "length (osa_cell s t n j i d) = length d"
  by (simp add: osa_cell_def osa_substitution_def osa_transposition_def Let_def)

lemma length_fold_osa_cell [simp]: "length (fold (osa_cell s t n j) is d) = length d"
  by (induction "is" arbitrary: d) simp_all

lemma length_osa_column [simp]: "length (osa_column s t m n j d) = length d"
  by (simp add: osa_column_def)

lemma length_fold_osa_column [simp]: "length (fold (osa_column s t m n) js d) = length d"
  by (induction js arbitrary: d) simp_all

lemma length_fold_update [simp]: "length (fold (\<lambda>i d. d[f i := g i]) is d) = length d"
  by (induction "is" arbitrary: d) simp_all

lemma osa_cell_nth_other: "idx \<noteq> ref n i j \<Longrightarrow> osa_cell s t n j i d ! idx = d ! idx"
  by (simp add: osa_cell_def osa_substitution_def osa_transposition_def Let_def)

lemma osa_substitution_same:
  assumes "ref n i j < length d" "d ! ref n (i - 1) (j - 1) = 0" "s ! (i - 1) = t ! (j - 1)"
  shows "osa_substitution s t n j i d ! ref n i j = 0"
  using assms by (simp add: osa_substitution_def Let_def)

lemma osa_transposition_same:
  assumes "ref n i j < length d" "d ! ref n i j = 0"
  shows "osa_transposition s t n j i d ! ref n i j = 0"
  using assms by (simp add: osa_transposition_def Let_def)

lemma ref_diag_eq:
  assumes "1 \<le> i" "1 \<le> j" "j \<le> n" "k \<le> n" "ref n i j = ref n k k"
  shows "i = k \<and> j = k"
proof -
  from assms(5) have eq: "i * n + j = k * n + k" by (simp add: ref_def)
  have "\<not> i < k"
  proof
    assume "i < k"
    then have "Suc i * n \<le> k * n" by (intro mult_le_mono1) simp
    then have "i * n + n \<le> k * n" by simp
    with assms(3) have "i * n + j \<le> k * n" by linarith
    moreover from \<open>i < k\<close> assms(1) have "0 < k" by simp
    ultimately show False using eq by linarith
  qed
  moreover have "\<not> k < i"
  proof
    assume "k < i"
    then have "Suc k * n \<le> i * n" by (intro mult_le_mono1) simp
    then have "k * n + n \<le> i * n" by simp
    with assms(2,4) eq show False by linarith
  qed
  ultimately have "i = k" by simp
  with eq show ?thesis by simp
qed

lemma osa_cell_off_diagonal:
  assumes "diag_zero n K d" "K \<le> Suc n" "1 \<le> i" "1 \<le> j" "j \<le> n" "i \<noteq> j \<or> K \<le> j"
  shows "diag_zero n K (osa_cell s t n j i d)"
  unfolding diag_zero_def
proof (intro allI impI)
  fix k assume k: "k < K"
  with assms(2) have "k \<le> n" by simp
  have "ref n k k \<noteq> ref n i j"
  proof
    assume "ref n k k = ref n i j"
    then have "i = k \<and> j = k"
      using ref_diag_eq [OF assms(3) assms(4) assms(5) \<open>k \<le> n\<close>] by simp
    with assms(6) k show False by auto
  qed
  then show "osa_cell s t n j i d ! ref n k k = 0"
    using assms(1) k by (simp add: osa_cell_nth_other diag_zero_def)
qed

lemma osa_cell_diagonal:
  assumes "diag_zero n j d" "1 \<le> j" "j \<le> n" "length d = (n + 1) * (n + 1)"
  shows "diag_zero n (Suc j) (osa_cell s s n j j d)"
  unfolding diag_zero_def
proof (intro allI impI)
  fix k assume k: "k < Suc j"
  show "osa_cell s s n j j d ! ref n k k = 0"
  proof (cases "k = j")
    case False
    with k have "k < j" by simp
    moreover have "diag_zero n j (osa_cell s s n j j d)"
      using assms by (intro osa_cell_off_diagonal) simp_all
    ultimately show ?thesis by (simp add: diag_zero_def)
  next
    case True
    have "j * n \<le> n * n" using assms(3) by simp
    moreover have "(n + 1) * (n + 1) = n * n + n + n + 1" by simp
    ultimately have len: "ref n j j < length d"
      unfolding ref_def assms(4) using assms(3) by linarith
    have prev: "d ! ref n (j - 1) (j - 1) = 0"
      using assms(1,2) by (simp add: diag_zero_def)
    have "osa_substitution s s n j j d ! ref n j j = 0"
      using len prev by (intro osa_substitution_same) simp_all
    moreover have "ref n j j < length (osa_substitution s s n j j d)"
      using len by (simp add: osa_substitution_def Let_def)
    ultimately have "osa_cell s s n j j d ! ref n j j = 0"
      unfolding osa_cell_def by (intro osa_transposition_same)
    then show ?thesis by (simp only: True)
  qed
qed

lemma fold_osa_cell_off_diagonal:
  assumes "\<forall>i \<in> set is. 1 \<le> i \<and> i \<noteq> j" "diag_zero n K d" "K \<le> Suc n" "1 \<le> j" "j \<le> n"
  shows "diag_zero n K (fold (osa_cell s t n j) is d)"
  using assms
proof (induction "is" arbitrary: d)
  case Nil
  then show ?case by simp
next
  case (Cons i "is")
  from Cons.prems have "diag_zero n K (osa_cell s t n j i d)"
    by (intro osa_cell_off_diagonal) simp_all
  with Cons show ?case by simp
qed

lemma osa_column_diagonal:
  assumes "diag_zero n j d" "1 \<le> j" "j \<le> n" "length d = (n + 1) * (n + 1)"
  shows "diag_zero n (Suc j) (osa_column s s n n j d)"
proof -
  have "[1..<j + (Suc n - j)] = [1..<j] @ [j..<j + (Suc n - j)]"
    using assms(2) by (rule upt_add_eq_append)
  moreover have "j + (Suc n - j) = Suc n" using assms(3) by simp
  ultimately have "[1..<Suc n] = [1..<j] @ [j..<Suc n]" by simp
  moreover have "[j..<Suc n] = j # [Suc j..<Suc n]"
    using assms(3) by (intro upt_conv_Cons) simp
  ultimately have split: "[1..<Suc n] = [1..<j] @ j # [Suc j..<Suc n]" by simp
  let ?d1 = "fold (osa_cell s s n j) [1..<j] d"
  let ?d2 = "osa_cell s s n j j ?d1"
  have "diag_zero n j ?d1"
    using assms by (intro fold_osa_cell_off_diagonal) auto
  then have "diag_zero n (Suc j) ?d2"
    using assms by (intro osa_cell_diagonal) simp_all
  then have "diag_zero n (Suc j) (fold (osa_cell s s n j) [Suc j..<Suc n] ?d2)"
    using assms by (intro fold_osa_cell_off_diagonal) auto
  moreover have "osa_column s s n n j d = fold (osa_cell s s n j) [Suc j..<Suc n] ?d2"
    unfolding osa_column_def split by (simp only: fold_append fold_simps comp_def)
  ultimately show ?thesis by (simp only:)
qed

lemma fold_osa_column_diagonal:
  assumes "J \<le> n" "diag_zero n 1 d" "length d = (n + 1) * (n + 1)"
  shows "diag_zero n (Suc J) (fold (osa_column s s n n) [1..<Suc J] d)"
  using assms(1)
proof (induction J)
  case 0
  with assms(2) show ?case by simp
next
  case (Suc J)
  then have "diag_zero n (Suc J) (fold (osa_column s s n n) [1..<Suc J] d)" by simp
  then have "diag_zero n (Suc (Suc J))
      (osa_column s s n n (Suc J) (fold (osa_column s s n n) [1..<Suc J] d))"
    using Suc.prems assms(3) by (intro osa_column_diagonal) simp_all
  then show ?case by simp
qed

lemma fold_update_nth_other:
  "\<forall>j \<in> set js. f j \<noteq> idx \<Longrightarrow> fold (\<lambda>j d. d[f j := g j]) js d ! idx = d ! idx"
  by (induction js arbitrary: d) simp_all

lemma osa_same: "optimal_string_alignment_distance s s = 0"
proof -
  let ?n = "length s"
  let ?d0 = "replicate ((?n + 1) * (?n + 1)) (0::nat)"
  let ?d1 = "fold (\<lambda>i d. d[ref ?n i 0 := i]) [0..<Suc ?n] ?d0"
  let ?d2 = "fold (\<lambda>j d. d[ref ?n 0 j := j]) [0..<Suc ?n] ?d1"
  let ?d3 = "fold (osa_column s s ?n ?n) [1..<Suc ?n] ?d2"
  have len1: "length ?d1 = (?n + 1) * (?n + 1)"
    by (simp only: length_fold_update length_replicate)
  have len: "length ?d2 = (?n + 1) * (?n + 1)"
    by (simp only: length_fold_update length_replicate)
  have "[0..<Suc ?n] = 0 # [Suc 0..<Suc ?n]" by (intro upt_conv_Cons) simp
  then have a: "?d2 = fold (\<lambda>j d. d[ref ?n 0 j := j]) [Suc 0..<Suc ?n] (?d1[ref ?n 0 0 := 0])"
    by (simp only: fold_simps)
  have b: "fold (\<lambda>j d. d[ref ?n 0 j := j]) [Suc 0..<Suc ?n] (?d1[ref ?n 0 0 := 0]) ! 0 =
      (?d1[ref ?n 0 0 := 0]) ! 0"
    by (rule fold_update_nth_other) (auto simp: ref_def)
  have c: "(?d1[ref ?n 0 0 := 0]) ! 0 = 0"
    unfolding ref_def using len1 by (simp del: upt_Suc)
  have "?d2 ! 0 = 0"
    by (subst a) (simp only: b c)
  then have "diag_zero ?n 1 ?d2" by (simp add: diag_zero_def ref_def del: upt_Suc)
  from fold_osa_column_diagonal [OF le_refl this len]
  have "diag_zero ?n (Suc ?n) ?d3" .
  then have r: "?d3 ! ref ?n ?n ?n = 0" unfolding diag_zero_def by blast
  show ?thesis
    unfolding optimal_string_alignment_distance_def Let_def Suc_eq_plus1 [symmetric]
    using r unfolding Suc_eq_plus1 [symmetric] .
qed

lemma find_least_distance_nearest:
  assumes "find_least_distance name ds ld0 l0 = Inr (ld, l)"
  shows "(ld = ld0 \<and> l = l0 \<or>
          (\<exists>d \<in> set ds. ld = Some d \<and>
             optimal_string_alignment_distance name (decl_name d) = l \<and> l < l0)) \<and>
         l \<le> l0 \<and>
         (\<forall>x \<in> set ds. l \<le> optimal_string_alignment_distance name (decl_name x))"
  using assms
proof (induction ds arbitrary: ld0 l0)
  case Nil
  then show ?case by simp
next
  case (Cons d ds)
  let ?dist = "optimal_string_alignment_distance name (decl_name d)"
  from Cons.prems have nz: "?dist \<noteq> 0"
    by (auto simp: Let_def split: if_splits)
  show ?case
  proof (cases "?dist < l0")
    case True
    with Cons.prems nz have "find_least_distance name ds (Some d) ?dist = Inr (ld, l)"
      by (simp add: Let_def)
    from Cons.IH [OF this] True show ?thesis by auto
  next
    case False
    with Cons.prems nz have "find_least_distance name ds ld0 l0 = Inr (ld, l)"
      by (simp add: Let_def)
    from Cons.IH [OF this] False show ?thesis by auto
  qed
qed

text \<open>
  With the distances that the function returns, the spelling correction does what the
  spec says: when the closest declaration that the loop finds is at distance 1 and its
  name is as long as the name typed, which has more than two characters, the reference is
  retargeted to it with a warning, and no error is emitted.
\<close>

lemma spelling_correction_retargets:
  assumes "find_recursive lk = []" and "name \<notin> set (module_imports lk)"
    and "find_least_distance name (all_symbols_recursive lk) None 18446744073709551615
           = Inr (Some d, 1)"
    and "length name = length (decl_name d)" and "2 < length name"
  shows "AnalyseNameRef lk name =
           Inr (\<lparr>nr_target = Some (TargetDecl (decl_ident d)), nr_type = decl_type d,
                 nr_lvalue = decl_lvalue d, nr_errored = False\<rparr>,
                [Warning (''You typed '' @ name @ ''; we are treating it as '' @ decl_name d
                          @ '' because it is so close''),
                 Note ''Declared here''])"
  using assms by (simp add: AnalyseNameRef_def)

text \<open>
  C5. The claim: the distance of a name to itself is 0 (this holds, see \<open>osa_same\<close>),
  and an unresolved name whose nearest declared symbol is at distance exactly 1, with a
  name of the same length of more than two characters, is retargeted to that declaration
  with a warning instead of an unknown-symbol error. The function indexes its table of
  \<open>(m + 1) * (n + 1)\<close> cells with \<^verbatim>\<open>d[(i * n) + j]\<close>, so that rows overlap, and does not
  return the optimal string alignment distance: for \<open>bra\<close> and \<open>a\<close> it returns 1, where
  the distance is 2. With the declarations \<open>a\<close> and \<open>bar\<close> in scope, the nearest
  declared symbol of the unresolved name \<open>bra\<close> is \<open>bar\<close>, at distance 1 and of the
  same length 3; the code takes \<open>a\<close> for the closest declaration and emits the
  unknown-symbol error.
\<close>

theorem spelling_correction_misses_nearest:
  "optimal_string_alignment_distance ''bra'' ''a'' = 1 \<and>
   osa_distance_spec ''bra'' ''a'' = 2 \<and>
   osa_distance_spec ''bra'' ''bar'' = 1 \<and>
   AnalyseNameRef
     \<lparr>find_recursive = [], module_imports = [],
      all_symbols_recursive =
        [\<lparr>decl_ident = 1, decl_name = ''a'', decl_type = BuiltinType BuiltinInt,
           decl_lvalue = True, decl_is_FuncDecl = False, decl_sema = Done\<rparr>,
         \<lparr>decl_ident = 2, decl_name = ''bar'', decl_type = BuiltinType BuiltinInt,
           decl_lvalue = True, decl_is_FuncDecl = False, decl_sema = Done\<rparr>],
      top_level_find = [], overload_set_errored = False\<rparr>
     ''bra''
   = Inr (\<lparr>nr_target = None, nr_type = BuiltinType BuiltinUnknown, nr_lvalue = False,
           nr_errored = True\<rparr>,
          [Error ''Unknown symbol bra'', Note ''Maybe you meant a, defined here?''])"
proof -
  have a: "optimal_string_alignment_distance ''bra'' ''a'' = 1" by code_simp
  have b: "optimal_string_alignment_distance ''bra'' ''bar'' = 1" by code_simp
  have c: "osa_distance_spec ''bra'' ''a'' = 2" by code_simp
  have d: "osa_distance_spec ''bra'' ''bar'' = 1" by code_simp
  show ?thesis
    by (simp add: a b c d AnalyseNameRef_def unknown_symbol_def Let_def)
qed

subsection \<open>The dangling-array tracker\<close>

lemma emit_all_dangling [simp]: "dangling_dynarrays (emit_all ds st) = dangling_dynarrays st"
  by (induction ds st rule: emit_all.induct) (simp_all add: emit_Error_def)

lemma analyse_step_dangling:
  assumes "analyse_step ctx ret_type s st = Inr st'"
  shows "set (dangling_dynarrays st') =
           (set (dangling_dynarrays st) - {d. step_removes s d}) \<union> set_option (step_declares s)"
proof (cases s)
  case (StepVarDecl d x init n)
  with assms show ?thesis
    by (auto simp: AnalyseVarDecl_def Let_def emit_Error_def
             split: option.splits prod.splits if_splits)
next
  case (StepUnaryMinus operand n)
  with assms show ?thesis
    by (cases operand)
       (auto simp: AnalyseUnaryMinus_def Let_def emit_Error_def erase_dangling_def
             split: option.splits prod.splits if_splits sum.splits)
next
  case (StepReturn v n)
  with assms show ?thesis
    by (auto simp: AnalyseReturn_def Let_def emit_Error_def erase_dangling_def
             split: option.splits prod.splits if_splits sum.splits)
next
  case (StepOther ds)
  with assms show ?thesis by auto
qed

lemma leftover_Nil [simp]: "leftover [] = {}"
  by (simp add: leftover_def)

lemma leftover_Cons:
  "leftover (a # ss) =
     leftover ss \<union> {d. step_declares a = Some d \<and> (\<forall>x \<in> set ss. \<not> step_removes x d)}"
proof (intro set_eqI iffI)
  fix d assume "d \<in> leftover (a # ss)"
  then obtain pre s post where eq: "a # ss = pre @ s # post"
    and decl: "step_declares s = Some d" and rem: "\<forall>x \<in> set post. \<not> step_removes x d"
    unfolding leftover_def by blast
  show "d \<in> leftover ss \<union>
      {d. step_declares a = Some d \<and> (\<forall>x \<in> set ss. \<not> step_removes x d)}"
  proof (cases pre)
    case Nil
    with eq decl rem show ?thesis by simp
  next
    case (Cons b pre')
    with eq have "ss = pre' @ s # post" by simp
    with decl rem have "d \<in> leftover ss" unfolding leftover_def by blast
    then show ?thesis by simp
  qed
next
  fix d assume "d \<in> leftover ss \<union>
      {d. step_declares a = Some d \<and> (\<forall>x \<in> set ss. \<not> step_removes x d)}"
  then consider (old) "d \<in> leftover ss"
    | (new) "step_declares a = Some d" "\<forall>x \<in> set ss. \<not> step_removes x d"
    by blast
  then show "d \<in> leftover (a # ss)"
  proof cases
    case old
    then obtain pre s post where "ss = pre @ s # post" "step_declares s = Some d"
      "\<forall>x \<in> set post. \<not> step_removes x d"
      unfolding leftover_def by blast
    then have "a # ss = (a # pre) @ s # post \<and> step_declares s = Some d \<and>
        (\<forall>x \<in> set post. \<not> step_removes x d)" by simp
    then show ?thesis unfolding leftover_def by blast
  next
    case new
    then have "a # ss = [] @ a # ss \<and> step_declares a = Some d \<and>
        (\<forall>x \<in> set ss. \<not> step_removes x d)" by simp
    then show ?thesis unfolding leftover_def by blast
  qed
qed

lemma step_declares_not_removes:
  "step_declares s = Some d \<Longrightarrow> \<not> step_removes s d'"
  by (cases s) simp_all

lemma analyse_steps_dangling:
  assumes "analyse_steps ctx ret_type steps st = Inr st'"
  shows "set (dangling_dynarrays st') =
           {d \<in> set (dangling_dynarrays st). \<forall>x \<in> set steps. \<not> step_removes x d}
           \<union> leftover steps"
  using assms
proof (induction steps arbitrary: st)
  case Nil
  then show ?case by simp
next
  case (Cons a ss)
  from Cons.prems obtain st1 where a: "analyse_step ctx ret_type a st = Inr st1"
    and ss: "analyse_steps ctx ret_type ss st1 = Inr st'"
    by (auto split: sum.splits)
  have d1: "set (dangling_dynarrays st1) =
      (set (dangling_dynarrays st) - {d. step_removes a d}) \<union> set_option (step_declares a)"
    by (rule analyse_step_dangling [OF a])
  have "set (dangling_dynarrays st') =
      {d \<in> set (dangling_dynarrays st1). \<forall>x \<in> set ss. \<not> step_removes x d} \<union> leftover ss"
    by (rule Cons.IH [OF ss])
  also have "\<dots> =
      {d \<in> set (dangling_dynarrays st). \<forall>x \<in> set (a # ss). \<not> step_removes x d}
      \<union> leftover (a # ss)"
    unfolding d1 leftover_Cons
    using step_declares_not_removes [of a]
    by (cases "step_declares a") auto
  finally show ?case .
qed

lemma report_dangling_diags:
  "diags (report_dangling ds st) =
     diags st @ map (\<lambda>d. Error ''You forgot to free this dynamic array'') ds"
  by (induction ds arbitrary: st) (simp_all add: emit_Error_def)

lemma report_dangling_dangling:
  "dangling_dynarrays (report_dangling ds st) = dangling_dynarrays st"
  by (induction ds arbitrary: st) (simp_all add: emit_Error_def)

lemma emit_all_diags: "diags (emit_all ds st) = diags st @ ds"
  by (induction ds st rule: emit_all.induct) (simp_all add: emit_Error_def)

lemma Discard_diags_cases:
  "set (snd (Discard e)) \<subseteq>
     {Error ''Discarding return value of function not marked as discardable'',
      Warning ''Expression result unused''}"
  by (auto simp: Discard_def Let_def split: prod.splits bool.splits if_splits)

lemma return_last_effect:
  "\<exists>rest. diags (snd (return_last ctx ret_type e st)) = diags st @ rest \<and>
          Error ''You forgot to free this dynamic array'' \<notin> set rest \<and>
          dangling_dynarrays (snd (return_last ctx ret_type e st)) = dangling_dynarrays st"
  by (auto simp: return_last_def emit_Error_def split: prod.splits)

lemma finish_body_effect:
  "\<exists>rest. diags (snd (finish_body ctx name ret_type body st)) = diags st @ rest \<and>
          Error ''You forgot to free this dynamic array'' \<notin> set rest \<and>
          dangling_dynarrays (snd (finish_body ctx name ret_type body st))
            = dangling_dynarrays st"
proof (cases "is_void ret_type")
  case True
  define body' where "body' =
              (case body of
                 BlockExpr children n \<Rightarrow>
                   if children = [] \<or> \<not> is_ReturnExpr (last children)
                   then BlockExpr (children @ [new_ReturnExpr None]) n
                   else body
               | _ \<Rightarrow> body)"
  have f: "finish_body ctx name ret_type body st =
      (fst (Discard body'), emit_all (snd (Discard body')) st)"
    using True unfolding finish_body_def body'_def Let_def
    by (simp add: case_prod_beta)
  have "Error ''You forgot to free this dynamic array'' \<notin> set (snd (Discard body'))"
    using Discard_diags_cases [of body'] by auto
  then show ?thesis unfolding f by (simp add: emit_all_diags)
next
  case False
  show ?thesis
  proof (cases "\<exists>children n. body = BlockExpr children n")
    case True
    then obtain children n where b: "body = BlockExpr children n" by blast
    show ?thesis
    proof (cases "children = []")
      case True
      with b \<open>\<not> is_void ret_type\<close> show ?thesis
        by (simp add: finish_body_def emit_Error_def)
    next
      case False
      with b \<open>\<not> is_void ret_type\<close>
      have "snd (finish_body ctx name ret_type body st) =
          snd (return_last ctx ret_type (last children) st)"
        by (simp add: finish_body_def case_prod_beta)
      then show ?thesis using return_last_effect [of ctx ret_type "last children" st] by simp
    qed
  next
    case False
    with \<open>\<not> is_void ret_type\<close>
    have "finish_body ctx name ret_type body st = return_last ctx ret_type body st"
      by (cases body) (simp_all add: finish_body_def)
    then show ?thesis using return_last_effect [of ctx ret_type body st] by simp
  qed
qed

text \<open>
  The claim C6 as it is stated fails in its last part: in a function that returns \<open>int\<close>
  and whose body declares the dynamic array \<open>d\<close> and then returns the pointer \<open>p\<close>,
  the return emits an error, the error flag of the context is set, and
  \<^verbatim>\<open>AnalyseFunctionBody\<close> returns at \<^verbatim>\<open>if (context->has_error()) return;\<close>: the
  declaration is still in the dangling set and no forgot-to-free error is emitted.
\<close>

theorem leftover_not_reported_after_error:
  "AnalyseFunctionBody
     \<lparr>type_size = (\<lambda>t. 64), evaluate = (\<lambda>e. None)\<rparr> ''f'' [] (BuiltinType BuiltinInt)
     [StepVarDecl 1 ''d'' None
        \<lparr>n_type = DynamicArrayType (BuiltinType BuiltinInt), n_lvalue = False,
           n_sema = InProgress\<rparr>,
      StepReturn
        (Some (NameRefExpr ''p'' (Some 2)
           \<lparr>n_type = PointerType (BuiltinType BuiltinByte), n_lvalue = True, n_sema = Done\<rparr>))
        \<lparr>n_type = BuiltinType BuiltinUnknown, n_lvalue = False, n_sema = InProgress\<rparr>]
     (Some (BlockExpr
        [VarDecl 1 ''d'' None
           \<lparr>n_type = DynamicArrayType (BuiltinType BuiltinInt), n_lvalue = True,
              n_sema = Done\<rparr>,
         ReturnExpr
           (Some (CastExpr LValueToRValueConv
              (NameRefExpr ''p'' (Some 2)
                 \<lparr>n_type = PointerType (BuiltinType BuiltinByte), n_lvalue = True,
                    n_sema = Done\<rparr>)
              \<lparr>n_type = PointerType (BuiltinType BuiltinByte), n_lvalue = False,
                 n_sema = Done\<rparr>))
           \<lparr>n_type = BuiltinType BuiltinUnknown, n_lvalue = False, n_sema = Done\<rparr>]
        \<lparr>n_type = BuiltinType BuiltinUnknown, n_lvalue = False, n_sema = Done\<rparr>))
     \<lparr>dangling_dynarrays = [], diags = [], error_flag = False\<rparr>
   = Inr (Some (BlockExpr
        [VarDecl 1 ''d'' None
           \<lparr>n_type = DynamicArrayType (BuiltinType BuiltinInt), n_lvalue = True,
              n_sema = Done\<rparr>,
         ReturnExpr
           (Some (CastExpr LValueToRValueConv
              (NameRefExpr ''p'' (Some 2)
                 \<lparr>n_type = PointerType (BuiltinType BuiltinByte), n_lvalue = True,
                    n_sema = Done\<rparr>)
              \<lparr>n_type = PointerType (BuiltinType BuiltinByte), n_lvalue = False,
                 n_sema = Done\<rparr>))
           \<lparr>n_type = BuiltinType BuiltinUnknown, n_lvalue = False, n_sema = Done\<rparr>]
        \<lparr>n_type = BuiltinType BuiltinUnknown, n_lvalue = False, n_sema = Done\<rparr>),
      \<lparr>dangling_dynarrays = [1],
          diags = [Error ''Type of return expression is not convertible to return type''],
          error_flag = True\<rparr>)"
proof -
  let ?p = "NameRefExpr ''p'' (Some 2)
        \<lparr>n_type = PointerType (BuiltinType BuiltinByte), n_lvalue = True, n_sema = Done\<rparr>"
  have l: "LValueToRValue ?p False = WrapWithCast ?p (type_of ?p) LValueToRValueConv"
    by (rule LValueToRValue_lvalue) (simp_all add: sema_errored_def sema_def is_lvalue_def)
  have c: "Convert \<lparr>type_size = (\<lambda>t. 64), evaluate = (\<lambda>e. None)\<rparr> ?p (BuiltinType BuiltinInt) =
      (False, WrapWithCast ?p (type_of ?p) LValueToRValueConv)"
    by (simp add: Convert_def ConvertImpl_def ConvertImpl_rvalue_def
        ConvertImpl_integers_def l Deproceduring_def WrapWithCast_def
        sema_errored_def sema_def type_of_def is_lvalue_def type_sema_errored_def is_void_def
        is_bool_def Equal_def VoidPtr_def Let_def ConversionImpossible_def)
  show ?thesis
    by (simp add: AnalyseFunctionBody_def AnalyseVarDecl_def AnalyseReturn_def c
        DeclTypeDecay_def emit_Error_def type_of_def is_void_def Let_def)
qed

text \<open>
  The function \<open>f : [int dynamic]() { d :: [int dynamic]; d }\<close> returns \<open>d\<close> as the
  value of its last expression. The loop that reports the leftover dynamic arrays runs
  before \<^verbatim>\<open>AnalyseFunctionBody\<close> wraps the last expression in a return expression,
  which is not analysed: \<open>d\<close> is reported, although the comment above the loop speaks
  of the dynamic arrays that are not returned, and although \<open>return d\<close> in the same
  place takes \<open>d\<close> out of the dangling set.
\<close>

lemma implicitly_returned_reported:
  "AnalyseFunctionBody
     \<lparr>type_size = (\<lambda>t. 64), evaluate = (\<lambda>e. None)\<rparr> ''f'' []
     (DynamicArrayType (BuiltinType BuiltinInt))
     [StepVarDecl 1 ''d'' None
        \<lparr>n_type = DynamicArrayType (BuiltinType BuiltinInt), n_lvalue = False,
           n_sema = InProgress\<rparr>,
      StepOther []]
     (Some (BlockExpr
        [VarDecl 1 ''d'' None
           \<lparr>n_type = DynamicArrayType (BuiltinType BuiltinInt), n_lvalue = True,
              n_sema = Done\<rparr>,
         NameRefExpr ''d'' (Some 1)
           \<lparr>n_type = DynamicArrayType (BuiltinType BuiltinInt), n_lvalue = True,
              n_sema = Done\<rparr>]
        \<lparr>n_type = DynamicArrayType (BuiltinType BuiltinInt), n_lvalue = True,
           n_sema = Done\<rparr>))
     \<lparr>dangling_dynarrays = [], diags = [], error_flag = False\<rparr>
   = Inr (Some (BlockExpr
        [VarDecl 1 ''d'' None
           \<lparr>n_type = DynamicArrayType (BuiltinType BuiltinInt), n_lvalue = True,
              n_sema = Done\<rparr>,
         new_ReturnExpr
           (Some (CastExpr LValueToRValueConv
              (NameRefExpr ''d'' (Some 1)
                 \<lparr>n_type = DynamicArrayType (BuiltinType BuiltinInt), n_lvalue = True,
                    n_sema = Done\<rparr>)
              \<lparr>n_type = DynamicArrayType (BuiltinType BuiltinInt), n_lvalue = False,
                 n_sema = Done\<rparr>))]
        \<lparr>n_type = DynamicArrayType (BuiltinType BuiltinInt), n_lvalue = True,
           n_sema = Done\<rparr>),
      \<lparr>dangling_dynarrays = [1],
          diags = [Error ''You forgot to free this dynamic array''],
          error_flag = True\<rparr>) \<and>
   analyse_steps \<lparr>type_size = (\<lambda>t. 64), evaluate = (\<lambda>e. None)\<rparr>
     (DynamicArrayType (BuiltinType BuiltinInt))
     [StepVarDecl 1 ''d'' None
        \<lparr>n_type = DynamicArrayType (BuiltinType BuiltinInt), n_lvalue = False,
           n_sema = InProgress\<rparr>,
      StepReturn
        (Some (NameRefExpr ''d'' (Some 1)
           \<lparr>n_type = DynamicArrayType (BuiltinType BuiltinInt), n_lvalue = True,
              n_sema = Done\<rparr>))
        \<lparr>n_type = BuiltinType BuiltinUnknown, n_lvalue = False, n_sema = InProgress\<rparr>]
     \<lparr>dangling_dynarrays = [], diags = [], error_flag = False\<rparr>
   = Inr \<lparr>dangling_dynarrays = [], diags = [], error_flag = False\<rparr>"
proof -
  let ?d = "NameRefExpr ''d'' (Some 1)
        \<lparr>n_type = DynamicArrayType (BuiltinType BuiltinInt), n_lvalue = True, n_sema = Done\<rparr>"
  let ?c = "CastExpr LValueToRValueConv ?d
        \<lparr>n_type = DynamicArrayType (BuiltinType BuiltinInt), n_lvalue = False, n_sema = Done\<rparr>"
  have r: "LValueToRValue ?d True = ?c"
    using LValueToRValue_lvalue [of ?d True]
    by (simp add: sema_errored_def sema_def is_lvalue_def WrapWithCast_def type_of_def)
  have c: "Convert \<lparr>type_size = (\<lambda>t. 64), evaluate = (\<lambda>e. None)\<rparr> ?d
      (DynamicArrayType (BuiltinType BuiltinInt)) = (True, ?d)"
    by (simp add: Convert_def ConvertImpl_def sema_errored_def sema_def type_of_def
        type_sema_errored_def is_void_def Equal_def NoOp_def)
  have a: "AnalyseFunctionBody
     \<lparr>type_size = (\<lambda>t. 64), evaluate = (\<lambda>e. None)\<rparr> ''f'' []
     (DynamicArrayType (BuiltinType BuiltinInt))
     [StepVarDecl 1 ''d'' None
        \<lparr>n_type = DynamicArrayType (BuiltinType BuiltinInt), n_lvalue = False,
           n_sema = InProgress\<rparr>,
      StepOther []]
     (Some (BlockExpr
        [VarDecl 1 ''d'' None
           \<lparr>n_type = DynamicArrayType (BuiltinType BuiltinInt), n_lvalue = True,
              n_sema = Done\<rparr>, ?d]
        \<lparr>n_type = DynamicArrayType (BuiltinType BuiltinInt), n_lvalue = True,
           n_sema = Done\<rparr>))
     \<lparr>dangling_dynarrays = [], diags = [], error_flag = False\<rparr>
   = Inr (Some (BlockExpr
        [VarDecl 1 ''d'' None
           \<lparr>n_type = DynamicArrayType (BuiltinType BuiltinInt), n_lvalue = True,
              n_sema = Done\<rparr>,
         new_ReturnExpr (Some ?c)]
        \<lparr>n_type = DynamicArrayType (BuiltinType BuiltinInt), n_lvalue = True,
           n_sema = Done\<rparr>),
      \<lparr>dangling_dynarrays = [1],
          diags = [Error ''You forgot to free this dynamic array''],
          error_flag = True\<rparr>)"
    by (simp add: AnalyseFunctionBody_def AnalyseVarDecl_def finish_body_def return_last_def
        c r DeclTypeDecay_def emit_Error_def type_of_def is_void_def Let_def
        del: One_nat_def)
  have b: "analyse_steps \<lparr>type_size = (\<lambda>t. 64), evaluate = (\<lambda>e. None)\<rparr>
     (DynamicArrayType (BuiltinType BuiltinInt))
     [StepVarDecl 1 ''d'' None
        \<lparr>n_type = DynamicArrayType (BuiltinType BuiltinInt), n_lvalue = False,
           n_sema = InProgress\<rparr>,
      StepReturn (Some ?d)
        \<lparr>n_type = BuiltinType BuiltinUnknown, n_lvalue = False, n_sema = InProgress\<rparr>]
     \<lparr>dangling_dynarrays = [], diags = [], error_flag = False\<rparr>
   = Inr \<lparr>dangling_dynarrays = [], diags = [], error_flag = False\<rparr>"
    by (simp add: AnalyseVarDecl_def AnalyseReturn_def c erase_dangling_def
        DeclTypeDecay_def type_of_def is_void_def Let_def del: One_nat_def)
  from a b show ?thesis by (rule conjI)
qed

text \<open>
  C6, amended. Let the analysis of the body of a function run through, from the state
  that the declaration of the parameters and the clearing of the dangling set leave, and
  let the function not return a dynamic array implicitly, as the value of a last
  expression that is a name reference. Then the dangling set holds exactly the variables
  that the body declares with a dynamic-array type and that no later step frees with
  unary minus or returns through a name reference in a return expression; it holds no
  parameter (unless the body declares it); and \<^verbatim>\<open>AnalyseFunctionBody\<close> returns, leaves
  the dangling set as it is, and emits, first after the diagnostics of the body, one
  forgot-to-free error for every entry of the set if the error flag of the context is not
  set after the body, and nothing at all if it is set; what it emits afterwards is no
  forgot-to-free error.
\<close>

theorem dangling_tracker:
  assumes body: "analyse_steps ctx ret_type steps
                   ((declare_params ctx ps st)\<lparr>dangling_dynarrays := []\<rparr>) = Inr st3"
    and explicit: "\<not> returns_dynarray_implicitly ret_type b"
  shows "set (dangling_dynarrays st3) = leftover steps \<and>
         (\<forall>p \<in> set ps. (\<forall>s \<in> set steps. step_declares s \<noteq> Some (p_decl p)) \<longrightarrow>
                          p_decl p \<notin> set (dangling_dynarrays st3)) \<and>
         (\<exists>b' st' rest.
            AnalyseFunctionBody ctx name ps ret_type steps (Some b) st = Inr (Some b', st') \<and>
            dangling_dynarrays st' = dangling_dynarrays st3 \<and>
            diags st' = diags st3 @
              (if error_flag st3 then []
               else map (\<lambda>d. Error ''You forgot to free this dynamic array'')
                      (dangling_dynarrays st3) @ rest) \<and>
            Error ''You forgot to free this dynamic array'' \<notin> set rest)"
proof -
  have set: "set (dangling_dynarrays st3) = leftover steps"
    using analyse_steps_dangling [OF body] by simp
  have params: "\<forall>p \<in> set ps. (\<forall>s \<in> set steps. step_declares s \<noteq> Some (p_decl p)) \<longrightarrow>
                          p_decl p \<notin> set (dangling_dynarrays st3)"
    unfolding set leftover_def by auto
  have run: "\<exists>b' st' rest.
            AnalyseFunctionBody ctx name ps ret_type steps (Some b) st = Inr (Some b', st') \<and>
            dangling_dynarrays st' = dangling_dynarrays st3 \<and>
            diags st' = diags st3 @
              (if error_flag st3 then []
               else map (\<lambda>d. Error ''You forgot to free this dynamic array'')
                      (dangling_dynarrays st3) @ rest) \<and>
            Error ''You forgot to free this dynamic array'' \<notin> set rest"
  proof (cases "error_flag st3")
    case True
    then have "AnalyseFunctionBody ctx name ps ret_type steps (Some b) st = Inr (Some b, st3)"
      unfolding AnalyseFunctionBody_def Let_def body by simp
    with True show ?thesis by (intro exI [of _ b] exI [of _ st3] exI [of _ "[]"]) simp
  next
    case False
    let ?st4 = "report_dangling (dangling_dynarrays st3) st3"
    let ?r = "finish_body ctx name ret_type b ?st4"
    from False have a: "AnalyseFunctionBody ctx name ps ret_type steps (Some b) st =
        Inr (Some (fst ?r), snd ?r)"
      unfolding AnalyseFunctionBody_def Let_def body by (simp add: case_prod_beta)
    from finish_body_effect [of ctx name ret_type b ?st4]
    obtain rest where rest: "diags (snd ?r) = diags ?st4 @ rest"
      "Error ''You forgot to free this dynamic array'' \<notin> set rest"
      "dangling_dynarrays (snd ?r) = dangling_dynarrays ?st4"
      by blast
    from a rest False show ?thesis
      by (intro exI [of _ "fst ?r"] exI [of _ "snd ?r"] exI [of _ rest])
         (simp add: report_dangling_diags report_dangling_dangling)
  qed
  from set params run show ?thesis by blast
qed

text \<open>
  A function that returns a dynamic array, with the dynamic-array parameter \<open>a\<close>, whose
  body declares the dynamic arrays \<open>d\<close>, \<open>e\<close> and \<open>g\<close>, frees \<open>d\<close> and returns
  \<open>g\<close>: only \<open>e\<close> is left and reported.
\<close>

theorem dangling_tracker_witness:
  "leftover
     [StepVarDecl 1 ''d'' None
        \<lparr>n_type = DynamicArrayType (BuiltinType BuiltinInt), n_lvalue = False,
           n_sema = InProgress\<rparr>,
      StepVarDecl 2 ''e'' None
        \<lparr>n_type = DynamicArrayType (BuiltinType BuiltinInt), n_lvalue = False,
           n_sema = InProgress\<rparr>,
      StepVarDecl 3 ''g'' None
        \<lparr>n_type = DynamicArrayType (BuiltinType BuiltinInt), n_lvalue = False,
           n_sema = InProgress\<rparr>,
      StepUnaryMinus
        (NameRefExpr ''d'' (Some 1)
           \<lparr>n_type = DynamicArrayType (BuiltinType BuiltinInt), n_lvalue = True,
              n_sema = Done\<rparr>)
        \<lparr>n_type = BuiltinType BuiltinUnknown, n_lvalue = False, n_sema = InProgress\<rparr>,
      StepReturn
        (Some (NameRefExpr ''g'' (Some 3)
           \<lparr>n_type = DynamicArrayType (BuiltinType BuiltinInt), n_lvalue = True,
              n_sema = Done\<rparr>))
        \<lparr>n_type = BuiltinType BuiltinUnknown, n_lvalue = False, n_sema = InProgress\<rparr>]
   = {2} \<and>
   (\<exists>b' st' rest. AnalyseFunctionBody \<lparr>type_size = (\<lambda>t. 64), evaluate = (\<lambda>e. None)\<rparr> ''f''
      [\<lparr>p_name = ''a'', p_type = DynamicArrayType (BuiltinType BuiltinInt), p_decl = 0,
         p_conflict = False\<rparr>]
      (DynamicArrayType (BuiltinType BuiltinInt))
     [StepVarDecl 1 ''d'' None
        \<lparr>n_type = DynamicArrayType (BuiltinType BuiltinInt), n_lvalue = False,
           n_sema = InProgress\<rparr>,
      StepVarDecl 2 ''e'' None
        \<lparr>n_type = DynamicArrayType (BuiltinType BuiltinInt), n_lvalue = False,
           n_sema = InProgress\<rparr>,
      StepVarDecl 3 ''g'' None
        \<lparr>n_type = DynamicArrayType (BuiltinType BuiltinInt), n_lvalue = False,
           n_sema = InProgress\<rparr>,
      StepUnaryMinus
        (NameRefExpr ''d'' (Some 1)
           \<lparr>n_type = DynamicArrayType (BuiltinType BuiltinInt), n_lvalue = True,
              n_sema = Done\<rparr>)
        \<lparr>n_type = BuiltinType BuiltinUnknown, n_lvalue = False, n_sema = InProgress\<rparr>,
      StepReturn
        (Some (NameRefExpr ''g'' (Some 3)
           \<lparr>n_type = DynamicArrayType (BuiltinType BuiltinInt), n_lvalue = True,
              n_sema = Done\<rparr>))
        \<lparr>n_type = BuiltinType BuiltinUnknown, n_lvalue = False, n_sema = InProgress\<rparr>]
      (Some (BlockExpr
         [VarDecl 1 ''d'' None
            \<lparr>n_type = DynamicArrayType (BuiltinType BuiltinInt), n_lvalue = True,
               n_sema = Done\<rparr>,
          VarDecl 2 ''e'' None
            \<lparr>n_type = DynamicArrayType (BuiltinType BuiltinInt), n_lvalue = True,
               n_sema = Done\<rparr>,
          VarDecl 3 ''g'' None
            \<lparr>n_type = DynamicArrayType (BuiltinType BuiltinInt), n_lvalue = True,
               n_sema = Done\<rparr>,
          UnaryExpr Minus
            (NameRefExpr ''d'' (Some 1)
               \<lparr>n_type = DynamicArrayType (BuiltinType BuiltinInt), n_lvalue = True,
                  n_sema = Done\<rparr>)
            \<lparr>n_type = BuiltinType BuiltinVoid, n_lvalue = False, n_sema = Done\<rparr>,
          ReturnExpr
            (Some (CastExpr LValueToRValueConv
               (NameRefExpr ''g'' (Some 3)
                  \<lparr>n_type = DynamicArrayType (BuiltinType BuiltinInt), n_lvalue = True,
                     n_sema = Done\<rparr>)
               \<lparr>n_type = DynamicArrayType (BuiltinType BuiltinInt), n_lvalue = False,
                  n_sema = Done\<rparr>))
            \<lparr>n_type = BuiltinType BuiltinUnknown, n_lvalue = False, n_sema = Done\<rparr>]
         \<lparr>n_type = BuiltinType BuiltinUnknown, n_lvalue = False, n_sema = Done\<rparr>))
      \<lparr>dangling_dynarrays = [], diags = [], error_flag = False\<rparr> = Inr (Some b', st') \<and>
      dangling_dynarrays st' = [2] \<and>
      diags st' = Error ''You forgot to free this dynamic array'' # rest \<and>
      Error ''You forgot to free this dynamic array'' \<notin> set rest)"
proof -
  let ?ps = "[\<lparr>p_name = ''a'', p_type = DynamicArrayType (BuiltinType BuiltinInt), p_decl = 0,
         p_conflict = False\<rparr>]"
  let ?g = "NameRefExpr ''g'' (Some 3)
        \<lparr>n_type = DynamicArrayType (BuiltinType BuiltinInt), n_lvalue = True, n_sema = Done\<rparr>"
  let ?c = "CastExpr LValueToRValueConv ?g
        \<lparr>n_type = DynamicArrayType (BuiltinType BuiltinInt), n_lvalue = False, n_sema = Done\<rparr>"
  let ?steps = "[StepVarDecl 1 ''d'' None
        \<lparr>n_type = DynamicArrayType (BuiltinType BuiltinInt), n_lvalue = False,
           n_sema = InProgress\<rparr>,
      StepVarDecl 2 ''e'' None
        \<lparr>n_type = DynamicArrayType (BuiltinType BuiltinInt), n_lvalue = False,
           n_sema = InProgress\<rparr>,
      StepVarDecl 3 ''g'' None
        \<lparr>n_type = DynamicArrayType (BuiltinType BuiltinInt), n_lvalue = False,
           n_sema = InProgress\<rparr>,
      StepUnaryMinus
        (NameRefExpr ''d'' (Some 1)
           \<lparr>n_type = DynamicArrayType (BuiltinType BuiltinInt), n_lvalue = True,
              n_sema = Done\<rparr>)
        \<lparr>n_type = BuiltinType BuiltinUnknown, n_lvalue = False, n_sema = InProgress\<rparr>,
      StepReturn (Some ?g)
        \<lparr>n_type = BuiltinType BuiltinUnknown, n_lvalue = False, n_sema = InProgress\<rparr>]"
  let ?b = "BlockExpr
         [VarDecl 1 ''d'' None
            \<lparr>n_type = DynamicArrayType (BuiltinType BuiltinInt), n_lvalue = True,
               n_sema = Done\<rparr>,
          VarDecl 2 ''e'' None
            \<lparr>n_type = DynamicArrayType (BuiltinType BuiltinInt), n_lvalue = True,
               n_sema = Done\<rparr>,
          VarDecl 3 ''g'' None
            \<lparr>n_type = DynamicArrayType (BuiltinType BuiltinInt), n_lvalue = True,
               n_sema = Done\<rparr>,
          UnaryExpr Minus
            (NameRefExpr ''d'' (Some 1)
               \<lparr>n_type = DynamicArrayType (BuiltinType BuiltinInt), n_lvalue = True,
                  n_sema = Done\<rparr>)
            \<lparr>n_type = BuiltinType BuiltinVoid, n_lvalue = False, n_sema = Done\<rparr>,
          ReturnExpr (Some ?c)
            \<lparr>n_type = BuiltinType BuiltinUnknown, n_lvalue = False, n_sema = Done\<rparr>]
         \<lparr>n_type = BuiltinType BuiltinUnknown, n_lvalue = False, n_sema = Done\<rparr>"
  let ?st = "\<lparr>dangling_dynarrays = [], diags = [], error_flag = False\<rparr>"
  let ?ctx = "\<lparr>type_size = (\<lambda>t. 64), evaluate = (\<lambda>e. None)\<rparr> :: Context"
  let ?ret = "DynamicArrayType (BuiltinType BuiltinInt)"
  have c: "Convert ?ctx ?g ?ret = (True, ?g)"
    by (simp add: Convert_def ConvertImpl_def sema_errored_def sema_def type_of_def
        type_sema_errored_def is_void_def Equal_def NoOp_def)
  have run: "analyse_steps ?ctx ?ret ?steps
      ((declare_params ?ctx ?ps ?st)\<lparr>dangling_dynarrays := []\<rparr>)
      = Inr \<lparr>dangling_dynarrays = [2], diags = [], error_flag = False\<rparr>"
    by (simp add: AnalyseVarDecl_def AnalyseUnaryMinus_def AnalyseReturn_def c
        DeclTypeDecay_def erase_dangling_def ok_def sema_def type_of_def is_void_def Let_def)
  have explicit: "\<not> returns_dynarray_implicitly ?ret ?b"
    by (simp add: returns_dynarray_implicitly_def type_of_def)
  note t = dangling_tracker [OF run explicit, where name = "''f''"]
  from t [THEN conjunct1] have "leftover ?steps = {2}" by simp
  moreover from t [THEN conjunct2, THEN conjunct2]
  have "\<exists>b' st' rest. AnalyseFunctionBody ?ctx ''f'' ?ps ?ret ?steps (Some ?b) ?st
        = Inr (Some b', st') \<and>
      dangling_dynarrays st' = [2] \<and>
      diags st' = Error ''You forgot to free this dynamic array'' # rest \<and>
      Error ''You forgot to free this dynamic array'' \<notin> set rest"
    by simp
  ultimately show ?thesis by blast
qed

subsection \<open>The module loader\<close>

lemma check_magic_bytes_eq:
  "check_magic_bytes ms blob =
     (if prefix ms blob then None
      else if prefix blob ms then Some OutOfRange else Some AssertInvalidMagic)"
  by (induction ms blob rule: check_magic_bytes.induct) auto

lemma first_successful_load_passes_on:
  "\<forall>c \<in> set pre. passes_on L c \<Longrightarrow>
     first_successful_load L (pre @ rest) tried =
       first_successful_load L rest (tried @ map snd pre)"
proof (induction pre arbitrary: tried)
  case Nil
  show ?case by simp
next
  case (Cons c pre)
  obtain k p where c: "c = (k, p)" by (cases c)
  from Cons.prems have "passes_on L c" by simp
  then have step: "first_successful_load L (c # pre @ rest) tried =
      first_successful_load L (pre @ rest) (tried @ [p])"
    unfolding c passes_on_def by auto
  from Cons.prems have "\<forall>c \<in> set pre. passes_on L c" by simp
  from Cons.IH [OF this, of "tried @ [p]"] step show ?case
    by (simp add: c)
qed

lemma try_gmeta_first:
  "first_successful_load L ((Gmeta, gmeta_path d name) # rest) tried =
     (case try_get_metadata_blob_from_gmeta L name d tried of
        Inl f \<Rightarrow> Inl f
      | Inr (True, t) \<Rightarrow> Inr t
      | Inr (False, t) \<Rightarrow> first_successful_load L rest t)"
  by (auto simp: try_get_metadata_blob_from_gmeta_def attempt_load_def load_blob_def
        check_magic_bytes_eq Let_def split: option.splits)

lemma try_object_paths_first:
  assumes "\<forall>p \<in> set ps. attempt_load L Object p \<noteq> NotDeserialised"
  shows "first_successful_load L (map (Pair Object) ps @ rest) tried =
     (case try_object_paths L ps tried of
        Inl f \<Rightarrow> Inl f
      | Inr (True, t) \<Rightarrow> Inr t
      | Inr (False, t) \<Rightarrow> first_successful_load L rest t)"
  using assms
proof (induction ps arbitrary: tried)
  case Nil
  show ?case by simp
next
  case (Cons p ps)
  from Cons.prems have rest: "\<forall>p \<in> set ps. attempt_load L Object p \<noteq> NotDeserialised"
    and p: "attempt_load L Object p \<noteq> NotDeserialised" by simp_all
  show ?case
  proof (cases "file_read L p")
    case None
    then have "attempt_load L Object p = Missing" by (simp add: attempt_load_def)
    with None Cons.IH [OF rest, of "tried @ [p]"] show ?thesis by simp
  next
    case (Some obj)
    with p show ?thesis
      by (auto simp: attempt_load_def load_blob_def check_magic_bytes_eq Let_def
            split: if_splits)
  qed
qed

lemma try_assembly_first:
  "first_successful_load L ((Assembly, assembly_path d name) # rest) tried =
     (case try_get_metadata_blob_from_assembly L name d tried of
        Inl f \<Rightarrow> Inl f
      | Inr (True, t) \<Rightarrow> Inr t
      | Inr (False, t) \<Rightarrow> first_successful_load L rest t)"
  by (auto simp: try_get_metadata_blob_from_assembly_def attempt_load_def Let_def
        split: option.splits)

lemma try_include_directory_first:
  assumes "\<forall>p \<in> set (object_paths d name). attempt_load L Object p \<noteq> NotDeserialised"
  shows "first_successful_load L (candidates d name @ rest) tried =
     (case try_include_directory L name d tried of
        Inl f \<Rightarrow> Inl f
      | Inr (True, t) \<Rightarrow> Inr t
      | Inr (False, t) \<Rightarrow> first_successful_load L rest t)"
proof -
  let ?objs = "map (Pair Object) (object_paths d name)"
  let ?asm = "(Assembly, assembly_path d name)"
  have split_c: "candidates d name @ rest =
      (Gmeta, gmeta_path d name) # (?objs @ (?asm # rest))"
    by (simp add: candidates_def)
  have obj: "\<And>t. first_successful_load L (?objs @ (?asm # rest)) t =
     (case try_get_metadata_blob_from_object L name d t of
        Inl f \<Rightarrow> Inl f
      | Inr (True, t') \<Rightarrow> Inr t'
      | Inr (False, t') \<Rightarrow> first_successful_load L (?asm # rest) t')"
    unfolding try_get_metadata_blob_from_object_def
    by (rule try_object_paths_first [OF assms])
  show ?thesis
    unfolding split_c try_gmeta_first try_include_directory_def obj try_assembly_first
    by (auto split: sum.splits prod.splits bool.splits)
qed

lemma search_include_directories_first:
  assumes "\<forall>d \<in> set dirs. \<forall>p \<in> set (object_paths d name).
             attempt_load L Object p \<noteq> NotDeserialised"
  shows "first_successful_load L (concat (map (\<lambda>d. candidates d name) dirs)) tried =
     (case search_include_directories L name dirs tried of
        Inl f \<Rightarrow> Inl f
      | Inr (True, t) \<Rightarrow> Inr t
      | Inr (False, t) \<Rightarrow> Inl (ImportNotFound t))"
  using assms
proof (induction dirs arbitrary: tried)
  case Nil
  show ?case by simp
next
  case (Cons d dirs)
  from Cons.prems
  have d: "\<forall>p \<in> set (object_paths d name). attempt_load L Object p \<noteq> NotDeserialised"
    and ds: "\<forall>d \<in> set dirs. \<forall>p \<in> set (object_paths d name).
               attempt_load L Object p \<noteq> NotDeserialised"
    by simp_all
  have "first_successful_load L (concat (map (\<lambda>d. candidates d name) (d # dirs))) tried =
      first_successful_load L
        (candidates d name @ concat (map (\<lambda>d. candidates d name) dirs)) tried"
    by simp
  also have "\<dots> =
     (case try_include_directory L name d tried of
        Inl f \<Rightarrow> Inl f
      | Inr (True, t) \<Rightarrow> Inr t
      | Inr (False, t) \<Rightarrow>
          first_successful_load L (concat (map (\<lambda>d. candidates d name) dirs)) t)"
    by (rule try_include_directory_first [OF d])
  also have "\<dots> =
     (case search_include_directories L name (d # dirs) tried of
        Inl f \<Rightarrow> Inl f
      | Inr (True, t) \<Rightarrow> Inr t
      | Inr (False, t) \<Rightarrow> Inl (ImportNotFound t))"
    by (auto simp: Cons.IH [OF ds] split: sum.splits prod.splits bool.splits)
  finally show ?case .
qed

lemma load_import_first:
  assumes "\<forall>d \<in> set dirs. \<forall>p \<in> set (object_paths d name).
             attempt_load L Object p \<noteq> NotDeserialised"
  shows "load_import L dirs name =
           first_successful_load L (concat (map (\<lambda>d. candidates d name) dirs)) []"
  unfolding search_include_directories_first [OF assms] load_import_def
  by (auto split: sum.splits prod.splits bool.splits)

lemma load_imports_Inr:
  "load_imports L dirs names = Inr trieds \<longleftrightarrow>
     length trieds = length names \<and>
     (\<forall>i < length names. load_import L dirs (names ! i) = Inr (trieds ! i))"
proof (induction names arbitrary: trieds)
  case Nil
  show ?case by auto
next
  case (Cons name names)
  show ?case
  proof (cases trieds)
    case Nil
    then show ?thesis by (auto split: sum.splits)
  next
    case (Cons t rest)
    have "load_imports L dirs (name # names) = Inr (t # rest) \<longleftrightarrow>
        load_import L dirs name = Inr t \<and> load_imports L dirs names = Inr rest"
      by (auto split: sum.splits)
    also have "\<dots> \<longleftrightarrow> load_import L dirs name = Inr t \<and> length rest = length names \<and>
        (\<forall>i < length names. load_import L dirs (names ! i) = Inr (rest ! i))"
      using Cons.IH [of rest] by simp
    also have "\<dots> \<longleftrightarrow> length (t # rest) = length (name # names) \<and>
        (\<forall>i < length (name # names).
           load_import L dirs ((name # names) ! i) = Inr ((t # rest) ! i))"
      by (auto simp: nth_Cons All_less_Suc2 split: nat.splits)
    finally show ?thesis unfolding Cons .
  qed
qed

lemma load_imports_Inl:
  "load_imports L dirs names = Inl f \<longleftrightarrow>
     (\<exists>i < length names. load_import L dirs (names ! i) = Inl f \<and>
        (\<forall>j < i. \<exists>t. load_import L dirs (names ! j) = Inr t))"
proof (induction names)
  case Nil
  show ?case by simp
next
  case (Cons name names)
  show ?case
  proof (cases "load_import L dirs name")
    case (Inl g)
    have "(\<exists>i < length (name # names). load_import L dirs ((name # names) ! i) = Inl f \<and>
        (\<forall>j < i. \<exists>t. load_import L dirs ((name # names) ! j) = Inr t)) \<longleftrightarrow> g = f"
    proof
      assume "\<exists>i < length (name # names). load_import L dirs ((name # names) ! i) = Inl f \<and>
        (\<forall>j < i. \<exists>t. load_import L dirs ((name # names) ! j) = Inr t)"
      then obtain i where i: "load_import L dirs ((name # names) ! i) = Inl f"
        "\<forall>j < i. \<exists>t. load_import L dirs ((name # names) ! j) = Inr t" by blast
      show "g = f"
      proof (cases i)
        case 0
        with i Inl show ?thesis by simp
      next
        case (Suc k)
        with i(2) have "\<exists>t. load_import L dirs ((name # names) ! 0) = Inr t" by blast
        with Inl show ?thesis by simp
      qed
    next
      assume "g = f"
      with Inl have "load_import L dirs ((name # names) ! 0) = Inl f \<and>
        (\<forall>j < 0. \<exists>t. load_import L dirs ((name # names) ! j) = Inr t)" by simp
      then show "\<exists>i < length (name # names).
        load_import L dirs ((name # names) ! i) = Inl f \<and>
        (\<forall>j < i. \<exists>t. load_import L dirs ((name # names) ! j) = Inr t)" by blast
    qed
    with Inl show ?thesis by simp
  next
    case (Inr t)
    have "(\<exists>i < length (name # names). load_import L dirs ((name # names) ! i) = Inl f \<and>
        (\<forall>j < i. \<exists>t. load_import L dirs ((name # names) ! j) = Inr t)) \<longleftrightarrow>
      (\<exists>i < length names. load_import L dirs (names ! i) = Inl f \<and>
        (\<forall>j < i. \<exists>t. load_import L dirs (names ! j) = Inr t))"
    proof
      assume "\<exists>i < length (name # names). load_import L dirs ((name # names) ! i) = Inl f \<and>
        (\<forall>j < i. \<exists>t. load_import L dirs ((name # names) ! j) = Inr t)"
      then obtain i where i: "i < length (name # names)"
        "load_import L dirs ((name # names) ! i) = Inl f"
        "\<forall>j < i. \<exists>t. load_import L dirs ((name # names) ! j) = Inr t" by blast
      from i(2) Inr obtain k where k: "i = Suc k" by (cases i) auto
      from i(3) have "\<forall>j < k. \<exists>t. load_import L dirs (names ! j) = Inr t"
        unfolding k by (metis Suc_less_eq nth_Cons_Suc)
      with i(1,2) k show "\<exists>i < length names. load_import L dirs (names ! i) = Inl f \<and>
        (\<forall>j < i. \<exists>t. load_import L dirs (names ! j) = Inr t)" by auto
    next
      assume "\<exists>i < length names. load_import L dirs (names ! i) = Inl f \<and>
        (\<forall>j < i. \<exists>t. load_import L dirs (names ! j) = Inr t)"
      then obtain i where i: "i < length names" "load_import L dirs (names ! i) = Inl f"
        "\<forall>j < i. \<exists>t. load_import L dirs (names ! j) = Inr t" by blast
      have "\<forall>j < Suc i. \<exists>t. load_import L dirs ((name # names) ! j) = Inr t"
        using i(3) Inr by (auto simp: nth_Cons split: nat.splits)
      with i(1,2) have "Suc i < length (name # names) \<and>
          load_import L dirs ((name # names) ! Suc i) = Inl f \<and>
          (\<forall>j < Suc i. \<exists>t. load_import L dirs ((name # names) ! j) = Inr t)" by simp
      then show "\<exists>i < length (name # names).
        load_import L dirs ((name # names) ! i) = Inl f \<and>
        (\<forall>j < i. \<exists>t. load_import L dirs ((name # names) ! j) = Inr t)" by blast
    qed
    with Inr Cons.IH show ?thesis by (auto split: sum.splits)
  qed
qed

text \<open>
  The claim C7 as it is stated fails: the first successful load does not always win. The
  directory \<open>lib\<close> holds \<open>foo.s\<close> and nothing else for the module \<open>foo\<close>, the next
  directory \<open>inc\<close> holds a metadata file \<open>foo.gmeta\<close> that loads. The search reaches
  \<open>lib/foo.s\<close>, finds that it exists and ends the compiler in \<^verbatim>\<open>LCC_TODO\<close>; the
  metadata file of \<open>inc\<close>, which alone would be loaded, is never tried.
\<close>

theorem assembly_file_ends_search:
  "load_import
     \<lparr>file_read = (\<lambda>p. if p = ''lib/foo.s'' then Some [0x2E]
                        else if p = ''inc/foo.gmeta'' then Some [1, 0xC0, 0xFF, 0xEE, 0]
                        else None),
      get_section_from_blob = (\<lambda>b. []), deserialise = (\<lambda>b. True)\<rparr>
     [''lib'', ''inc''] ''foo''
   = Inl TodoAssembly \<and>
   load_import
     \<lparr>file_read = (\<lambda>p. if p = ''lib/foo.s'' then Some [0x2E]
                        else if p = ''inc/foo.gmeta'' then Some [1, 0xC0, 0xFF, 0xEE, 0]
                        else None),
      get_section_from_blob = (\<lambda>b. []), deserialise = (\<lambda>b. True)\<rparr>
     [''inc''] ''foo''
   = Inr [''inc/foo.gmeta'']"
  by (simp add: load_import_def try_include_directory_def
        try_get_metadata_blob_from_gmeta_def try_get_metadata_blob_from_object_def
        try_get_metadata_blob_from_assembly_def gmeta_path_def object_paths_def
        assembly_path_def preferred_separator_def metadata_file_extension_def
        magic_def default_version_def magic_byte0_def magic_byte1_def magic_byte2_def Let_def)

text \<open>
  An object file whose metadata section begins with the four bytes and does not
  deserialise: \<^verbatim>\<open>return mod.deserialise(context, metadata_blob)\<close> leaves the loop over
  the object files, so that the object files after it in the directory are not tried,
  whereas a metadata file that does not deserialise passes on to the candidates after it.
  Here \<open>inc/foo.o\<close> does not deserialise and \<open>inc/libfoo.a\<close> would load: the import is
  not found, and three paths were tried.
\<close>

lemma object_not_deserialised_ends_objects:
  "load_import
     \<lparr>file_read = (\<lambda>p. if p = ''inc/foo.o''
                        then Some (0x7f # 0x45 # 0x4C # 0x46 # replicate 60 0)
                        else if p = ''inc/libfoo.a''
                        then Some (0x7f # 0x45 # 0x4C # 0x46 # replicate 60 1)
                        else None),
      get_section_from_blob = (\<lambda>b. [1, 0xC0, 0xFF, 0xEE, last b]),
      deserialise = (\<lambda>b. last b = 1)\<rparr>
     [''inc''] ''foo''
   = Inl (ImportNotFound [''inc/foo.gmeta'', ''inc/foo.o'', ''inc/foo.s'']) \<and>
   attempt_load
     \<lparr>file_read = (\<lambda>p. if p = ''inc/foo.o''
                        then Some (0x7f # 0x45 # 0x4C # 0x46 # replicate 60 0)
                        else if p = ''inc/libfoo.a''
                        then Some (0x7f # 0x45 # 0x4C # 0x46 # replicate 60 1)
                        else None),
      get_section_from_blob = (\<lambda>b. [1, 0xC0, 0xFF, 0xEE, last b]),
      deserialise = (\<lambda>b. last b = 1)\<rparr>
     Object ''inc/libfoo.a''
   = Loaded"
  by (simp add: load_import_def try_include_directory_def
        try_get_metadata_blob_from_gmeta_def try_get_metadata_blob_from_object_def
        try_get_metadata_blob_from_assembly_def gmeta_path_def object_paths_def
        assembly_path_def preferred_separator_def metadata_file_extension_def
        attempt_load_def load_blob_def is_elf_def sizeof_elf64_header_def
        magic_def default_version_def magic_byte0_def magic_byte1_def magic_byte2_def Let_def)

text \<open>
  C7, amended. For an import \<open>name\<close> and the include directories \<open>dirs\<close>, let no
  object file among the candidates hold a metadata section that begins with the four
  bytes and does not deserialise. Then:
  \<^item> the candidates of a directory are, in this order, \<open>name.gmeta\<close>, the object files
    \<open>name.o\<close>, \<open>name.obj\<close>, \<open>name.a\<close>, \<open>libname.o\<close>, \<open>libname.obj\<close>, \<open>libname.a\<close>, and
    \<open>name.s\<close>; the four bytes are \<open>1, 0xC0, 0xFF, 0xEE\<close>;
  \<^item> the loader does what the search over the candidates of all directories, in the order
    of the directories, does, in which a candidate that does not exist, and one whose blob
    begins with the four bytes and does not deserialise, pass on to the next one;
  \<^item> so the first candidate whose blob (the file itself for \<open>.gmeta\<close>, the metadata section
    of an ELF file for an object) begins with the four bytes and deserialises is loaded,
    if all candidates before it pass on, and the paths tried are the candidates up to it;
  \<^item> the first candidate that is a hard error ends the compiler with that error, if all
    candidates before it pass on: an empty file, an object file that is not an ELF file
    or has an empty metadata section, a blob that does not begin with the four bytes,
    and every file \<open>name.s\<close> that exists;
  \<^item> if all candidates pass on, the import is not found, and all of them were tried;
  \<^item> the imports are loaded one after the other: the loop over the imports ends with
    all of them loaded exactly when each of them loads, and it ends in the error of the
    first import that does not load.
\<close>

theorem module_loader:
  assumes objects: "\<forall>d \<in> set dirs. \<forall>p \<in> set (object_paths d name).
                      attempt_load L Object p \<noteq> NotDeserialised"
  shows "candidates d name =
     [(Gmeta, d @ ''/'' @ name @ ''.gmeta''),
      (Object, d @ ''/'' @ name @ ''.o''), (Object, d @ ''/'' @ name @ ''.obj''),
      (Object, d @ ''/'' @ name @ ''.a''), (Object, d @ ''/lib'' @ name @ ''.o''),
      (Object, d @ ''/lib'' @ name @ ''.obj''), (Object, d @ ''/lib'' @ name @ ''.a''),
      (Assembly, d @ ''/'' @ name @ ''.s'')] \<and>
   magic = [1, 0xC0, 0xFF, 0xEE] \<and>
   load_import L dirs name =
     first_successful_load L (concat (map (\<lambda>d. candidates d name) dirs)) [] \<and>
   (concat (map (\<lambda>d. candidates d name) dirs) = pre @ (kind, p) # post \<and>
    (\<forall>c \<in> set pre. passes_on L c) \<and> attempt_load L kind p = Loaded \<longrightarrow>
      load_import L dirs name = Inr (map snd pre @ [p])) \<and>
   (concat (map (\<lambda>d. candidates d name) dirs) = pre @ (kind, p) # post \<and>
    (\<forall>c \<in> set pre. passes_on L c) \<and> attempt_load L kind p = HardError f \<longrightarrow>
      load_import L dirs name = Inl f) \<and>
   ((\<forall>c \<in> set (concat (map (\<lambda>d. candidates d name) dirs)). passes_on L c) \<longrightarrow>
      load_import L dirs name =
        Inl (ImportNotFound (map snd (concat (map (\<lambda>d. candidates d name) dirs))))) \<and>
   (load_imports L dirs names = Inr trieds \<longleftrightarrow>
      length trieds = length names \<and>
      (\<forall>i < length names. load_import L dirs (names ! i) = Inr (trieds ! i))) \<and>
   (load_imports L dirs names = Inl g \<longleftrightarrow>
      (\<exists>i < length names. load_import L dirs (names ! i) = Inl g \<and>
         (\<forall>j < i. \<exists>t. load_import L dirs (names ! j) = Inr t)))"
proof -
  let ?cs = "concat (map (\<lambda>d. candidates d name) dirs)"
  have c1: "candidates d name =
     [(Gmeta, d @ ''/'' @ name @ ''.gmeta''),
      (Object, d @ ''/'' @ name @ ''.o''), (Object, d @ ''/'' @ name @ ''.obj''),
      (Object, d @ ''/'' @ name @ ''.a''), (Object, d @ ''/lib'' @ name @ ''.o''),
      (Object, d @ ''/lib'' @ name @ ''.obj''), (Object, d @ ''/lib'' @ name @ ''.a''),
      (Assembly, d @ ''/'' @ name @ ''.s'')]"
    by (simp add: candidates_def gmeta_path_def object_paths_def assembly_path_def
        preferred_separator_def metadata_file_extension_def Let_def)
  have c2: "magic = [1, 0xC0, 0xFF, 0xEE]"
    by (simp add: magic_def default_version_def magic_byte0_def magic_byte1_def
        magic_byte2_def)
  have c3: "load_import L dirs name = first_successful_load L ?cs []"
    by (rule load_import_first [OF objects])
  have c4: "?cs = pre @ (kind, p) # post \<and>
    (\<forall>c \<in> set pre. passes_on L c) \<and> attempt_load L kind p = Loaded \<longrightarrow>
      load_import L dirs name = Inr (map snd pre @ [p])"
  proof
    assume a: "?cs = pre @ (kind, p) # post \<and>
      (\<forall>c \<in> set pre. passes_on L c) \<and> attempt_load L kind p = Loaded"
    then have "first_successful_load L ?cs [] =
        first_successful_load L ((kind, p) # post) ([] @ map snd pre)"
      using first_successful_load_passes_on [of pre L "(kind, p) # post" "[]"] by simp
    with a show "load_import L dirs name = Inr (map snd pre @ [p])"
      unfolding c3 by simp
  qed
  have c5: "?cs = pre @ (kind, p) # post \<and>
    (\<forall>c \<in> set pre. passes_on L c) \<and> attempt_load L kind p = HardError f \<longrightarrow>
      load_import L dirs name = Inl f"
  proof
    assume a: "?cs = pre @ (kind, p) # post \<and>
      (\<forall>c \<in> set pre. passes_on L c) \<and> attempt_load L kind p = HardError f"
    then have "first_successful_load L ?cs [] =
        first_successful_load L ((kind, p) # post) ([] @ map snd pre)"
      using first_successful_load_passes_on [of pre L "(kind, p) # post" "[]"] by simp
    with a show "load_import L dirs name = Inl f"
      unfolding c3 by simp
  qed
  have c6: "(\<forall>c \<in> set ?cs. passes_on L c) \<longrightarrow>
      load_import L dirs name = Inl (ImportNotFound (map snd ?cs))"
  proof
    assume "\<forall>c \<in> set ?cs. passes_on L c"
    from first_successful_load_passes_on [OF this, of "[]" "[]"]
    show "load_import L dirs name = Inl (ImportNotFound (map snd ?cs))"
      unfolding c3 by simp
  qed
  have c7: "load_imports L dirs names = Inr trieds \<longleftrightarrow>
      length trieds = length names \<and>
      (\<forall>i < length names. load_import L dirs (names ! i) = Inr (trieds ! i))"
    by (rule load_imports_Inr)
  have c8: "load_imports L dirs names = Inl g \<longleftrightarrow>
      (\<exists>i < length names. load_import L dirs (names ! i) = Inl g \<and>
         (\<forall>j < i. \<exists>t. load_import L dirs (names ! j) = Inr t))"
    by (rule load_imports_Inl)
  show ?thesis
    using c1 c2 c3 c4 c5 c6 c7 c8 by - (intro conjI, assumption+)
qed

text \<open>
  The module \<open>foo\<close> is not in the directory \<open>lib\<close>; in \<open>inc\<close> its metadata file
  begins with the four bytes and does not deserialise, \<open>foo.o\<close> does not exist, and
  \<open>foo.obj\<close> is an ELF file whose metadata section loads: the eight candidates of
  \<open>lib\<close> and the first two of \<open>inc\<close> pass on, and \<open>inc/foo.obj\<close> is loaded.
\<close>

theorem module_loader_witness:
  "load_import
     \<lparr>file_read = (\<lambda>p. if p = ''inc/foo.gmeta'' then Some [1, 0xC0, 0xFF, 0xEE, 0]
                        else if p = ''inc/foo.obj''
                        then Some (0x7f # 0x45 # 0x4C # 0x46 # replicate 60 0)
                        else None),
      get_section_from_blob = (\<lambda>b. [1, 0xC0, 0xFF, 0xEE, 1]),
      deserialise = (\<lambda>b. last b = 1)\<rparr>
     [''lib'', ''inc''] ''foo''
   = Inr [''lib/foo.gmeta'', ''lib/foo.o'', ''lib/foo.obj'', ''lib/foo.a'',
          ''lib/libfoo.o'', ''lib/libfoo.obj'', ''lib/libfoo.a'', ''lib/foo.s'',
          ''inc/foo.gmeta'', ''inc/foo.o'', ''inc/foo.obj'']"
proof -
  let ?L = "\<lparr>file_read = (\<lambda>p. if p = ''inc/foo.gmeta'' then Some [1, 0xC0, 0xFF, 0xEE, 0]
                        else if p = ''inc/foo.obj''
                        then Some (0x7f # 0x45 # 0x4C # 0x46 # replicate 60 0)
                        else None),
      get_section_from_blob = (\<lambda>b. [1, 0xC0, 0xFF, 0xEE, 1]),
      deserialise = (\<lambda>b. last b = 1)\<rparr> :: loader"
  let ?pre = "[(Gmeta, ''lib/foo.gmeta''), (Object, ''lib/foo.o''), (Object, ''lib/foo.obj''),
      (Object, ''lib/foo.a''), (Object, ''lib/libfoo.o''), (Object, ''lib/libfoo.obj''),
      (Object, ''lib/libfoo.a''), (Assembly, ''lib/foo.s''),
      (Gmeta, ''inc/foo.gmeta''), (Object, ''inc/foo.o'')]"
  let ?post = "[(Object, ''inc/foo.a''), (Object, ''inc/libfoo.o''),
      (Object, ''inc/libfoo.obj''), (Object, ''inc/libfoo.a''), (Assembly, ''inc/foo.s'')]"
  have objects: "\<forall>d \<in> set [''lib'', ''inc'']. \<forall>p \<in> set (object_paths d ''foo'').
      attempt_load ?L Object p \<noteq> NotDeserialised"
    by (simp add: object_paths_def preferred_separator_def attempt_load_def load_blob_def
        is_elf_def sizeof_elf64_header_def magic_def default_version_def magic_byte0_def
        magic_byte1_def magic_byte2_def Let_def)
  have cs: "concat (map (\<lambda>d. candidates d ''foo'') [''lib'', ''inc'']) =
      ?pre @ (Object, ''inc/foo.obj'') # ?post"
    by (simp add: candidates_def gmeta_path_def object_paths_def assembly_path_def
        preferred_separator_def metadata_file_extension_def Let_def)
  have pre: "\<forall>c \<in> set ?pre. passes_on ?L c"
    by (simp add: passes_on_def attempt_load_def load_blob_def magic_def default_version_def
        magic_byte0_def magic_byte1_def magic_byte2_def)
  have hit: "attempt_load ?L Object ''inc/foo.obj'' = Loaded"
    by (simp add: attempt_load_def load_blob_def is_elf_def sizeof_elf64_header_def
        magic_def default_version_def magic_byte0_def magic_byte1_def magic_byte2_def)
  from cs pre hit
  have h: "concat (map (\<lambda>d. candidates d ''foo'') [''lib'', ''inc'']) =
      ?pre @ (Object, ''inc/foo.obj'') # ?post \<and>
      (\<forall>c \<in> set ?pre. passes_on ?L c) \<and> attempt_load ?L Object ''inc/foo.obj'' = Loaded"
    by (intro conjI)
  have "load_import ?L [''lib'', ''inc''] ''foo'' = Inr (map snd ?pre @ [''inc/foo.obj''])"
    by (rule module_loader [OF objects, THEN conjunct2, THEN conjunct2, THEN conjunct2,
          THEN conjunct1, rule_format, OF h])
  then show ?thesis by simp
qed

subsection \<open>Struct layout\<close>

lemma align_up_ge: "0 < a \<Longrightarrow> v \<le> align_up v a"
proof -
  assume a: "0 < a"
  have "v + a - 1 = (v + a - 1) div a * a + (v + a - 1) mod a" by simp
  moreover have "(v + a - 1) mod a \<le> a - 1" using a
    by (metis Suc_pred' less_Suc_eq_le mod_less_divisor)
  ultimately have "v + a - 1 \<le> align_up v a + (a - 1)" unfolding align_up_def by linarith
  with a show ?thesis by linarith
qed

lemma align_up_dvd: "a dvd align_up v a"
  by (simp add: align_up_def)

lemma div_add_less:
  fixes a :: nat
  assumes "r < a"
  shows "(q * a + r) div a = q"
  using assms by (subst div_mult_self3) simp_all

lemma align_up_pad:
  assumes a: "0 < a"
  shows "v + (a - v mod a) mod a = align_up v a"
proof -
  define q where "q = v div a"
  define r where "r = v mod a"
  have v: "v = q * a + r" unfolding q_def r_def by simp
  have r: "r < a" unfolding r_def using a by simp
  show ?thesis
  proof (cases "r = 0")
    case True
    have "v + a - 1 = q * a + (a - 1)" using a v True by simp
    moreover have "(q * a + (a - 1)) div a = q" using a by (intro div_add_less) simp
    ultimately have "align_up v a = q * a" unfolding align_up_def by simp
    moreover have "v + (a - v mod a) mod a = q * a"
      using True v unfolding r_def [symmetric] by simp
    ultimately show ?thesis by simp
  next
    case False
    have "v + a - 1 = (q + 1) * a + (r - 1)" using False v by simp
    moreover have "((q + 1) * a + (r - 1)) div a = q + 1"
      using r by (intro div_add_less) simp
    ultimately have "align_up v a = (q + 1) * a" unfolding align_up_def by simp
    moreover have "(a - r) mod a = a - r" using False r by simp
    then have "v + (a - v mod a) mod a = (q + 1) * a"
      using r v unfolding r_def [symmetric] by simp
    ultimately show ?thesis by simp
  qed
qed

text \<open>As long as the aligned size is below \<open>2^64\<close>, \<^verbatim>\<open>AlignTo\<close> aligns up.\<close>

lemma AlignTo_unat:
  fixes v a :: usz
  assumes a: "a \<noteq> 0" and fits: "align_up (unat v) (unat a) < 2 ^ 64"
  shows "\<exists>w. AlignTo v a = Some w \<and> unat w = align_up (unat v) (unat a)"
proof -
  let ?pad = "(a - v mod a) mod a"
  have pos: "0 < unat a" using a by (simp add: unat_gt_0)
  have "v mod a < a" using a by (simp add: word_mod_less_divisor word_neq_0_conv)
  then have "v mod a \<le> a" by simp
  then have "unat (a - v mod a) = unat a - unat (v mod a)" by (simp add: unat_sub)
  then have pad: "unat ?pad = (unat a - unat v mod unat a) mod unat a"
    by (simp add: unat_mod_distrib)
  have sum: "unat v + unat ?pad = align_up (unat v) (unat a)"
    unfolding pad by (rule align_up_pad [OF pos])
  with fits have "unat v + unat ?pad < 2 ^ LENGTH(64)" by simp
  then have "unat (v + ?pad) = unat v + unat ?pad"
    by (simp only: unat_add_lem)
  with sum a show ?thesis by (simp add: AlignTo_def)
qed

lemma running_size_ge: "\<forall>m \<in> set ms. malign m \<noteq> 0 \<Longrightarrow> b \<le> running_size b ms"
proof (induction ms arbitrary: b)
  case Nil
  show ?case by simp
next
  case (Cons m ms)
  have "0 < unat (malign m)" using Cons.prems by (simp add: unat_gt_0)
  then have "b \<le> align_up b (unat (malign m))" by (rule align_up_ge)
  moreover have "align_up b (unat (malign m)) + unat (msize m)
      \<le> running_size (align_up b (unat (malign m)) + unat (msize m)) ms"
    using Cons by simp
  ultimately show ?case by simp
qed

lemma running_size_append: "running_size b (xs @ ys) = running_size (running_size b xs) ys"
  by (induction xs arbitrary: b) auto

lemma running_size_take_mono:
  assumes "\<forall>m \<in> set ms. malign m \<noteq> 0" "i \<le> j"
  shows "running_size b (take i ms) \<le> running_size b (take j ms)"
proof -
  have "take j ms = take i ms @ take (j - i) (drop i ms)"
    using assms(2) by (metis le_add_diff_inverse take_add)
  moreover have "\<forall>m \<in> set (take (j - i) (drop i ms)). malign m \<noteq> 0"
    using assms(1) by (meson in_set_dropD in_set_takeD)
  ultimately show ?thesis by (simp add: running_size_append running_size_ge)
qed

lemma running_size_take_Suc:
  "i < length ms \<Longrightarrow>
     running_size b (take (Suc i) ms) =
       align_up (running_size b (take i ms)) (unat (malign (ms ! i))) + unat (msize (ms ! i))"
  by (simp add: take_Suc_conv_app_nth running_size_append)

lemma layout_members_ok:
  assumes "\<forall>m \<in> set ms. \<not> m_type_errored m \<and> malign m \<noteq> 0"
    and "running_size (unat b) ms < 2 ^ 64"
  shows "\<exists>offs bs.
     layout_members ms b a e = Some (offs, bs, Max (insert a (malign ` set ms)), e) \<and>
     length offs = length ms \<and>
     (\<forall>i < length ms. \<exists>w. offs ! i = Some w \<and>
        unat w = align_up (running_size (unat b) (take i ms)) (unat (malign (ms ! i)))) \<and>
     unat bs = running_size (unat b) ms"
  using assms
proof (induction ms arbitrary: b a)
  case Nil
  show ?case by simp
next
  case (Cons m ms)
  from Cons.prems(1) have m: "\<not> m_type_errored m" "malign m \<noteq> 0"
    and ms: "\<forall>m \<in> set ms. \<not> m_type_errored m \<and> malign m \<noteq> 0" by simp_all
  let ?off = "align_up (unat b) (unat (malign m))"
  from ms have "\<forall>m \<in> set ms. malign m \<noteq> 0" by simp
  then have "?off + unat (msize m) \<le> running_size (?off + unat (msize m)) ms"
    by (rule running_size_ge)
  with Cons.prems(2) have bound: "?off + unat (msize m) < 2 ^ 64" by simp
  then have "?off < 2 ^ 64" by simp
  from AlignTo_unat [OF m(2) this]
  obtain w where w: "AlignTo b (malign m) = Some w" "unat w = ?off" by blast
  from bound w(2) have "unat w + unat (msize m) < 2 ^ LENGTH(64)" by simp
  then have "unat (w + msize m) = unat w + unat (msize m)"
    by (simp only: unat_add_lem)
  then have next_b: "unat (w + msize m) = ?off + unat (msize m)"
    using w(2) by simp
  with Cons.prems(2) have "running_size (unat (w + msize m)) ms < 2 ^ 64" by simp
  from Cons.IH [OF ms this, of "max a (malign m)"]
  obtain offs bs where r:
    "layout_members ms (w + msize m) (max a (malign m)) e =
       Some (offs, bs, Max (insert (max a (malign m)) (malign ` set ms)), e)"
    "length offs = length ms"
    "\<forall>i < length ms. \<exists>u. offs ! i = Some u \<and>
        unat u = align_up (running_size (unat (w + msize m)) (take i ms))
                   (unat (malign (ms ! i)))"
    "unat bs = running_size (unat (w + msize m)) ms"
    by blast
  have mx: "Max (insert (max a (malign m)) (malign ` set ms)) =
      Max (insert a (malign ` set (m # ms)))"
    by (cases ms) (simp_all add: max.assoc)
  have run: "layout_members (m # ms) b a e =
      Some (Some w # offs, bs, Max (insert a (malign ` set (m # ms))), e)"
    using m(1) w(1) r(1) unfolding mx by simp
  have offs: "\<forall>i < length (m # ms). \<exists>u. (Some w # offs) ! i = Some u \<and>
        unat u = align_up (running_size (unat b) (take i (m # ms)))
                   (unat (malign ((m # ms) ! i)))"
  proof (intro allI impI)
    fix i assume i: "i < length (m # ms)"
    show "\<exists>u. (Some w # offs) ! i = Some u \<and>
        unat u = align_up (running_size (unat b) (take i (m # ms)))
                   (unat (malign ((m # ms) ! i)))"
    proof (cases i)
      case 0
      with w(2) show ?thesis by simp
    next
      case (Suc j)
      with i have "j < length ms" by simp
      with r(3) obtain u where "offs ! j = Some u"
        "unat u = align_up (running_size (unat (w + msize m)) (take j ms))
                    (unat (malign (ms ! j)))" by blast
      then show ?thesis unfolding Suc next_b by simp
    qed
  qed
  have "unat bs = running_size (unat b) (m # ms)"
    using r(4) unfolding next_b by simp
  with run r(2) offs show ?case by simp
qed

text \<open>
  The claim C8 as it is stated fails: offsets and sizes are of the type \<^verbatim>\<open>usz\<close>, and
  \<^verbatim>\<open>byte_size = member.byte_offset + msize\<close> wraps around at \<open>2^64\<close>. A struct of ten
  members of the type \<open>[byte 2305843009213693951]\<close>, of \<open>2^61 - 1\<close> bytes each and of
  an alignment of one byte, is analysed without error; its ninth member is at the offset
  \<open>2^64 - 8\<close>, its tenth member at the smaller offset \<open>2^61 - 9\<close>, and its byte size
  \<open>2^62 - 10\<close> is below the offset of its ninth member.
\<close>

theorem struct_layout_wraps_around:
  "analyse_struct
     (replicate 10
        \<lparr>m_name = ''a'', m_type_errored = False, m_size_bits = 18446744073709551608,
           m_align_bits = 8\<rparr>)
   = Some
       \<lparr>sl_offsets =
          [Some 0, Some 2305843009213693951, Some 4611686018427387902,
           Some 6917529027641081853, Some 9223372036854775804,
           Some 11529215046068469755, Some 13835058055282163706,
           Some 16140901064495857657, Some 18446744073709551608,
           Some 2305843009213693943],
        sl_alignment = 1, sl_byte_size = 4611686018427387894, sl_errored = False\<rparr>"
  by code_simp

text \<open>
  C8, amended. For a struct all of whose member types analysed without error and have
  an alignment of at least one byte, and whose running size of all members, aligned up to
  the maximum of 1 and the member alignments, is below \<open>2^64\<close> bytes: the struct is
  analysed and not errored; the offset of member \<open>i\<close> is the running size of the members
  before it, aligned up to the alignment of member \<open>i\<close>, hence a multiple of that
  alignment; offsets do not decrease in declaration order; the alignment of the struct is
  the maximum of 1 and the member alignments; the byte size is the running size of all
  members aligned up to the alignment of the struct (a multiple of it, and not below the
  running size), and 0 for a struct without members.
\<close>

theorem struct_layout_correct:
  assumes ok: "\<forall>m \<in> set members. \<not> m_type_errored m \<and> malign m \<noteq> 0"
    and fits: "align_up (running_size 0 members)
                 (unat (Max (insert 1 (malign ` set members)))) < 2 ^ 64"
  shows "\<exists>lay. analyse_struct members = Some lay \<and> \<not> sl_errored lay \<and>
         length (sl_offsets lay) = length members \<and>
         (\<forall>i < length members. \<exists>off.
            sl_offsets lay ! i = Some off \<and>
            unat off = align_up (running_size 0 (take i members))
                         (unat (malign (members ! i))) \<and>
            unat (malign (members ! i)) dvd unat off) \<and>
         (\<forall>i j. i \<le> j \<and> j < length members \<longrightarrow>
            (\<exists>oi oj. sl_offsets lay ! i = Some oi \<and> sl_offsets lay ! j = Some oj \<and>
                      oi \<le> oj)) \<and>
         sl_alignment lay = Max (insert 1 (malign ` set members)) \<and>
         1 \<le> sl_alignment lay \<and>
         unat (sl_byte_size lay) =
           (if running_size 0 members = 0 then 0
            else align_up (running_size 0 members) (unat (sl_alignment lay))) \<and>
         running_size 0 members \<le> unat (sl_byte_size lay) \<and>
         unat (sl_alignment lay) dvd unat (sl_byte_size lay) \<and>
         (members = [] \<longrightarrow> sl_byte_size lay = 0)"
proof -
  let ?al = "Max (insert 1 (malign ` set members))"
  let ?rs = "running_size 0 members"
  have nz: "\<forall>m \<in> set members. malign m \<noteq> 0" using ok by simp
  have al1: "1 \<le> ?al" by simp
  then have al0: "?al \<noteq> 0" by (metis word_le_0_iff zero_neq_one)
  then have alpos: "0 < unat ?al" by (simp add: unat_gt_0)
  have "?rs \<le> align_up ?rs (unat ?al)" by (rule align_up_ge [OF alpos])
  with fits have "running_size (unat (0 :: usz)) members < 2 ^ 64" by simp
  from layout_members_ok [OF ok this, of 1 False]
  obtain offs bs where lm: "layout_members members 0 1 False = Some (offs, bs, ?al, False)"
    and len: "length offs = length members"
    and off: "\<forall>i < length members. \<exists>w. offs ! i = Some w \<and>
        unat w = align_up (running_size 0 (take i members)) (unat (malign (members ! i)))"
    and bs: "unat bs = ?rs"
    by auto
  have bs0: "bs = 0 \<longleftrightarrow> ?rs = 0" using bs by (metis unat_eq_zero)
  from fits bs have "align_up (unat bs) (unat ?al) < 2 ^ 64" by simp
  from AlignTo_unat [OF al0 this]
  obtain sz where sz: "AlignTo bs ?al = Some sz" "unat sz = align_up ?rs (unat ?al)"
    using bs by auto
  define lay where "lay =
      \<lparr>sl_offsets = offs, sl_alignment = ?al,
       sl_byte_size = (if bs \<noteq> 0 then sz else 0), sl_errored = False\<rparr>"
  have L: "analyse_struct members = Some lay"
    unfolding analyse_struct_def lm lay_def using sz(1) by simp
  have c1: "\<not> sl_errored lay" by (simp add: lay_def)
  have c2: "length (sl_offsets lay) = length members" by (simp add: lay_def len)
  have c3: "\<forall>i < length members. \<exists>off.
            sl_offsets lay ! i = Some off \<and>
            unat off = align_up (running_size 0 (take i members))
                         (unat (malign (members ! i))) \<and>
            unat (malign (members ! i)) dvd unat off"
    using off by (auto simp: lay_def align_up_dvd)
  have c4: "\<forall>i j. i \<le> j \<and> j < length members \<longrightarrow>
            (\<exists>oi oj. sl_offsets lay ! i = Some oi \<and> sl_offsets lay ! j = Some oj \<and>
                      oi \<le> oj)"
  proof (intro allI impI)
    fix i j assume ij: "i \<le> j \<and> j < length members"
    then have i: "i < length members" and j: "j < length members" by simp_all
    from off i obtain oi where oi: "offs ! i = Some oi"
      "unat oi = align_up (running_size 0 (take i members)) (unat (malign (members ! i)))"
      by blast
    from off j obtain oj where oj: "offs ! j = Some oj"
      "unat oj = align_up (running_size 0 (take j members)) (unat (malign (members ! j)))"
      by blast
    have "unat oi \<le> unat oj"
    proof (cases "i = j")
      case True
      with oi oj show ?thesis by simp
    next
      case False
      with ij have lt: "Suc i \<le> j" by simp
      have "unat oi \<le> running_size 0 (take (Suc i) members)"
        by (simp add: oi(2) running_size_take_Suc [OF i])
      also have "\<dots> \<le> running_size 0 (take j members)"
        by (rule running_size_take_mono [OF nz lt])
      also have "\<dots> \<le> unat oj"
        unfolding oj(2) using nz j by (intro align_up_ge) (simp add: unat_gt_0)
      finally show ?thesis .
    qed
    then have "oi \<le> oj" by (simp add: word_le_nat_alt)
    with oi(1) oj(1) show "\<exists>oi oj. sl_offsets lay ! i = Some oi \<and>
        sl_offsets lay ! j = Some oj \<and> oi \<le> oj"
      by (simp add: lay_def)
  qed
  have c5: "sl_alignment lay = ?al" by (simp add: lay_def)
  have c6: "1 \<le> sl_alignment lay" unfolding c5 by (rule al1)
  have c7: "unat (sl_byte_size lay) =
           (if ?rs = 0 then 0 else align_up ?rs (unat (sl_alignment lay)))"
    using bs0 sz(2) by (simp add: lay_def)
  have c8: "?rs \<le> unat (sl_byte_size lay)"
    unfolding c7 c5 using align_up_ge [OF alpos, of ?rs] by simp
  have c9: "unat (sl_alignment lay) dvd unat (sl_byte_size lay)"
    unfolding c7 by (simp add: align_up_dvd)
  have c10: "members = [] \<longrightarrow> sl_byte_size lay = 0"
    using bs0 by (auto simp: lay_def)
  show ?thesis
    using L c1 c2 c3 c4 c5 c6 c7 c8 c9 c10
    by - (rule exI [of _ lay], intro conjI, assumption+)
qed

text \<open>The layout of \<open>{a: 1 byte, b: 4 bytes, c: 2 bytes}\<close>: offsets 0, 4, 8, alignment 4,
  size 12.\<close>

theorem struct_layout_correct_witness:
  "\<exists>lay. analyse_struct
      [\<lparr>m_name = ''a'', m_type_errored = False, m_size_bits = 8, m_align_bits = 8\<rparr>,
       \<lparr>m_name = ''b'', m_type_errored = False, m_size_bits = 32, m_align_bits = 32\<rparr>,
       \<lparr>m_name = ''c'', m_type_errored = False, m_size_bits = 16, m_align_bits = 16\<rparr>]
     = Some lay \<and>
     sl_offsets lay = [Some 0, Some 4, Some 8] \<and>
     sl_alignment lay = 4 \<and>
     unat (sl_byte_size lay) = 12 \<and>
     \<not> sl_errored lay"
proof -
  let ?ms = "[\<lparr>m_name = ''a'', m_type_errored = False, m_size_bits = 8, m_align_bits = 8\<rparr>,
       \<lparr>m_name = ''b'', m_type_errored = False, m_size_bits = 32, m_align_bits = 32\<rparr>,
       \<lparr>m_name = ''c'', m_type_errored = False, m_size_bits = 16, m_align_bits = 16\<rparr>]"
  have al: "malign (?ms ! 0) = 1" "malign (?ms ! 1) = 4" "malign (?ms ! 2) = 2"
    by (simp_all add: malign_def)
  have sz: "msize (?ms ! 0) = 1" "msize (?ms ! 1) = 4" "msize (?ms ! 2) = 2"
    by (simp_all add: msize_def)
  have mx: "Max (insert 1 (malign ` set ?ms)) = 4"
    using al by simp
  have rs: "running_size 0 ?ms = 10"
    using al sz by (simp add: align_up_def)
  have ok: "\<forall>m \<in> set ?ms. \<not> m_type_errored m \<and> malign m \<noteq> 0"
    using al by simp
  have fits: "align_up (running_size 0 ?ms) (unat (Max (insert 1 (malign ` set ?ms))))
      < 2 ^ 64"
    unfolding rs mx by (simp add: align_up_def)
  from struct_layout_correct [OF ok fits]
  obtain lay where lay: "analyse_struct ?ms = Some lay" "\<not> sl_errored lay"
    "sl_alignment lay = Max (insert 1 (malign ` set ?ms))"
    "unat (sl_byte_size lay) =
       (if running_size 0 ?ms = 0 then 0
        else align_up (running_size 0 ?ms) (unat (sl_alignment lay)))"
    by blast
  have ev: "analyse_struct ?ms =
      Some \<lparr>sl_offsets = [Some 0, Some 4, Some 8], sl_alignment = 4, sl_byte_size = 12,
            sl_errored = False\<rparr>"
    by code_simp
  from lay(1) ev have o: "sl_offsets lay = [Some 0, Some 4, Some 8]" by auto
  have a: "sl_alignment lay = 4" unfolding lay(3) mx ..
  have s: "unat (sl_byte_size lay) = 12"
    unfolding lay(4) a rs by (simp add: align_up_def)
  from lay(1,2) o a s show ?thesis by blast
qed

subsection \<open>Enumerator values\<close>

lemma duplicate_enumerator_None:
  "duplicate_enumerator names vals = None \<Longrightarrow>
     distinct (map en_name vals) \<and> set (map en_name vals) \<inter> set names = {}"
  by (induction names vals rule: duplicate_enumerator.induct) (auto split: if_splits)

lemma assign_enumerator_values_names:
  "assign_enumerator_values is_int nv vals = Inr r \<Longrightarrow> map fst r = map en_name vals"
  by (induction is_int nv vals arbitrary: r rule: assign_enumerator_values.induct)
     (auto simp: Let_def split: option.splits if_splits sum.splits)

lemma assign_enumerator_values_no_init:
  "\<forall>v \<in> set vals. en_init v = None \<Longrightarrow>
     assign_enumerator_values True nv vals =
       Inr (map (\<lambda>i. (en_name (vals ! i), nv + 1 + int i)) [0..<length vals])"
proof (induction vals arbitrary: nv)
  case Nil
  show ?case by simp
next
  case (Cons v vals)
  have shift: "map (\<lambda>i. (en_name ((v # vals) ! i), nv + 1 + int i)) [0..<length (v # vals)] =
      (en_name v, nv + 1) #
      map (\<lambda>i. (en_name (vals ! i), (nv + 1) + 1 + int i)) [0..<length vals]"
  proof -
    have "[0..<length (v # vals)] = 0 # map Suc [0..<length vals]"
      by (simp add: upt_conv_Cons map_Suc_upt del: upt_Suc)
    then show ?thesis by (simp add: comp_def add.assoc del: upt_Suc)
  qed
  from Cons.prems have "en_init v = None" and "\<forall>v \<in> set vals. en_init v = None"
    by simp_all
  with Cons.IH [of "nv + 1"] show ?case
    unfolding shift by (simp add: Let_def del: upt_Suc)
qed

text \<open>
  C9. The claim: in a successfully analysed enum no two enumerators share a name, and an
  enumerator without initialiser receives the value of the previous enumerator plus 1,
  starting at 0. The code assigns \<^verbatim>\<open>++next_val\<close> after having stored
  \<^verbatim>\<open>value + 1\<close> in \<open>next_val\<close> for an enumerator with an initialiser, so the
  enumerator that follows an explicit value \<open>5\<close> receives \<open>7\<close>, not \<open>6\<close>.
\<close>

theorem enum_value_after_initialiser:
  "analyse_enum True True
     [\<lparr>en_name = ''A'', en_init = Some \<lparr>init_analyse_ok = True, init_convert_ok = True,
                                        init_evaluate = Some 5\<rparr>\<rparr>,
      \<lparr>en_name = ''B'', en_init = None\<rparr>]
   = Inr [(''A'', 5), (''B'', 7)]"
  by (simp add: analyse_enum_def)

subsection \<open>Discarding values\<close>

lemma analyse_children_exact:
  "analyse_children children =
     (map (\<lambda>c. if ok c then fst (Discard c) else c) (butlast children)
        @ (if children = [] then [] else [last children]),
      (\<exists>c \<in> set children. \<not> ok c),
      concat (map (\<lambda>c. if ok c then snd (Discard c) else []) (butlast children)))"
proof (induction children)
  case Nil
  show ?case by simp
next
  case (Cons child rest)
  show ?case
  proof (cases "rest = []")
    case True
    then show ?thesis by simp
  next
    case False
    with Cons.IH show ?thesis
      by (cases "Discard child") (auto simp: Let_def)
  qed
qed

text \<open>
  The claim C10 as it is stated fails in its last part: a name reference to a
  \<open>discardable\<close> function without parameters is an analysed expression of non-void type
  without side effects, and it is not a call; discarding it emits no warning, because
  \<^verbatim>\<open>Discard\<close> deprocedures it into a call and returns.
\<close>

theorem Discard_function_name_no_warning:
  "ok (NameRefExpr ''f'' (Some 0)
         \<lparr>n_type = FuncType (BuiltinType BuiltinInt) [] [Discardable], n_lvalue = False,
            n_sema = Done\<rparr>) \<and>
   \<not> is_void (type_of (NameRefExpr ''f'' (Some 0)
         \<lparr>n_type = FuncType (BuiltinType BuiltinInt) [] [Discardable], n_lvalue = False,
            n_sema = Done\<rparr>)) \<and>
   \<not> is_CallExpr (NameRefExpr ''f'' (Some 0)
         \<lparr>n_type = FuncType (BuiltinType BuiltinInt) [] [Discardable], n_lvalue = False,
            n_sema = Done\<rparr>) \<and>
   \<not> HasSideEffects (NameRefExpr ''f'' (Some 0)
         \<lparr>n_type = FuncType (BuiltinType BuiltinInt) [] [Discardable], n_lvalue = False,
            n_sema = Done\<rparr>) \<and>
   snd (Discard (NameRefExpr ''f'' (Some 0)
         \<lparr>n_type = FuncType (BuiltinType BuiltinInt) [] [Discardable], n_lvalue = False,
            n_sema = Done\<rparr>))
     = []"
  by (simp add: Discard_def Deproceduring_def ok_def sema_def type_of_def is_void_def Let_def)

text \<open>
  C10, amended. For an expression \<open>e\<close> that analysed without error and whose type is not
  void, the diagnostics of \<^verbatim>\<open>Discard\<close> are exactly these:
  \<^item> if \<open>e\<close> is a call whose callee's function type does not carry \<open>discardable\<close>, the
    error, followed by the unused-result warning if the call has no side effects and is
    not deprocedured;
  \<^item> if \<open>e\<close> is a call whose callee's function type carries \<open>discardable\<close>, no error,
    and the warning under the same condition;
  \<^item> if \<open>e\<close> is not a call and is not deprocedured, the warning if \<open>e\<close> has no side
    effects and nothing otherwise, and \<open>e\<close> stays in place;
  \<^item> if \<open>e\<close> is not a call, has a \<open>discardable\<close> function type (or is a pointer to
    one) and is deprocedured, nothing: the slot receives the inserted call.
  An expression that did not analyse, or whose type is void, is left alone. The analysis
  of a block discards every child but the last that analysed without error, in the order
  of the children, and emits their diagnostics and no others; so every call among them
  whose callee is not \<open>discardable\<close> is reported. Nothing is said here about the name of
  a function that is not \<open>discardable\<close>.
\<close>

theorem Discard_diagnostics:
  "(ok e \<and> \<not> is_void (type_of e) \<and> is_CallExpr e \<and>
      \<not> has_attr (callee_type e) Discardable \<longrightarrow>
      snd (Discard e) =
        Error ''Discarding return value of function not marked as discardable''
        # (if fst (Deproceduring e) \<or> HasSideEffects e then []
           else [Warning ''Expression result unused''])) \<and>
   (ok e \<and> \<not> is_void (type_of e) \<and> is_CallExpr e \<and>
      has_attr (callee_type e) Discardable \<longrightarrow>
      snd (Discard e) =
        (if fst (Deproceduring e) \<or> HasSideEffects e then []
         else [Warning ''Expression result unused''])) \<and>
   (ok e \<and> \<not> is_void (type_of e) \<and> \<not> is_CallExpr e \<and> \<not> fst (Deproceduring e) \<longrightarrow>
      Discard e =
        (e, if HasSideEffects e then [] else [Warning ''Expression result unused''])) \<and>
   (ok e \<and> \<not> is_void (type_of e) \<and> \<not> is_CallExpr e \<and> fst (Deproceduring e) \<and>
      has_attr (strip_pointers_and_references (type_of e)) Discardable \<longrightarrow>
      Discard e = (snd (Deproceduring e), [])) \<and>
   (\<not> ok e \<or> is_void (type_of e) \<longrightarrow> Discard e = (e, [])) \<and>
   snd (AnalyseBlock children n) =
     concat (map (\<lambda>c. if ok c then snd (Discard c) else []) (butlast children)) \<and>
   (Suc i < length children \<and> ok (children ! i) \<and> \<not> is_void (type_of (children ! i)) \<and>
      is_CallExpr (children ! i) \<and> \<not> has_attr (callee_type (children ! i)) Discardable \<longrightarrow>
      Error ''Discarding return value of function not marked as discardable''
        \<in> set (snd (AnalyseBlock children n)))"
proof -
  have c1: "ok e \<and> \<not> is_void (type_of e) \<and> is_CallExpr e \<and>
      \<not> has_attr (callee_type e) Discardable \<longrightarrow>
      snd (Discard e) =
        Error ''Discarding return value of function not marked as discardable''
        # (if fst (Deproceduring e) \<or> HasSideEffects e then []
           else [Warning ''Expression result unused''])"
    by (auto simp: Discard_def Let_def split: prod.splits bool.splits)
  have c2: "ok e \<and> \<not> is_void (type_of e) \<and> is_CallExpr e \<and>
      has_attr (callee_type e) Discardable \<longrightarrow>
      snd (Discard e) =
        (if fst (Deproceduring e) \<or> HasSideEffects e then []
         else [Warning ''Expression result unused''])"
    by (auto simp: Discard_def Let_def split: prod.splits bool.splits)
  have c3: "ok e \<and> \<not> is_void (type_of e) \<and> \<not> is_CallExpr e \<and>
      \<not> fst (Deproceduring e) \<longrightarrow>
      Discard e =
        (e, if HasSideEffects e then [] else [Warning ''Expression result unused''])"
    by (auto simp: Discard_def Let_def split: prod.splits bool.splits)
  have c4: "ok e \<and> \<not> is_void (type_of e) \<and> \<not> is_CallExpr e \<and> fst (Deproceduring e) \<and>
      has_attr (strip_pointers_and_references (type_of e)) Discardable \<longrightarrow>
      Discard e = (snd (Deproceduring e), [])"
    by (auto simp: Discard_def Let_def split: prod.splits bool.splits)
  have c5: "\<not> ok e \<or> is_void (type_of e) \<longrightarrow> Discard e = (e, [])"
    by (auto simp: Discard_def)
  have c6: "snd (AnalyseBlock children n) =
     concat (map (\<lambda>c. if ok c then snd (Discard c) else []) (butlast children))"
    by (simp add: AnalyseBlock_def analyse_children_exact)
  have c7: "Suc i < length children \<and> ok (children ! i) \<and>
      \<not> is_void (type_of (children ! i)) \<and>
      is_CallExpr (children ! i) \<and> \<not> has_attr (callee_type (children ! i)) Discardable \<longrightarrow>
      Error ''Discarding return value of function not marked as discardable''
        \<in> set (snd (AnalyseBlock children n))"
  proof
    assume a: "Suc i < length children \<and> ok (children ! i) \<and>
      \<not> is_void (type_of (children ! i)) \<and>
      is_CallExpr (children ! i) \<and> \<not> has_attr (callee_type (children ! i)) Discardable"
    then have "Suc i < length children" by (rule conjunct1)
    then have "i < length (butlast children)" by simp
    then have "children ! i \<in> set (butlast children)"
      by (metis nth_butlast nth_mem)
    moreover from a have "Error ''Discarding return value of function not marked as discardable''
        \<in> set (snd (Discard (children ! i)))"
      by (auto simp: Discard_def Let_def split: prod.splits bool.splits)
    ultimately show "Error ''Discarding return value of function not marked as discardable''
        \<in> set (snd (AnalyseBlock children n))"
      using a unfolding c6 by auto
  qed
  show ?thesis
    using c1 c2 c3 c4 c5 c6 c7 by - (intro conjI, assumption+)
qed

text \<open>
  In the block \<open>{ g(); h(); 0 }\<close>, where \<open>g\<close> and \<open>h\<close> return \<open>int\<close>, have side
  effects, and only \<open>h\<close> is \<open>discardable\<close>, exactly the call of \<open>g\<close> is reported;
  discarding the variable \<open>x\<close> gives the warning.
\<close>

theorem Discard_diagnostics_witness:
  "snd (AnalyseBlock
         [CallExpr
            (NameRefExpr ''g'' (Some 1)
               \<lparr>n_type = FuncType (BuiltinType BuiltinInt) [] [], n_lvalue = False,
                  n_sema = Done\<rparr>)
            [] \<lparr>n_type = BuiltinType BuiltinInt, n_lvalue = False, n_sema = Done\<rparr>,
          CallExpr
            (NameRefExpr ''h'' (Some 2)
               \<lparr>n_type = FuncType (BuiltinType BuiltinInt) [] [Discardable], n_lvalue = False,
                  n_sema = Done\<rparr>)
            [] \<lparr>n_type = BuiltinType BuiltinInt, n_lvalue = False, n_sema = Done\<rparr>,
          IntegerLiteral 0
            \<lparr>n_type = BuiltinType BuiltinInt, n_lvalue = False, n_sema = Done\<rparr>]
         \<lparr>n_type = BuiltinType BuiltinUnknown, n_lvalue = False, n_sema = InProgress\<rparr>)
     = [Error ''Discarding return value of function not marked as discardable''] \<and>
   Discard (NameRefExpr ''x'' (Some 0)
              \<lparr>n_type = BuiltinType BuiltinInt, n_lvalue = True, n_sema = Done\<rparr>)
     = (NameRefExpr ''x'' (Some 0)
          \<lparr>n_type = BuiltinType BuiltinInt, n_lvalue = True, n_sema = Done\<rparr>,
        [Warning ''Expression result unused''])"
proof -
  let ?g = "CallExpr
            (NameRefExpr ''g'' (Some 1)
               \<lparr>n_type = FuncType (BuiltinType BuiltinInt) [] [], n_lvalue = False,
                  n_sema = Done\<rparr>)
            [] \<lparr>n_type = BuiltinType BuiltinInt, n_lvalue = False, n_sema = Done\<rparr>"
  let ?h = "CallExpr
            (NameRefExpr ''h'' (Some 2)
               \<lparr>n_type = FuncType (BuiltinType BuiltinInt) [] [Discardable], n_lvalue = False,
                  n_sema = Done\<rparr>)
            [] \<lparr>n_type = BuiltinType BuiltinInt, n_lvalue = False, n_sema = Done\<rparr>"
  let ?zero = "IntegerLiteral 0
            \<lparr>n_type = BuiltinType BuiltinInt, n_lvalue = False, n_sema = Done\<rparr>"
  let ?n = "\<lparr>n_type = BuiltinType BuiltinUnknown, n_lvalue = False, n_sema = InProgress\<rparr>"
  let ?x = "NameRefExpr ''x'' (Some 0)
              \<lparr>n_type = BuiltinType BuiltinInt, n_lvalue = True, n_sema = Done\<rparr>"
  have okg: "ok ?g" and okh: "ok ?h" by (simp_all add: ok_def sema_def)
  have hg: "ok ?g \<and> \<not> is_void (type_of ?g) \<and> is_CallExpr ?g \<and>
      \<not> has_attr (callee_type ?g) Discardable"
    by (simp add: ok_def sema_def type_of_def is_void_def)
  have hh: "ok ?h \<and> \<not> is_void (type_of ?h) \<and> is_CallExpr ?h \<and>
      has_attr (callee_type ?h) Discardable"
    by (simp add: ok_def sema_def type_of_def is_void_def)
  have hx: "ok ?x \<and> \<not> is_void (type_of ?x) \<and> \<not> is_CallExpr ?x \<and> \<not> fst (Deproceduring ?x)"
    by (simp add: ok_def sema_def type_of_def is_void_def Deproceduring_def Let_def)
  have sg: "HasSideEffects ?g" and sh: "HasSideEffects ?h" and sx: "\<not> HasSideEffects ?x"
    by (simp_all add: type_of_def)
  have dg: "snd (Discard ?g) =
      [Error ''Discarding return value of function not marked as discardable'']"
    using Discard_diagnostics [where e = ?g, THEN conjunct1, rule_format, OF hg]
    by (simp only: sg simp_thms if_True)
  have dh: "snd (Discard ?h) = []"
    using Discard_diagnostics [where e = ?h, THEN conjunct2, THEN conjunct1, rule_format, OF hh]
    by (simp only: sh simp_thms if_True)
  have dx: "Discard ?x = (?x, [Warning ''Expression result unused''])"
    using Discard_diagnostics [where e = ?x, THEN conjunct2, THEN conjunct2, THEN conjunct1,
        rule_format, OF hx] by (simp only: sx if_False)
  have blk: "snd (AnalyseBlock [?g, ?h, ?zero] ?n) =
      concat (map (\<lambda>c. if ok c then snd (Discard c) else []) (butlast [?g, ?h, ?zero]))"
    by (rule Discard_diagnostics [where children = "[?g, ?h, ?zero]" and n = ?n,
          THEN conjunct2, THEN conjunct2, THEN conjunct2, THEN conjunct2, THEN conjunct2,
          THEN conjunct1])
  have "snd (AnalyseBlock [?g, ?h, ?zero] ?n) =
      [Error ''Discarding return value of function not marked as discardable'']"
    unfolding blk using okg okh dg dh by simp
  with dx show ?thesis by simp
qed

end
